theory Spec2Isabelle
  imports Complex_Main "HOL-Library.Log_Nat"
begin

section \<open>Feedback enrichment pipeline: a shallow embedding\<close>

text \<open>
  The repository holds three versions of one Worker: \<^verbatim>\<open>src/index.ts\<close> (the current one),
  an earlier, longer version whose classify-urgency step asks the provider when no
  keyword matches, and a first version in which every step asks the provider. The
  definitions below follow \<^verbatim>\<open>src/index.ts\<close>; where the earlier version differs
  and a property is about it, its step is embedded as well, with the suffix \<open>_v1\<close>.

  JavaScript strings are modelled as \<^typ>\<open>string\<close>: a text is a list of code units below
  256 (ASCII and Latin-1). Timestamps (\<^verbatim>\<open>created_at\<close>, \<^verbatim>\<open>processed_at\<close>) are stored by
  the Worker as the ISO-8601 text of an instant, always produced by \<^verbatim>\<open>toISOString()\<close>;
  the model keeps the instant itself, in milliseconds since the epoch.
\<close>

subsection \<open>String primitives of the host language\<close>

definition toLowerCase_unit :: "char \<Rightarrow> char" where
  "toLowerCase_unit c =
     (let n = (of_char c :: nat)
      in if (65 \<le> n \<and> n \<le> 90) \<or> (192 \<le> n \<and> n \<le> 222 \<and> n \<noteq> 215)
         then char_of (n + 32) else c)"

definition toLowerCase :: "string \<Rightarrow> string" where
  "toLowerCase s = map toLowerCase_unit s"

text \<open>\<^verbatim>\<open>s.includes(kw)\<close>: \<open>kw\<close> occurs in \<open>s\<close> as a contiguous run.\<close>

fun js_includes :: "string \<Rightarrow> string \<Rightarrow> bool" where
  "js_includes [] kw = (kw = [])"
| "js_includes (c # cs) kw = (take (length kw) (c # cs) = kw \<or> js_includes cs kw)"

text \<open>\<^verbatim>\<open>s.substring(0, n)\<close>.\<close>

definition substring0 :: "nat \<Rightarrow> string \<Rightarrow> string" where
  "substring0 n s = take n s"

definition is_white_space :: "char \<Rightarrow> bool" where
  "is_white_space c = ((of_char c :: nat) \<in> {9, 10, 11, 12, 13, 32, 160})"

definition trim :: "string \<Rightarrow> string" where
  "trim s = rev (dropWhile is_white_space (rev (dropWhile is_white_space s)))"

text \<open>\<^verbatim>\<open>s.split(',')\<close>; the empty text splits into one empty piece.\<close>

fun split_comma :: "string \<Rightarrow> string list" where
  "split_comma [] = [[]]"
| "split_comma (c # cs) =
     (if c = CHR '','' then [] # split_comma cs
      else (case split_comma cs of
              [] \<Rightarrow> [[c]]
            | w # ws \<Rightarrow> (c # w) # ws))"

text \<open>\<^verbatim>\<open>a || b\<close> on an optional text: a missing or empty text is falsy.\<close>

definition or_else :: "string option \<Rightarrow> string \<Rightarrow> string" where
  "or_else a b = (case a of None \<Rightarrow> b | Some s \<Rightarrow> if s = [] then b else s)"

subsection \<open>Types and constants\<close>

record FeedbackPayload =
  fb_id :: string
  fb_source :: string
  fb_content :: string
  fb_author :: "string option"
  fb_customer_tier :: string
  fb_created_at :: int

definition TIER_ARR :: "(string \<times> int) list" where
  "TIER_ARR = [(''enterprise'', 50000), (''pro'', 5000), (''free'', 0)]"

definition TIER_WEIGHT :: "(string \<times> int) list" where
  "TIER_WEIGHT = [(''enterprise'', 10), (''pro'', 5), (''free'', 1)]"

definition SEVERITY_WEIGHT :: "(string \<times> int) list" where
  "SEVERITY_WEIGHT = [(''critical'', 10), (''high'', 7), (''medium'', 4), (''low'', 1)]"

definition SENTIMENT_WEIGHT :: "(string \<times> int) list" where
  "SENTIMENT_WEIGHT = [(''negative'', 10), (''neutral'', 5), (''positive'', 1)]"

definition SHEET_SOURCES :: "(string \<times> string) list" where
  "SHEET_SOURCES = [(''Support'', ''support''), (''Discord'', ''discord''),
     (''GitHub'', ''github''), (''Twitter'', ''twitter'')]"

definition THEME_KEYWORDS :: "(string \<times> string list) list" where
  "THEME_KEYWORDS =
    [(''documentation'', [''docs'', ''documentation'', ''guide'', ''tutorial'', ''example'',
        ''outdated'', ''confusing'']),
     (''reliability'', [''down'', ''outage'', ''error'', ''fail'', ''crash'', ''broken'',
        ''unstable'', ''timeout'']),
     (''performance'', [''slow'', ''latency'', ''speed'', ''fast'', ''performance'',
        ''cold start'']),
     (''dx'', [''developer experience'', ''wrangler'', ''cli'', ''sdk'', ''api'',
        ''typescript'', ''tooling'']),
     (''pricing'', [''price'', ''cost'', ''billing'', ''expensive'', ''cheap'', ''free tier'',
        ''credits'']),
     (''features'', [''feature'', ''request'', ''would be'', ''should'', ''wish'', ''need'',
        ''want'', ''missing'']),
     (''support'', [''support'', ''help'', ''response'', ''ticket'', ''resolved'']),
     (''security'', [''security'', ''auth'', ''permission'', ''403'', ''401'', ''access'',
        ''token''])]"


subsection \<open>Numbers of the host language\<close>

text \<open>
  A JavaScript number is an IEEE-754 binary64 value. The finite ones are rationals, so a
  number is modelled as \<open>Num x\<close> with \<open>x\<close> rational, or \<open>NaN\<close>; every arithmetic
  operation computes the exact rational result and rounds it to the nearest binary64
  value, ties to the even significand (\<open>fl\<close>). The model covers the normal range
  (magnitudes from \<open>2\<^sup>-\<^sup>1\<^sup>0\<^sup>2\<^sup>2\<close> up to \<open>2\<^sup>1\<^sup>0\<^sup>2\<^sup>4\<close>): overflow to infinity, subnormal
  numbers and the sign of zero are left out. The pipeline's scores lie between
  \<open>1/100\<close> and \<open>100\<close>, and a timestamp is an integer of magnitude at most
  \<open>8.64 \<times> 10\<^sup>1\<^sup>5\<close>, which binary64 holds exactly.
\<close>

datatype jsnum = NaN | Num rat

definition pow2 :: "int \<Rightarrow> rat" where
  "pow2 k = (if 0 \<le> k then 2 ^ nat k else 1 / 2 ^ nat (- k))"

text \<open>For \<open>x > 0\<close>, \<open>binexp x\<close> is the exponent \<open>e\<close> with \<open>2\<^sup>e \<le> x < 2\<^sup>e\<^sup>+\<^sup>1\<close>.\<close>

definition binexp :: "rat \<Rightarrow> int" where
  "binexp x =
     (if 1 \<le> x then int (floorlog 2 (nat \<lfloor>x\<rfloor>)) - 1
      else - int (floorlog 2 (nat (\<lceil>1 / x\<rceil> - 1))))"

definition round_half_even :: "rat \<Rightarrow> int" where
  "round_half_even y =
     (let n = \<lfloor>y\<rfloor>; d = y - of_int n
      in if d < 1 / 2 then n else if 1 / 2 < d then n + 1
         else if even n then n else n + 1)"

definition fl :: "rat \<Rightarrow> rat" where
  "fl x =
     (if x = 0 then 0
      else (let u = pow2 (binexp \<bar>x\<bar> - 52)
            in sgn x * of_int (round_half_even (\<bar>x\<bar> / u)) * u))"

text \<open>A decimal literal of the source denotes the binary64 value nearest to it.\<close>

definition lit :: "rat \<Rightarrow> jsnum" where
  "lit x = Num (fl x)"

definition jneg :: "jsnum \<Rightarrow> jsnum" where
  "jneg a = (case a of NaN \<Rightarrow> NaN | Num x \<Rightarrow> Num (- x))"

definition jadd :: "jsnum \<Rightarrow> jsnum \<Rightarrow> jsnum" where
  "jadd a b = (case a of NaN \<Rightarrow> NaN | Num x \<Rightarrow> (case b of NaN \<Rightarrow> NaN | Num y \<Rightarrow> Num (fl (x + y))))"

definition jsub :: "jsnum \<Rightarrow> jsnum \<Rightarrow> jsnum" where
  "jsub a b = (case a of NaN \<Rightarrow> NaN | Num x \<Rightarrow> (case b of NaN \<Rightarrow> NaN | Num y \<Rightarrow> Num (fl (x - y))))"

definition jmul :: "jsnum \<Rightarrow> jsnum \<Rightarrow> jsnum" where
  "jmul a b = (case a of NaN \<Rightarrow> NaN | Num x \<Rightarrow> (case b of NaN \<Rightarrow> NaN | Num y \<Rightarrow> Num (fl (x * y))))"

text \<open>Division; the source divides by the non-zero constants 10, 100 and 86400000 only.\<close>

definition jdiv :: "jsnum \<Rightarrow> jsnum \<Rightarrow> jsnum" where
  "jdiv a b =
     (case a of NaN \<Rightarrow> NaN
      | Num x \<Rightarrow> (case b of NaN \<Rightarrow> NaN | Num y \<Rightarrow> if y = 0 then NaN else Num (fl (x / y))))"

text \<open>\<^verbatim>\<open>Math.round\<close>: the nearest integer, a tie going up. \<^verbatim>\<open>Math.floor\<close>, \<^verbatim>\<open>Math.min\<close>,
  \<^verbatim>\<open>Math.max\<close> are exact, and \<open>NaN\<close> if an argument is.\<close>

definition Math_round :: "jsnum \<Rightarrow> jsnum" where
  "Math_round a = (case a of NaN \<Rightarrow> NaN | Num x \<Rightarrow> Num (of_int \<lfloor>x + 1 / 2\<rfloor>))"

definition Math_floor :: "jsnum \<Rightarrow> jsnum" where
  "Math_floor a = (case a of NaN \<Rightarrow> NaN | Num x \<Rightarrow> Num (of_int \<lfloor>x\<rfloor>))"

definition Math_min :: "jsnum \<Rightarrow> jsnum \<Rightarrow> jsnum" where
  "Math_min a b = (case a of NaN \<Rightarrow> NaN | Num x \<Rightarrow> (case b of NaN \<Rightarrow> NaN | Num y \<Rightarrow> Num (min x y)))"

definition Math_max :: "jsnum \<Rightarrow> jsnum \<Rightarrow> jsnum" where
  "Math_max a b = (case a of NaN \<Rightarrow> NaN | Num x \<Rightarrow> (case b of NaN \<Rightarrow> NaN | Num y \<Rightarrow> Num (max x y)))"

subsection \<open>Weight tables\<close>

text \<open>
  \<^verbatim>\<open>TABLE[key]\<close> on an object literal finds the table's own entries and, for the names
  that every object inherits, the inherited member (a function or an object). The
  customer tier is free text from a spreadsheet cell or a request body, so such a name
  can arrive; \<open>Inherited\<close> stands for that member. It is truthy, and is \<open>NaN\<close> in
  arithmetic.
\<close>

datatype table_value = Own int | Inherited

definition inherited_names :: "string list" where
  "inherited_names = [''constructor'', ''__proto__'', ''hasOwnProperty'', ''isPrototypeOf'',
     ''propertyIsEnumerable'', ''toString'', ''toLocaleString'', ''valueOf'',
     ''__defineGetter__'', ''__defineSetter__'', ''__lookupGetter__'', ''__lookupSetter__'']"

text \<open>\<^verbatim>\<open>TABLE[key] || dflt\<close>: a missing key and the number 0 are falsy.\<close>

definition lookup_or :: "(string \<times> int) list \<Rightarrow> string \<Rightarrow> int \<Rightarrow> table_value" where
  "lookup_or table k dflt =
     (case map_of table k of
        Some v \<Rightarrow> if v = 0 then Own dflt else Own v
      | None \<Rightarrow> if k \<in> set inherited_names then Inherited else Own dflt)"

definition to_number :: "table_value \<Rightarrow> jsnum" where
  "to_number v = (case v of Own n \<Rightarrow> Num (of_int n) | Inherited \<Rightarrow> NaN)"

subsection \<open>The stored table and the environment\<close>

text \<open>One row of table \<^verbatim>\<open>feedback\<close>; a nullable column is an option.\<close>

record feedback_row =
  r_id :: string
  r_source :: string
  r_content :: string
  r_content_hash :: string
  r_author :: "string option"
  r_customer_tier :: string
  r_created_at :: int
  r_sentiment :: "string option"
  r_sentiment_score :: "rat option"
  r_urgency :: "string option"
  r_themes :: "string option"
  r_summary :: "string option"
  r_priority_score :: "rat option"
  r_arr_estimate :: "int option"
  r_processed_at :: "int option"

text \<open>
  \<^verbatim>\<open>env.AI.run(model, input)\<close> either throws or returns a value. Following the binding's
  declared result types, a result is an object with optional fields \<^verbatim>\<open>label\<close>, \<^verbatim>\<open>score\<close>
  (text classification) and \<^verbatim>\<open>response\<close> (text generation), or an array of such objects.
  The provider is a function of the model name and the text sent to it: its responses
  are deterministic.
\<close>

datatype exn = Thrown string

record ai_object =
  ai_label :: "string option"
  ai_score :: "rat option"
  ai_response :: "string option"

datatype ai_output = AiArray "ai_object list" | AiObject ai_object

text \<open>
  What the Worker gets from outside: the provider, the wall clock (\<open>clock env n\<close> is the
  \<open>n\<close>-th reading taken), the spreadsheet service, the SHA-256 digest of the runtime,
  its identifier generator and its date parser (\<open>None\<close> for an invalid date).
\<close>

record env =
  AI :: "string \<Rightarrow> string \<Rightarrow> exn + ai_output"
  clock :: "nat \<Rightarrow> int"
  sheets :: "string \<Rightarrow> exn + bool \<times> string list list option"
  sha256 :: "string \<Rightarrow> nat list"
  uuid :: "nat \<Rightarrow> string"
  parse_date :: "string \<Rightarrow> int option"

text \<open>
  What persists outside a run: the table, the log of provider calls (model and text
  sent), how many clock readings and identifiers have been taken, and the workflow
  instances created so far.
\<close>

record world =
  db :: "feedback_row list"
  ai_calls :: "(string \<times> string) list"
  clock_reads :: nat
  uuids_drawn :: nat
  instances :: "FeedbackPayload list"

definition AI_run :: "env \<Rightarrow> string \<Rightarrow> string \<Rightarrow> world \<Rightarrow> (exn + ai_output) \<times> world" where
  "AI_run env model input w = (AI env model input, w\<lparr>ai_calls := ai_calls w @ [(model, input)]\<rparr>)"

definition Date_now :: "env \<Rightarrow> world \<Rightarrow> int \<times> world" where
  "Date_now env w = (clock env (clock_reads w), w\<lparr>clock_reads := Suc (clock_reads w)\<rparr>)"

text \<open>\<^verbatim>\<open>(response as any).response\<close>: an array has no such member.\<close>

definition response_of :: "ai_output \<Rightarrow> string option" where
  "response_of out = (case out of AiArray _ \<Rightarrow> None | AiObject ob \<Rightarrow> ai_response ob)"

definition score_of :: "ai_object \<Rightarrow> jsnum" where
  "score_of ob = (case ai_score ob of None \<Rightarrow> NaN | Some x \<Rightarrow> Num x)"

subsection \<open>The steps of \<^verbatim>\<open>MyWorkflow.run\<close>\<close>

definition SENTIMENT_MODEL :: string where
  "SENTIMENT_MODEL = ''@cf/huggingface/distilbert-sst-2-int8''"

definition TEXT_MODEL :: string where
  "TEXT_MODEL = ''@cf/meta/llama-3.1-8b-instruct''"

text \<open>Step \<^verbatim>\<open>analyze-sentiment\<close>. Reading \<^verbatim>\<open>label\<close> of the first element of an empty array
  throws, and the \<^verbatim>\<open>catch\<close> answers neutral.\<close>

definition analyze_sentiment ::
  "env \<Rightarrow> FeedbackPayload \<Rightarrow> world \<Rightarrow> (string \<times> jsnum) \<times> world" where
  "analyze_sentiment env feedback w =
     (case AI_run env SENTIMENT_MODEL (substring0 512 (fb_content feedback)) w of
        (Inl e, w') \<Rightarrow> ((''neutral'', Num 0), w')
      | (Inr response, w') \<Rightarrow>
          (case (case response of
                   AiArray rs \<Rightarrow> (case rs of [] \<Rightarrow> None | r # _ \<Rightarrow> Some r)
                 | AiObject r \<Rightarrow> Some r) of
             None \<Rightarrow> ((''neutral'', Num 0), w')
           | Some result \<Rightarrow>
               (let lbl = toLowerCase (or_else (ai_label result) ''NEUTRAL'');
                    sc = (if lbl = ''positive'' then score_of result else jneg (score_of result))
                in ((if lbl = ''positive'' then ''positive''
                     else if lbl = ''negative'' then ''negative'' else ''neutral'',
                     jdiv (Math_round (jmul sc (Num 100))) (Num 100)), w'))))"

text \<open>Step \<^verbatim>\<open>extract-themes\<close>. The keyword table and the prompt are the only places where
  the two versions of the step differ.\<close>

definition detect_themes :: "(string \<times> string list) list \<Rightarrow> string \<Rightarrow> string list" where
  "detect_themes table contentLower =
     map fst (filter (\<lambda>(theme, keywords). list_ex (\<lambda>kw. js_includes contentLower kw) keywords) table)"

definition themes_prompt :: "string \<Rightarrow> string" where
  "themes_prompt text =
     ''Classify into 1-2 themes (documentation, reliability, performance, dx, pricing, features, support, security): ''
     @ [CHR 0x22] @ substring0 300 text @ [CHR 0x22, CHR 0x0A, CHR 0x0A]
     @ ''Reply with ONLY comma-separated themes.''"


text \<open>The provider's reply, lower-cased, split at commas, trimmed, and filtered to the
  names of the table.\<close>

definition aiThemes_of :: "(string \<times> string list) list \<Rightarrow> ai_output \<Rightarrow> string list" where
  "aiThemes_of table response =
     filter (\<lambda>t. t \<in> set (map fst table))
       (map trim (split_comma (toLowerCase (or_else (response_of response) []))))"

definition extract_themes_with ::
  "(string \<times> string list) list \<Rightarrow> (string \<Rightarrow> string) \<Rightarrow>
   env \<Rightarrow> FeedbackPayload \<Rightarrow> world \<Rightarrow> string list \<times> world" where
  "extract_themes_with table prompt env feedback w =
     (let contentLower = toLowerCase (fb_content feedback);
          detected = detect_themes table contentLower
      in if length detected = 0
         then (case AI_run env TEXT_MODEL (prompt (fb_content feedback)) w of
                 (Inl e, w') \<Rightarrow> ([''general''], w')
               | (Inr response, w') \<Rightarrow>
                   (let aiThemes = aiThemes_of table response
                    in (if length aiThemes > 0 then aiThemes else [''general''], w')))
         else (take 3 detected, w))"

definition extract_themes :: "env \<Rightarrow> FeedbackPayload \<Rightarrow> world \<Rightarrow> string list \<times> world" where
  "extract_themes = extract_themes_with THEME_KEYWORDS themes_prompt"


text \<open>Step \<^verbatim>\<open>classify-urgency\<close> of \<^verbatim>\<open>src/index.ts\<close>: rules only, no provider call.\<close>

definition criticalKw :: "string list" where
  "criticalKw = [''urgent'', ''down'', ''outage'', ''production'', ''critical'', ''emergency'',
     ''asap'', ''sla'']"

definition highKw :: "string list" where
  "highKw = [''broken'', ''fail'', ''error'', ''blocked'', ''cannot'', ''stuck'', ''alternative'',
     ''leaving'']"

definition classify_urgency :: "FeedbackPayload \<Rightarrow> string" where
  "classify_urgency feedback =
     (let contentLower = toLowerCase (fb_content feedback);
          tier = toLowerCase (fb_customer_tier feedback);
          hasCritical = list_ex (\<lambda>kw. js_includes contentLower kw) criticalKw;
          hasHigh = list_ex (\<lambda>kw. js_includes contentLower kw) highKw
      in if tier = ''enterprise'' \<and> (hasCritical \<or> hasHigh) then ''critical''
         else if hasCritical then (if tier = ''enterprise'' then ''critical'' else ''high'')
         else if hasHigh then (if tier = ''enterprise'' then ''high'' else ''medium'')
         else ''low'')"

text \<open>The same step in the earlier version: one more critical keyword, and the
  provider is asked when no keyword matches.\<close>

definition criticalKeywords_v1 :: "string list" where
  "criticalKeywords_v1 = [''urgent'', ''down'', ''outage'', ''production'', ''critical'',
     ''emergency'', ''asap'', ''immediately'', ''sla'']"

definition highKeywords_v1 :: "string list" where
  "highKeywords_v1 = [''broken'', ''fail'', ''error'', ''blocked'', ''cannot'', ''stuck'',
     ''alternative'', ''leaving'']"

definition urgency_prompt_v1 :: "string \<Rightarrow> string \<Rightarrow> string" where
  "urgency_prompt_v1 tier text =
     ''Rate urgency as: critical, high, medium, or low.'' @ [CHR 0x0A]
     @ ''Customer tier: '' @ tier @ [CHR 0x0A]
     @ ''Feedback: '' @ [CHR 0x22] @ substring0 300 text @ [CHR 0x22, CHR 0x0A, CHR 0x0A]
     @ ''Reply with ONLY one word: critical, high, medium, or low''"

definition validUrgencies :: "string list" where
  "validUrgencies = [''critical'', ''high'', ''medium'', ''low'']"

definition classify_urgency_v1 :: "env \<Rightarrow> FeedbackPayload \<Rightarrow> world \<Rightarrow> string \<times> world" where
  "classify_urgency_v1 env feedback w =
     (let contentLower = toLowerCase (fb_content feedback);
          tier = toLowerCase (fb_customer_tier feedback);
          hasCritical = list_ex (\<lambda>kw. js_includes contentLower kw) criticalKeywords_v1;
          hasHigh = list_ex (\<lambda>kw. js_includes contentLower kw) highKeywords_v1
      in if tier = ''enterprise'' \<and> (hasCritical \<or> hasHigh) then (''critical'', w)
         else if hasCritical then (if tier = ''enterprise'' then ''critical'' else ''high'', w)
         else if hasHigh then (if tier = ''enterprise'' then ''high'' else ''medium'', w)
         else (case AI_run env TEXT_MODEL (urgency_prompt_v1 tier (fb_content feedback)) w of
                 (Inl e, w') \<Rightarrow> (''medium'', w')
               | (Inr response, w') \<Rightarrow>
                   (let result = trim (toLowerCase (or_else (response_of response) ''medium''))
                    in (if result \<in> set validUrgencies then result else ''medium'', w'))))"

text \<open>Step \<^verbatim>\<open>generate-summary\<close>. A result without \<^verbatim>\<open>response\<close> makes \<^verbatim>\<open>substring\<close> throw,
  and the \<^verbatim>\<open>catch\<close> answers with the start of the content.\<close>

definition summary_prompt :: "string \<Rightarrow> string" where
  "summary_prompt text =
     ''Summarize in max 12 words: '' @ [CHR 0x22] @ substring0 400 text
     @ [CHR 0x22, CHR 0x0A, CHR 0x0A] @ ''Reply with ONLY the summary.''"

definition generate_summary :: "env \<Rightarrow> FeedbackPayload \<Rightarrow> world \<Rightarrow> string \<times> world" where
  "generate_summary env feedback w =
     (case AI_run env TEXT_MODEL (summary_prompt (fb_content feedback)) w of
        (Inl e, w') \<Rightarrow> (substring0 80 (fb_content feedback) @ ''...'', w')
      | (Inr response, w') \<Rightarrow>
          (case response_of response of
             None \<Rightarrow> (substring0 80 (fb_content feedback) @ ''...'', w')
           | Some text \<Rightarrow> (trim (substring0 100 text), w')))"

text \<open>Step \<^verbatim>\<open>calculate-priority\<close>. \<open>age_weight\<close> is the sub-expression
  \<^verbatim>\<open>Math.min(daysOld * 0.5, 5)\<close> (the earlier version names it \<^verbatim>\<open>ageW\<close>).\<close>

definition daysOld_of :: "int \<Rightarrow> int \<Rightarrow> jsnum" where
  "daysOld_of now created =
     Math_max (Num 1)
       (Math_floor (jdiv (jsub (Num (of_int now)) (Num (of_int created))) (Num (1000 * 60 * 60 * 24))))"

definition age_weight :: "jsnum \<Rightarrow> jsnum" where
  "age_weight daysOld = Math_min (jmul daysOld (lit (5 / 10))) (Num 5)"

text \<open>The sum is evaluated left to right: \<open>weighted\<close> is its first three terms,
  \<open>age_term\<close> the fourth.\<close>

definition weighted :: "table_value \<Rightarrow> table_value \<Rightarrow> table_value \<Rightarrow> jsnum" where
  "weighted tierW sevW sentW =
     jadd (jadd (jmul (to_number tierW) (lit (4 / 10))) (jmul (to_number sevW) (lit (3 / 10))))
          (jmul (to_number sentW) (lit (2 / 10)))"

definition age_term :: "jsnum \<Rightarrow> jsnum" where
  "age_term daysOld = jmul (age_weight daysOld) (lit (1 / 10))"

definition priority_score :: "table_value \<Rightarrow> table_value \<Rightarrow> table_value \<Rightarrow> jsnum \<Rightarrow> jsnum" where
  "priority_score tierW sevW sentW daysOld =
     (let score = jadd (weighted tierW sevW sentW) (age_term daysOld)
      in jdiv (Math_round (jmul score (Num 10))) (Num 10))"

definition calculate_priority ::
  "env \<Rightarrow> FeedbackPayload \<Rightarrow> string \<Rightarrow> string \<Rightarrow> world \<Rightarrow> jsnum \<times> world" where
  "calculate_priority env feedback urgency sentiment w =
     (let tierW = lookup_or TIER_WEIGHT (toLowerCase (fb_customer_tier feedback)) 1;
          sevW = lookup_or SEVERITY_WEIGHT urgency 4;
          sentW = lookup_or SENTIMENT_WEIGHT sentiment 5;
          (now, w') = Date_now env w;
          daysOld = daysOld_of now (fb_created_at feedback)
      in (priority_score tierW sevW sentW daysOld, w'))"

text \<open>\<^verbatim>\<open>JSON.stringify\<close> of an array of texts.\<close>

definition hex_digit :: "nat \<Rightarrow> char" where
  "hex_digit n = ''0123456789abcdef'' ! (n mod 16)"

definition json_unit :: "char \<Rightarrow> string" where
  "json_unit c =
     (let n = (of_char c :: nat)
      in if n = 0x22 then [CHR 0x5C, CHR 0x22]
         else if n = 0x5C then [CHR 0x5C, CHR 0x5C]
         else if n = 8 then [CHR 0x5C, CHR ''b'']
         else if n = 9 then [CHR 0x5C, CHR ''t'']
         else if n = 10 then [CHR 0x5C, CHR ''n'']
         else if n = 12 then [CHR 0x5C, CHR ''f'']
         else if n = 13 then [CHR 0x5C, CHR ''r'']
         else if n < 32 then [CHR 0x5C, CHR ''u'', CHR ''0'', CHR ''0'', hex_digit (n div 16), hex_digit n]
         else [c])"

definition json_text :: "string \<Rightarrow> string" where
  "json_text s = [CHR 0x22] @ concat (map json_unit s) @ [CHR 0x22]"

fun join_comma :: "string list \<Rightarrow> string" where
  "join_comma [] = []"
| "join_comma [x] = x"
| "join_comma (x # y # ys) = x @ '','' @ join_comma (y # ys)"

definition JSON_stringify :: "string list \<Rightarrow> string" where
  "JSON_stringify xs = ''['' @ join_comma (map json_text xs) @ '']''"

text \<open>
  Step \<^verbatim>\<open>store-results\<close>: one \<^verbatim>\<open>UPDATE feedback SET ... WHERE id=?\<close>. The bound values are
  evaluated first, among them the clock reading; binding the inherited member of the
  ARR table is refused by the database binding with a type error, and nothing is
  written. A \<^verbatim>\<open>REAL\<close> column holds a number or \<^verbatim>\<open>NULL\<close>: a bound \<open>NaN\<close> is stored as
  \<^verbatim>\<open>NULL\<close> (\<open>D1_real\<close>).
\<close>

definition D1_real :: "jsnum \<Rightarrow> rat option" where
  "D1_real x = (case x of NaN \<Rightarrow> None | Num q \<Rightarrow> Some q)"

definition UPDATE_feedback ::
  "string \<Rightarrow> string \<Rightarrow> jsnum \<Rightarrow> string \<Rightarrow> string \<Rightarrow> string \<Rightarrow> jsnum \<Rightarrow> int \<Rightarrow> int \<Rightarrow>
   feedback_row list \<Rightarrow> feedback_row list" where
  "UPDATE_feedback ident sent sent_score urg thms summ prio arr stamp rows =
     map (\<lambda>r. if r_id r = ident
              then r\<lparr>r_sentiment := Some sent, r_sentiment_score := D1_real sent_score,
                     r_urgency := Some urg, r_themes := Some thms, r_summary := Some summ,
                     r_priority_score := D1_real prio, r_arr_estimate := Some arr,
                     r_processed_at := Some stamp\<rparr>
              else r) rows"

definition store_results ::
  "env \<Rightarrow> FeedbackPayload \<Rightarrow> string \<times> jsnum \<Rightarrow> string list \<Rightarrow> string \<Rightarrow> string \<Rightarrow> jsnum \<Rightarrow>
   world \<Rightarrow> (exn + unit) \<times> world" where
  "store_results env feedback sentiment themes urgency summaryResult priorityScore w =
     (let arr = lookup_or TIER_ARR (toLowerCase (fb_customer_tier feedback)) 0;
          (now, w') = Date_now env w
      in case arr of
           Inherited \<Rightarrow> (Inl (Thrown ''D1_TYPE_ERROR''), w')
         | Own a \<Rightarrow>
             (Inr (), w'\<lparr>db := UPDATE_feedback (fb_id feedback) (fst sentiment) (snd sentiment)
                                  urgency (JSON_stringify themes) summaryResult priorityScore
                                  a now (db w')\<rparr>))"

subsection \<open>Durable execution\<close>

text \<open>
  Modelled from the spec: \<^verbatim>\<open>step.do\<close> belongs to the workflow runtime, which is not part of
  the repository. The specification describes it: the result of each completed step is
  persisted before the run advances, as a map from step identifier to completed result,
  and on resume a step already present in the map is skipped and its recorded
  result returned. \<open>checkpoints\<close> is that map, with one slot per step of the run. A run is
  given a budget: the number of step bodies the runtime executes before it is
  interrupted. An interruption leaves the checkpoints and the world as they are; a body
  that throws ends the run with that error.
\<close>

record checkpoints =
  ck_sentiment :: "(string \<times> jsnum) option"
  ck_themes :: "string list option"
  ck_urgency :: "string option"
  ck_summary :: "string option"
  ck_priority :: "jsnum option"
  ck_store :: "unit option"

definition no_checkpoints :: checkpoints where
  "no_checkpoints = \<lparr>ck_sentiment = None, ck_themes = None, ck_urgency = None,
     ck_summary = None, ck_priority = None, ck_store = None\<rparr>"

datatype stop = Interrupted | Errored exn

datatype 'a progress = Next 'a nat checkpoints world | Stop stop checkpoints world

definition and_then ::
  "'a progress \<Rightarrow> ('a \<Rightarrow> nat \<Rightarrow> checkpoints \<Rightarrow> world \<Rightarrow> 'b progress) \<Rightarrow> 'b progress" where
  "and_then m f = (case m of Next v b c w \<Rightarrow> f v b c w | Stop r c w \<Rightarrow> Stop r c w)"

definition step_do ::
  "(checkpoints \<Rightarrow> 'a option) \<Rightarrow> ('a \<Rightarrow> checkpoints \<Rightarrow> checkpoints) \<Rightarrow>
   (world \<Rightarrow> (exn + 'a) \<times> world) \<Rightarrow> nat \<Rightarrow> checkpoints \<Rightarrow> world \<Rightarrow> 'a progress" where
  "step_do slot record_result body b c w =
     (case slot c of
        Some v \<Rightarrow> Next v b c w
      | None \<Rightarrow>
          (case b of
             0 \<Rightarrow> Stop Interrupted c w
           | Suc b' \<Rightarrow>
               (case body w of
                  (Inl e, w') \<Rightarrow> Stop (Errored e) c w'
                | (Inr v, w') \<Rightarrow> Next v b' (record_result v c) w')))"

text \<open>A step body that cannot throw.\<close>

definition returns :: "(world \<Rightarrow> 'a \<times> world) \<Rightarrow> world \<Rightarrow> (exn + 'a) \<times> world" where
  "returns body w = (case body w of (v, w') \<Rightarrow> (Inr v, w'))"

subsection \<open>\<^verbatim>\<open>MyWorkflow.run\<close>\<close>

record run_result =
  res_id :: string
  res_sentiment :: "string \<times> jsnum"
  res_themes :: "string list"
  res_urgency :: string
  res_summary :: string
  res_priorityScore :: jsnum

definition run ::
  "env \<Rightarrow> FeedbackPayload \<Rightarrow> nat \<Rightarrow> checkpoints \<Rightarrow> world \<Rightarrow> run_result progress" where
  "run env feedback b0 c0 w0 =
     and_then (step_do ck_sentiment (\<lambda>v c. c\<lparr>ck_sentiment := Some v\<rparr>)
                 (returns (analyze_sentiment env feedback)) b0 c0 w0)
       (\<lambda>sentiment b1 c1 w1.
     and_then (step_do ck_themes (\<lambda>v c. c\<lparr>ck_themes := Some v\<rparr>)
                 (returns (extract_themes env feedback)) b1 c1 w1)
       (\<lambda>themes b2 c2 w2.
     and_then (step_do ck_urgency (\<lambda>v c. c\<lparr>ck_urgency := Some v\<rparr>)
                 (returns (\<lambda>w. (classify_urgency feedback, w))) b2 c2 w2)
       (\<lambda>urgency b3 c3 w3.
     and_then (step_do ck_summary (\<lambda>v c. c\<lparr>ck_summary := Some v\<rparr>)
                 (returns (generate_summary env feedback)) b3 c3 w3)
       (\<lambda>summaryResult b4 c4 w4.
     and_then (step_do ck_priority (\<lambda>v c. c\<lparr>ck_priority := Some v\<rparr>)
                 (returns (calculate_priority env feedback urgency (fst sentiment))) b4 c4 w4)
       (\<lambda>priorityScore b5 c5 w5.
     and_then (step_do ck_store (\<lambda>v c. c\<lparr>ck_store := Some v\<rparr>)
                 (store_results env feedback sentiment themes urgency summaryResult priorityScore)
                 b5 c5 w5)
       (\<lambda>stored b6 c6 w6.
          Next \<lparr>res_id = fb_id feedback, res_sentiment = sentiment, res_themes = themes,
                res_urgency = urgency, res_summary = summaryResult,
                res_priorityScore = priorityScore\<rparr> b6 c6 w6))))))"

text \<open>What a run leaves behind, whatever budget is left.\<close>

definition outcome :: "'a progress \<Rightarrow> (stop + 'a) \<times> checkpoints \<times> world" where
  "outcome p = (case p of Next v b c w \<Rightarrow> (Inr v, c, w) | Stop r c w \<Rightarrow> (Inl r, c, w))"

definition world_of :: "'a progress \<Rightarrow> world" where
  "world_of p = snd (snd (outcome p))"

text \<open>The run reached its \<^verbatim>\<open>return\<close>.\<close>

definition completed :: "'a progress \<Rightarrow> bool" where
  "completed p = (case p of Next v b c w \<Rightarrow> True | Stop r c w \<Rightarrow> False)"

text \<open>The checkpoints and world that a run leaves behind satisfy \<open>Q\<close>.\<close>

definition ends_in :: "(checkpoints \<Rightarrow> world \<Rightarrow> bool) \<Rightarrow> 'a progress \<Rightarrow> bool" where
  "ends_in Q p = (case p of Next v b c w \<Rightarrow> Q c w | Stop r c w \<Rightarrow> Q c w)"

subsection \<open>Fingerprint and import\<close>

text \<open>\<^verbatim>\<open>hashContent\<close>: the first 32 hexadecimal digits of the SHA-256 digest of the text.
  The digest itself is the runtime's (\<open>sha256 env\<close>, a list of bytes).\<close>

definition hex_byte :: "nat \<Rightarrow> string" where
  "hex_byte b = [hex_digit (b div 16), hex_digit b]"

definition hashContent :: "env \<Rightarrow> string \<Rightarrow> string" where
  "hashContent env content = take 32 (concat (map hex_byte (sha256 env content)))"

definition fetchSheetData :: "env \<Rightarrow> string \<Rightarrow> exn + string list list" where
  "fetchSheetData env sheetName =
     (case sheets env sheetName of
        Inl e \<Rightarrow> Inl e
      | Inr (ok, values) \<Rightarrow>
          if \<not> ok then Inl (Thrown (''Failed to fetch '' @ sheetName))
          else Inr (case values of None \<Rightarrow> [] | Some v \<Rightarrow> v))"

text \<open>\<^verbatim>\<open>SELECT id FROM feedback WHERE content_hash=?\<close>, first row.\<close>

definition SELECT_by_hash :: "string \<Rightarrow> feedback_row list \<Rightarrow> feedback_row option" where
  "SELECT_by_hash h rows = find (\<lambda>r. r_content_hash r = h) rows"

text \<open>\<^verbatim>\<open>INSERT INTO feedback\<close> with the eight base columns; the primary key and the unique
  index on \<^verbatim>\<open>content_hash\<close> refuse a duplicate.\<close>

definition new_row ::
  "string \<Rightarrow> string \<Rightarrow> string \<Rightarrow> string \<Rightarrow> string \<Rightarrow> string \<Rightarrow> int \<Rightarrow> int \<Rightarrow> feedback_row" where
  "new_row ident src text h auth tier arr created =
     \<lparr>r_id = ident, r_source = src, r_content = text, r_content_hash = h,
      r_author = Some auth, r_customer_tier = tier, r_created_at = created,
      r_sentiment = None, r_sentiment_score = None, r_urgency = None, r_themes = None,
      r_summary = None, r_priority_score = None, r_arr_estimate = Some arr,
      r_processed_at = None\<rparr>"

definition INSERT_feedback :: "feedback_row \<Rightarrow> feedback_row list \<Rightarrow> exn + feedback_row list" where
  "INSERT_feedback r rows =
     (if list_ex (\<lambda>x. r_id x = r_id r) rows \<or> list_ex (\<lambda>x. r_content_hash x = r_content_hash r) rows
      then Inl (Thrown ''constraint failed'')
      else Inr (rows @ [r]))"

text \<open>
  The body of the row loop of \<^verbatim>\<open>importFromSheets\<close>. The result is \<open>Inr True\<close> when the row
  was imported, \<open>Inr False\<close> when the loop continues without importing, \<open>Inl e\<close> when
  the body throws (an invalid timestamp, a refused binding or insert).
\<close>

definition import_row :: "env \<Rightarrow> string \<Rightarrow> string list \<Rightarrow> world \<Rightarrow> (exn + bool) \<times> world" where
  "import_row env sourceName row w =
     (case row of
        content # author # customer_tier # rest \<Rightarrow>
          if trim content = [] then (Inr False, w)
          else
            (let contentHash = hashContent env content;
                 existing = SELECT_by_hash contentHash (db w)
             in if existing \<noteq> None then (Inr False, w)
                else
                  (let ident = uuid env (uuids_drawn w);
                       w1 = w\<lparr>uuids_drawn := Suc (uuids_drawn w)\<rparr>;
                       normalizedTier = trim (toLowerCase (or_else (Some customer_tier) ''free''));
                       timestamp = (case rest of [] \<Rightarrow> None | t # _ \<Rightarrow> Some t)
                   in case (if or_else timestamp [] \<noteq> []
                            then (case parse_date env (or_else timestamp []) of
                                    None \<Rightarrow> (Inl (Thrown ''RangeError''), w1)
                                  | Some t \<Rightarrow> (Inr t, w1))
                            else (case Date_now env w1 of (t, w2) \<Rightarrow> (Inr t, w2))) of
                        (Inl e, w2) \<Rightarrow> (Inl e, w2)
                      | (Inr created_at, w2) \<Rightarrow>
                          (case lookup_or TIER_ARR normalizedTier 0 of
                             Inherited \<Rightarrow> (Inl (Thrown ''D1_TYPE_ERROR''), w2)
                           | Own arr \<Rightarrow>
                               (case INSERT_feedback
                                       (new_row ident sourceName (trim content) contentHash
                                          (or_else (Some author) ''anonymous'') normalizedTier arr
                                          created_at) (db w2) of
                                  Inl e \<Rightarrow> (Inl e, w2)
                                | Inr rows \<Rightarrow>
                                    (Inr True,
                                     w2\<lparr>db := rows,
                                        instances := instances w2 @
                                          [\<lparr>fb_id = ident, fb_source = sourceName,
                                            fb_content = trim content, fb_author = None,
                                            fb_customer_tier = normalizedTier,
                                            fb_created_at = created_at\<rparr>]\<rparr>)))))
      | _ \<Rightarrow> (Inr False, w))"

text \<open>The row loop: \<open>sheetImported\<close> and \<open>totalImported\<close> count the imported rows; an
  exception leaves the loop, and \<open>totalImported\<close> keeps what was counted.\<close>

fun import_rows ::
  "env \<Rightarrow> string \<Rightarrow> string list list \<Rightarrow> nat \<Rightarrow> nat \<Rightarrow> world \<Rightarrow> (exn + nat) \<times> nat \<times> world" where
  "import_rows env sourceName [] sheetImported totalImported w = (Inr sheetImported, totalImported, w)"
| "import_rows env sourceName (row # rows) sheetImported totalImported w =
     (case import_row env sourceName row w of
        (Inl e, w') \<Rightarrow> (Inl e, totalImported, w')
      | (Inr imported, w') \<Rightarrow>
          if imported
          then import_rows env sourceName rows (Suc sheetImported) (Suc totalImported) w'
          else import_rows env sourceName rows sheetImported totalImported w')"

text \<open>One pass of the loop over the sheets: fetch, skip the header row, import; a
  failure anywhere in the sheet is caught and reported as zero for that source.\<close>

definition import_sheet ::
  "env \<Rightarrow> string \<times> string \<Rightarrow> (string \<rightharpoonup> nat) \<times> nat \<times> world \<Rightarrow> (string \<rightharpoonup> nat) \<times> nat \<times> world" where
  "import_sheet env sheet st =
     (case sheet of (sheetName, sourceName) \<Rightarrow>
      case st of (results, totalImported, w) \<Rightarrow>
        (case fetchSheetData env sheetName of
           Inl e \<Rightarrow> (results(sourceName \<mapsto> 0), totalImported, w)
         | Inr rows \<Rightarrow>
             (case import_rows env sourceName (drop 1 rows) 0 totalImported w of
                (Inl e, total', w') \<Rightarrow> (results(sourceName \<mapsto> 0), total', w')
              | (Inr sheetImported, total', w') \<Rightarrow>
                  (results(sourceName \<mapsto> sheetImported), total', w'))))"

definition importFromSheets :: "env \<Rightarrow> world \<Rightarrow> (nat \<times> (string \<rightharpoonup> nat)) \<times> world" where
  "importFromSheets env w =
     (case foldl (\<lambda>st sheet. import_sheet env sheet st) (Map.empty, 0, w) SHEET_SOURCES of
        (results, totalImported, w') \<Rightarrow> ((totalImported, results), w'))"

subsection \<open>The specification's words\<close>

text \<open>
  The priority formula as the specification states it, over exact rationals: the
  weights by name, with the stated defaults for an unrecognised name, the age term
  capped at 5, and the sum rounded to one decimal place, a half going up.
\<close>

definition spec_tier_weight :: "string \<Rightarrow> int" where
  "spec_tier_weight t = (if t = ''enterprise'' then 10 else if t = ''pro'' then 5 else 1)"

definition spec_severity_weight :: "string \<Rightarrow> int" where
  "spec_severity_weight u =
     (if u = ''critical'' then 10 else if u = ''high'' then 7 else if u = ''low'' then 1 else 4)"

definition spec_sentiment_weight :: "string \<Rightarrow> int" where
  "spec_sentiment_weight s = (if s = ''negative'' then 10 else if s = ''positive'' then 1 else 5)"

definition round1 :: "rat \<Rightarrow> rat" where
  "round1 x = of_int \<lfloor>x * 10 + 1 / 2\<rfloor> / 10"

definition spec_priority :: "int \<Rightarrow> int \<Rightarrow> int \<Rightarrow> int \<Rightarrow> rat" where
  "spec_priority tierWeight severityWeight sentimentWeight daysOld =
     round1 (of_int tierWeight * (4 / 10) + of_int severityWeight * (3 / 10)
             + of_int sentimentWeight * (2 / 10) + min (of_int daysOld * (5 / 10)) 5 * (1 / 10))"

text \<open>The whole number of days that \<open>daysOld_of\<close> computes, at least 1.\<close>

definition whole_days :: "int \<Rightarrow> int \<Rightarrow> int" where
  "whole_days now created = max 1 \<lfloor>fl (fl (of_int (now - created)) / 86400000)\<rfloor>"

text \<open>
  The combinations of tier weight, severity weight, sentiment weight and days (capped
  at 10) whose exact sum ends in 5 hundredths and whose binary64 sum falls just below it.
\<close>

definition binary64_low :: "(int \<times> int \<times> int \<times> int) list" where
  "binary64_low = [(10, 7, 10, 9), (10, 1, 5, 7), (5, 7, 10, 1), (5, 7, 5, 1), (5, 7, 5, 7),
     (5, 7, 1, 7), (5, 1, 10, 7), (1, 1, 1, 3), (1, 1, 1, 9)]"

text \<open>\<^verbatim>\<open>a <= b\<close> on numbers; false when either is \<open>NaN\<close>.\<close>

definition jle :: "jsnum \<Rightarrow> jsnum \<Rightarrow> bool" where
  "jle a b = (case a of NaN \<Rightarrow> False | Num x \<Rightarrow> (case b of NaN \<Rightarrow> False | Num y \<Rightarrow> x \<le> y))"

subsection \<open>Rows and reachable tables\<close>

definition base_columns ::
  "feedback_row \<Rightarrow> string \<times> string \<times> string \<times> string \<times> string option \<times> string \<times> int" where
  "base_columns r =
     (r_id r, r_source r, r_content r, r_content_hash r, r_author r, r_customer_tier r,
      r_created_at r)"

definition unprocessed :: "feedback_row \<Rightarrow> bool" where
  "unprocessed r =
     (r_sentiment r = None \<and> r_urgency r = None \<and> r_themes r = None \<and> r_summary r = None
      \<and> r_processed_at r = None)"

definition enriched :: "feedback_row \<Rightarrow> bool" where
  "enriched r =
     (r_sentiment r \<noteq> None \<and> r_urgency r \<noteq> None \<and> r_themes r \<noteq> None \<and> r_summary r \<noteq> None
      \<and> r_processed_at r \<noteq> None)"

text \<open>
  The tables the Worker can produce: it starts empty, a row enters through the
  \<^verbatim>\<open>INSERT\<close> of the importer or of \<^verbatim>\<open>POST /api/feedback\<close>, the \<^verbatim>\<open>UPDATE\<close> of
  \<^verbatim>\<open>store-results\<close> is the only statement that changes a row, and \<^verbatim>\<open>POST /api/clear\<close>
  deletes every row.
\<close>

inductive reachable :: "feedback_row list \<Rightarrow> bool" where
  empty: "reachable []"
| inserted: "reachable rows \<Longrightarrow>
     INSERT_feedback (new_row ident src text h auth tier arr created) rows = Inr rows' \<Longrightarrow>
     reachable rows'"
| stored: "reachable rows \<Longrightarrow>
     reachable (UPDATE_feedback ident sent sent_score urg thms summ prio arr stamp rows)"
| cleared: "reachable rows \<Longrightarrow> reachable []"

subsection \<open>Two runs compared\<close>

text \<open>
  A row without the two columns that hold a reading of the clock or a value computed
  from one: \<^verbatim>\<open>priority_score\<close> and \<^verbatim>\<open>processed_at\<close>.
\<close>

definition timeless_columns :: "feedback_row \<Rightarrow> feedback_row" where
  "timeless_columns r = r\<lparr>r_priority_score := None, r_processed_at := None\<rparr>"

text \<open>
  Two worlds, two sets of checkpoints, two results that agree on everything but those
  columns and the priority score; \<open>alike\<close> lifts this to two runs, which must also end the
  same way with the same budget left.
\<close>

definition alike_world :: "world \<Rightarrow> world \<Rightarrow> bool" where
  "alike_world w w' =
     (map timeless_columns (db w') = map timeless_columns (db w)
      \<and> ai_calls w' = ai_calls w \<and> clock_reads w' = clock_reads w
      \<and> uuids_drawn w' = uuids_drawn w \<and> instances w' = instances w)"

definition alike_checkpoints :: "checkpoints \<Rightarrow> checkpoints \<Rightarrow> bool" where
  "alike_checkpoints c c' =
     (ck_sentiment c' = ck_sentiment c \<and> ck_themes c' = ck_themes c
      \<and> ck_urgency c' = ck_urgency c \<and> ck_summary c' = ck_summary c
      \<and> (ck_priority c' = None) = (ck_priority c = None) \<and> ck_store c' = ck_store c)"

definition alike_result :: "run_result \<Rightarrow> run_result \<Rightarrow> bool" where
  "alike_result r r' =
     (res_id r' = res_id r \<and> res_sentiment r' = res_sentiment r \<and> res_themes r' = res_themes r
      \<and> res_urgency r' = res_urgency r \<and> res_summary r' = res_summary r)"

definition alike :: "('a \<Rightarrow> 'a \<Rightarrow> bool) \<Rightarrow> 'a progress \<Rightarrow> 'a progress \<Rightarrow> bool" where
  "alike R p p' =
     (case p of
        Next v b c w \<Rightarrow>
          (case p' of
             Next v' b' c' w' \<Rightarrow> R v v' \<and> b' = b \<and> alike_checkpoints c c' \<and> alike_world w w'
           | Stop r' c' w' \<Rightarrow> False)
      | Stop r c w \<Rightarrow>
          (case p' of
             Next v' b' c' w' \<Rightarrow> False
           | Stop r' c' w' \<Rightarrow> r' = r \<and> alike_checkpoints c c' \<and> alike_world w w'))"

subsection \<open>Rows of a sheet\<close>

text \<open>
  The rows that the guard of the row loop passes over,
  \<^verbatim>\<open>row.length < 3 || !row[0]?.trim()\<close>.
\<close>

definition insufficient :: "string list \<Rightarrow> bool" where
  "insufficient row =
     (case row of content # author # customer_tier # rest \<Rightarrow> trim content = [] | _ \<Rightarrow> True)"

text \<open>
  The rows that the loop body can store: at least three cells, a content that is not
  blank, a fourth cell that is missing, empty or a date that parses, and a tier whose ARR
  lookup gives a number.
\<close>

definition importable :: "env \<Rightarrow> string list \<Rightarrow> bool" where
  "importable env row =
     (case row of
        content # author # customer_tier # rest \<Rightarrow>
          trim content \<noteq> []
          \<and> (case rest of [] \<Rightarrow> True | timestamp # _ \<Rightarrow> timestamp = [] \<or> parse_date env timestamp \<noteq> None)
          \<and> lookup_or TIER_ARR (trim (toLowerCase (or_else (Some customer_tier) ''free''))) 0 \<noteq> Inherited
      | _ \<Rightarrow> False)"

text \<open>Every key of the table is an identifier that the generator has given out.\<close>

definition ids_drawn :: "env \<Rightarrow> world \<Rightarrow> bool" where
  "ids_drawn env w = (\<forall>r\<in>set (db w). \<exists>n<uuids_drawn w. r_id r = uuid env n)"

text \<open>\<^verbatim>\<open>SELECT COUNT(*) FROM feedback WHERE content_hash=?\<close>.\<close>

definition records_with :: "string \<Rightarrow> feedback_row list \<Rightarrow> nat" where
  "records_with h rows = length (filter (\<lambda>r. r_content_hash r = h) rows)"

subsection \<open>Concrete inputs\<close>

text \<open>An environment with a given provider and clock; the other services are not
  used by a run.\<close>

definition env_of :: "(string \<Rightarrow> string \<Rightarrow> exn + ai_output) \<Rightarrow> (nat \<Rightarrow> int) \<Rightarrow> env" where
  "env_of ai clk =
     \<lparr>AI = ai, clock = clk, sheets = (\<lambda>name. Inl (Thrown ''offline'')),
      sha256 = (\<lambda>text. take 32 (map of_char text @ replicate 32 0)),
      uuid = (\<lambda>n. ''id-'' @ replicate n (CHR ''i'')),
      parse_date = (\<lambda>text. None)\<rparr>"

definition silent_ai :: "string \<Rightarrow> string \<Rightarrow> exn + ai_output" where
  "silent_ai model input = Inl (Thrown ''provider unavailable'')"

definition four_tags_ai :: "string \<Rightarrow> string \<Rightarrow> exn + ai_output" where
  "four_tags_ai model input =
     Inr (AiObject \<lparr>ai_label = None, ai_score = None,
            ai_response = Some ''documentation, reliability, performance, dx''\<rparr>)"

definition payload_of :: "string \<Rightarrow> string \<Rightarrow> int \<Rightarrow> FeedbackPayload" where
  "payload_of text tier created =
     \<lparr>fb_id = ''f1'', fb_source = ''manual'', fb_content = text, fb_author = None,
      fb_customer_tier = tier, fb_created_at = created\<rparr>"

definition world_with :: "feedback_row list \<Rightarrow> world" where
  "world_with rows = \<lparr>db = rows, ai_calls = [], clock_reads = 0, uuids_drawn = 0, instances = []\<rparr>"

definition one_row :: "string \<Rightarrow> string \<Rightarrow> int \<Rightarrow> feedback_row list" where
  "one_row text tier created = [new_row ''f1'' ''manual'' text ''00'' ''anonymous'' tier 0 created]"

text \<open>An environment for the importer: its date parser knows one date.\<close>

definition sheet_env :: env where
  "sheet_env =
     \<lparr>AI = (\<lambda>model input. Inl (Thrown ''provider unavailable'')), clock = (\<lambda>n. 1000),
      sheets = (\<lambda>name. Inl (Thrown ''offline'')),
      sha256 = (\<lambda>text. take 32 (map of_char text @ replicate 32 0)),
      uuid = (\<lambda>n. ''id-'' @ replicate n (CHR ''i'')),
      parse_date = (\<lambda>text. if text = ''2024-01-15T00:00:00.000Z'' then Some 1705276800000 else None)\<rparr>"

text \<open>Rows of a sheet: one with a date, the same text with a date that does not parse, a
  blank one, one with no tier and no date; and a sheet that holds the first row twice.\<close>

definition login_row :: "string list" where
  "login_row = [''App crashes on login'', ''Ann'', ''Pro'', ''2024-01-15T00:00:00.000Z'']"

definition misdated_row :: "string list" where
  "misdated_row = [''App crashes on login'', ''Ann'', ''Pro'', ''next week'']"

definition blank_row :: "string list" where
  "blank_row = [''   '', ''Bob'', ''free'']"

definition billing_row :: "string list" where
  "billing_row = [''Billing page is slow'', ''Cy'', '''', '''']"

definition support_sheet :: "string list list" where
  "support_sheet = [login_row, blank_row, billing_row, login_row]"

section \<open>Properties\<close>

subsection \<open>Urgency classification\<close>

text \<open>
  C4. The claim: a text with a high keyword and no critical keyword is classified
  \<open>high\<close> for an enterprise customer and \<open>medium\<close> for every other tier. The first
  rule of the step sends an enterprise customer with a critical or a high keyword to
  \<open>critical\<close>, so the enterprise half of the claim fails. Amended: for such a text the
  step returns \<open>critical\<close> when the lower-cased tier is \<open>enterprise\<close>, and \<open>medium\<close>
  for every other tier; this holds in \<^verbatim>\<open>src/index.ts\<close> and in the earlier version (whose
  list of critical keywords has one more entry).
\<close>

theorem urgency_high_keyword:
  assumes "list_ex (\<lambda>kw. js_includes (toLowerCase (fb_content feedback)) kw) highKw"
  shows "(\<not> list_ex (\<lambda>kw. js_includes (toLowerCase (fb_content feedback)) kw) criticalKw \<longrightarrow>
            classify_urgency feedback =
              (if toLowerCase (fb_customer_tier feedback) = ''enterprise'' then ''critical''
               else ''medium''))
       \<and> (\<not> list_ex (\<lambda>kw. js_includes (toLowerCase (fb_content feedback)) kw) criticalKeywords_v1 \<longrightarrow>
            fst (classify_urgency_v1 env feedback w) =
              (if toLowerCase (fb_customer_tier feedback) = ''enterprise'' then ''critical''
               else ''medium''))"
proof -
  have h1: "list_ex (\<lambda>kw. js_includes (toLowerCase (fb_content feedback)) kw) highKeywords_v1"
    using assms by (simp add: highKw_def highKeywords_v1_def)
  show ?thesis
    using assms h1 by (simp add: classify_urgency_def classify_urgency_v1_def Let_def)
qed

theorem urgency_high_keyword_witness:
  "classify_urgency (payload_of ''checkout is broken'' ''pro'' 0) = ''medium''
   \<and> fst (classify_urgency_v1 (env_of silent_ai (\<lambda>n. 0)) (payload_of ''checkout is broken'' ''pro'' 0)
        (world_with [])) = ''medium''"
proof -
  have a: "list_ex (\<lambda>kw. js_includes (toLowerCase (fb_content (payload_of ''checkout is broken'' ''pro'' 0))) kw) highKw"
    by code_simp
  have b: "\<not> list_ex (\<lambda>kw. js_includes (toLowerCase (fb_content (payload_of ''checkout is broken'' ''pro'' 0))) kw) criticalKw"
    by code_simp
  have c: "\<not> list_ex (\<lambda>kw. js_includes (toLowerCase (fb_content (payload_of ''checkout is broken'' ''pro'' 0))) kw) criticalKeywords_v1"
    by code_simp
  have d: "toLowerCase (fb_customer_tier (payload_of ''checkout is broken'' ''pro'' 0)) \<noteq> ''enterprise''"
    by code_simp
  show ?thesis
    using urgency_high_keyword [OF a, of "env_of silent_ai (\<lambda>n. 0)" "world_with []"] b c d
    by simp
qed

text \<open>The claim as stated fails for an enterprise customer whose text says \<open>broken\<close>.\<close>

theorem urgency_enterprise_high_counterexample:
  "list_ex (\<lambda>kw. js_includes (toLowerCase (fb_content (payload_of ''checkout is broken'' ''enterprise'' 0))) kw) highKw
   \<and> \<not> list_ex (\<lambda>kw. js_includes (toLowerCase (fb_content (payload_of ''checkout is broken'' ''enterprise'' 0))) kw) criticalKw
   \<and> classify_urgency (payload_of ''checkout is broken'' ''enterprise'' 0) = ''critical''
   \<and> classify_urgency (payload_of ''checkout is broken'' ''enterprise'' 0) \<noteq> ''high''"
  by code_simp

text \<open>
  C7. The claim: a text with neither a critical nor a high keyword goes to the
  provider, restricted to the four urgency levels, and an unusable answer or a provider
  error gives \<open>medium\<close>. That is the earlier version of the step. The step of
  \<^verbatim>\<open>src/index.ts\<close> has no provider call and returns \<open>low\<close> for such a text. Amended: in
  \<^verbatim>\<open>src/index.ts\<close> the step returns \<open>low\<close>; in the earlier version it makes one call to
  the text model and returns the answer, lower-cased and trimmed, when that is one of the
  four levels, and \<open>medium\<close> when it is not, when there is no answer, and when the call
  throws.
\<close>

theorem urgency_no_keyword:
  assumes "\<not> list_ex (\<lambda>kw. js_includes (toLowerCase (fb_content feedback)) kw) highKw"
  shows "(\<not> list_ex (\<lambda>kw. js_includes (toLowerCase (fb_content feedback)) kw) criticalKw \<longrightarrow>
            classify_urgency feedback = ''low'')
       \<and> (\<not> list_ex (\<lambda>kw. js_includes (toLowerCase (fb_content feedback)) kw) criticalKeywords_v1 \<longrightarrow>
            ai_calls (snd (classify_urgency_v1 env feedback w)) =
              ai_calls w @ [(TEXT_MODEL, urgency_prompt_v1 (toLowerCase (fb_customer_tier feedback))
                                           (fb_content feedback))]
            \<and> fst (classify_urgency_v1 env feedback w) \<in> set validUrgencies
            \<and> fst (classify_urgency_v1 env feedback w) =
                (case AI env TEXT_MODEL (urgency_prompt_v1 (toLowerCase (fb_customer_tier feedback))
                                           (fb_content feedback)) of
                   Inl e \<Rightarrow> ''medium''
                 | Inr response \<Rightarrow>
                     if trim (toLowerCase (or_else (response_of response) ''medium'')) \<in> set validUrgencies
                     then trim (toLowerCase (or_else (response_of response) ''medium''))
                     else ''medium''))"
proof -
  have h1: "\<not> list_ex (\<lambda>kw. js_includes (toLowerCase (fb_content feedback)) kw) highKeywords_v1"
    using assms by (simp add: highKw_def highKeywords_v1_def)
  have m: "''medium'' \<in> set validUrgencies" by (simp add: validUrgencies_def)
  show ?thesis
    using assms h1 m
    by (auto simp add: classify_urgency_def classify_urgency_v1_def Let_def AI_run_def
        split: sum.splits)
qed

theorem urgency_no_keyword_witness:
  "classify_urgency (payload_of ''thanks for the update'' ''free'' 0) = ''low''
   \<and> fst (classify_urgency_v1 (env_of silent_ai (\<lambda>n. 0)) (payload_of ''thanks for the update'' ''free'' 0)
        (world_with [])) = ''medium''"
proof -
  have a: "\<not> list_ex (\<lambda>kw. js_includes (toLowerCase (fb_content (payload_of ''thanks for the update'' ''free'' 0))) kw) highKw"
    by code_simp
  have b: "\<not> list_ex (\<lambda>kw. js_includes (toLowerCase (fb_content (payload_of ''thanks for the update'' ''free'' 0))) kw) criticalKw"
    by code_simp
  have c: "\<not> list_ex (\<lambda>kw. js_includes (toLowerCase (fb_content (payload_of ''thanks for the update'' ''free'' 0))) kw) criticalKeywords_v1"
    by code_simp
  have d: "AI (env_of silent_ai (\<lambda>n. 0)) TEXT_MODEL
             (urgency_prompt_v1 (toLowerCase (fb_customer_tier (payload_of ''thanks for the update'' ''free'' 0)))
                (fb_content (payload_of ''thanks for the update'' ''free'' 0)))
           = Inl (Thrown ''provider unavailable'')"
    by (simp add: env_of_def silent_ai_def)
  show ?thesis
    using urgency_no_keyword [OF a, of "env_of silent_ai (\<lambda>n. 0)" "world_with []"] b c d
    by simp
qed

text \<open>In \<^verbatim>\<open>src/index.ts\<close> a text without keywords is \<open>low\<close>, not \<open>medium\<close>, whatever
  the provider would say.\<close>

theorem urgency_fallback_counterexample:
  "\<not> list_ex (\<lambda>kw. js_includes (toLowerCase (fb_content (payload_of ''thanks for the update'' ''free'' 0))) kw) criticalKw
   \<and> \<not> list_ex (\<lambda>kw. js_includes (toLowerCase (fb_content (payload_of ''thanks for the update'' ''free'' 0))) kw) highKw
   \<and> classify_urgency (payload_of ''thanks for the update'' ''free'' 0) = ''low''
   \<and> classify_urgency (payload_of ''thanks for the update'' ''free'' 0) \<noteq> ''medium''"
  by code_simp

subsection \<open>Theme extraction\<close>

lemma detect_themes_subset: "set (detect_themes table text) \<subseteq> set (map fst table)"
  by (auto simp add: detect_themes_def)

lemma aiThemes_of_subset: "set (aiThemes_of table response) \<subseteq> set (map fst table)"
  by (auto simp add: aiThemes_of_def)



lemma extract_themes_with_tags:
  "set (fst (extract_themes_with table prompt env feedback w)) \<subseteq> set (map fst table) \<union> {''general''}"
proof (cases "detect_themes table (toLowerCase (fb_content feedback)) = []")
  case True
  then show ?thesis
    using aiThemes_of_subset [of table]
    by (cases "AI env TEXT_MODEL (prompt (fb_content feedback))")
       (auto simp add: extract_themes_with_def Let_def AI_run_def)
next
  case False
  have "set (take 3 (detect_themes table (toLowerCase (fb_content feedback)))) \<subseteq> set (map fst table)"
    using set_take_subset detect_themes_subset by fastforce
  then show ?thesis using False by (auto simp add: extract_themes_with_def Let_def)
qed

lemma extract_themes_with_keywords:
  assumes "detect_themes table (toLowerCase (fb_content feedback)) \<noteq> []"
  shows "fst (extract_themes_with table prompt env feedback w)
           = take 3 (detect_themes table (toLowerCase (fb_content feedback)))
         \<and> snd (extract_themes_with table prompt env feedback w) = w"
  using assms by (simp add: extract_themes_with_def Let_def)



text \<open>
  C8. The claim: the extract-themes step returns between 1 and 3 tags, each from the
  taxonomy or \<open>general\<close>. The tags are always from the taxonomy or \<open>general\<close>
  (\<open>extract_themes_with_tags\<close>), there is always at least one
  (\<open>extract_themes_with_nonempty\<close>), and the keyword path keeps at most three
  (\<open>extract_themes_with_keywords\<close>). The provider path keeps every valid tag of the
  reply: a reply that lists four valid tags, on a text without keywords, gives four.
\<close>

theorem themes_four_tags:
  "detect_themes THEME_KEYWORDS (toLowerCase (fb_content (payload_of ''thanks for the update'' ''free'' 0))) = []
   \<and> fst (extract_themes (env_of four_tags_ai (\<lambda>n. 0)) (payload_of ''thanks for the update'' ''free'' 0)
            (world_with []))
       = [''documentation'', ''reliability'', ''performance'', ''dx'']
   \<and> length (fst (extract_themes (env_of four_tags_ai (\<lambda>n. 0))
                     (payload_of ''thanks for the update'' ''free'' 0) (world_with []))) = 4"
  by code_simp


subsection \<open>Binary64 rounding\<close>

text \<open>
  \<open>binexp\<close> finds the binade of a positive number, so \<open>fl\<close> can be evaluated once the
  binade is known (\<open>fl_pos_eq\<close>); and \<open>fl\<close> never takes a number below an integer
  that is itself a binary64 value (\<open>fl_ge_int\<close>).
\<close>

lemma floorlog2_eq: "2 ^ k \<le> n \<Longrightarrow> n < 2 ^ Suc k \<Longrightarrow> floorlog 2 n = Suc k"
  using floorlog_ge_SucI [of 2 k n] floorlog_leI [of n 2 "Suc k"] by simp

lemma pow2_pos: "0 < pow2 e"
  by (simp add: pow2_def)

lemma pow2_nonneg_eq: "0 \<le> e \<Longrightarrow> pow2 e = 2 ^ nat e"
  by (simp add: pow2_def)

lemma pow2_neg_eq: "e < 0 \<Longrightarrow> pow2 e = 1 / 2 ^ nat (- e)"
  by (simp add: pow2_def)

lemma binexp_ge1:
  assumes "0 \<le> e" "pow2 e \<le> x" "x < pow2 (e + 1)"
  shows "binexp x = e"
proof -
  have p: "(2::rat) ^ nat e \<le> x" using assms by (simp add: pow2_def)
  have q: "x < 2 ^ Suc (nat e)" using assms by (simp add: pow2_def nat_add_distrib)
  have "(1::rat) \<le> 2 ^ nat e" by simp
  then have x1: "1 \<le> x" using p by linarith
  have "of_int (2 ^ nat e) \<le> x" using p by simp
  then have a: "2 ^ nat e \<le> \<lfloor>x\<rfloor>" by (simp only: le_floor_iff)
  have "x < of_int (2 ^ Suc (nat e))" using q by simp
  then have b: "\<lfloor>x\<rfloor> < 2 ^ Suc (nat e)" by (simp only: floor_less_iff)
  have fl0: "0 \<le> \<lfloor>x\<rfloor>" using x1 by simp
  have "int (2 ^ nat e) \<le> \<lfloor>x\<rfloor>" using a by simp
  then have a': "2 ^ nat e \<le> nat \<lfloor>x\<rfloor>" using fl0 by (simp only: le_nat_iff)
  have "\<lfloor>x\<rfloor> < int (2 ^ Suc (nat e))" using b by simp
  then have b': "nat \<lfloor>x\<rfloor> < 2 ^ Suc (nat e)" using fl0 by (simp only: nat_less_iff)
  have "floorlog 2 (nat \<lfloor>x\<rfloor>) = Suc (nat e)" using a' b' by (rule floorlog2_eq)
  then show ?thesis using x1 assms(1) by (simp add: binexp_def)
qed

lemma binexp_lt1:
  assumes "e < 0" "pow2 e \<le> x" "x < pow2 (e + 1)"
  shows "binexp x = e"
proof -
  define m where "m = nat (- e)"
  have m: "0 < m" "e = - int m" using assms(1) by (simp_all add: m_def)
  have xpos: "0 < x" using assms(2) pow2_pos [of e] by linarith
  have lo: "1 / 2 ^ m \<le> x" using assms(2) m by (simp add: pow2_def)
  have hi: "x < 1 / 2 ^ (m - 1)"
  proof (cases "m = 1")
    case True then show ?thesis using assms(3) m by (simp add: pow2_def)
  next
    case False
    then have "e + 1 < 0" using m by simp
    moreover have "nat (- (e + 1)) = m - 1" using m by simp
    ultimately show ?thesis using assms(3) by (simp add: pow2_def)
  qed
  have x1: "x < 1"
  proof -
    have "(1::rat) / 2 ^ (m - 1) \<le> 1" by simp
    then show ?thesis using hi by linarith
  qed
  have "1 / x \<le> 2 ^ m" using lo xpos
    by (simp add: field_simps)
  then have "1 / x \<le> of_int (2 ^ m)" by simp
  then have c1: "\<lceil>1 / x\<rceil> \<le> 2 ^ m" by (simp only: ceiling_le_iff)
  have "2 ^ (m - 1) < 1 / x" using hi xpos by (simp add: field_simps)
  then have "of_int (2 ^ (m - 1)) < 1 / x" by simp
  then have c2: "2 ^ (m - 1) < \<lceil>1 / x\<rceil>" by (simp only: less_ceiling_iff)
  define n where "n = nat (\<lceil>1 / x\<rceil> - 1)"
  have "(0::int) < 2 ^ (m - 1)" by simp
  then have "0 < \<lceil>1 / x\<rceil>" using c2 by linarith
  then have n0: "int n = \<lceil>1 / x\<rceil> - 1" unfolding n_def by linarith
  have "int (2 ^ (m - 1)) \<le> int n" using c2 n0 by simp
  then have a': "2 ^ (m - 1) \<le> n" by (simp only: of_nat_le_iff)
  have "int n < int (2 ^ m)" using c1 n0 by simp
  then have "n < 2 ^ m" by (simp only: of_nat_less_iff)
  then have b': "n < 2 ^ Suc (m - 1)" using m by simp
  have "floorlog 2 n = Suc (m - 1)" using a' b' by (rule floorlog2_eq)
  then have "floorlog 2 n = m" using m by simp
  then show ?thesis using x1 m by (simp add: binexp_def n_def)
qed

lemma binexp_eq: "pow2 e \<le> x \<Longrightarrow> x < pow2 (e + 1) \<Longrightarrow> binexp x = e"
  using binexp_ge1 binexp_lt1 by (cases "0 \<le> e") auto

lemma fl_pos_eq:
  assumes "pow2 e \<le> x" "x < pow2 (e + 1)"
  shows "fl x = of_int (round_half_even (x / pow2 (e - 52))) * pow2 (e - 52)"
proof -
  have xpos: "0 < x" using assms(1) pow2_pos [of e] by linarith
  have "binexp \<bar>x\<bar> = e" using assms xpos by (simp add: binexp_eq)
  then show ?thesis using xpos by (simp add: fl_def Let_def)
qed

lemma round_half_even_frac:
  "round_half_even (numeral a / numeral b) =
     (let q = numeral a div numeral b; r = numeral a mod numeral b :: int
      in if 2 * r < numeral b then q else if numeral b < 2 * r then q + 1
         else if even q then q else q + 1)"
proof -
  define A :: int where "A = numeral a"
  define B :: int where "B = numeral b"
  have B: "0 < B" by (simp add: B_def)
  have y: "(numeral a / numeral b :: rat) = of_int A / of_int B" by (simp add: A_def B_def)
  have f: "\<lfloor>of_int A / of_int B :: rat\<rfloor> = A div B" by (rule floor_divide_of_int_eq)
  have "of_int A = (of_int (A div B) * of_int B + of_int (A mod B) :: rat)"
    by (metis of_int_add of_int_mult div_mult_mod_eq)
  then have d: "(of_int A / of_int B :: rat) - of_int (A div B) = of_int (A mod B) / of_int B"
    using B by (simp add: field_simps)
  have lt: "(of_int (A mod B) / of_int B < (1 / 2 :: rat)) = (2 * (A mod B) < B)"
  proof -
    have "(of_int (A mod B) / of_int B < (1 / 2 :: rat)) = (of_int (2 * (A mod B)) < (of_int B :: rat))"
      using B by (simp add: field_simps)
    then show ?thesis by (simp only: of_int_less_iff)
  qed
  have gt: "((1 / 2 :: rat) < of_int (A mod B) / of_int B) = (B < 2 * (A mod B))"
  proof -
    have "((1 / 2 :: rat) < of_int (A mod B) / of_int B) = ((of_int B :: rat) < of_int (2 * (A mod B)))"
      using B by (simp add: field_simps)
    then show ?thesis by (simp only: of_int_less_iff)
  qed
  show ?thesis
    unfolding round_half_even_def y Let_def f d lt gt
    by (simp only: A_def B_def)
qed

lemma round_half_even_int: "round_half_even (numeral a) = numeral a"
proof -
  have "round_half_even (of_int (numeral a)) = numeral a"
    unfolding round_half_even_def Let_def by (simp only: floor_of_int) simp
  then show ?thesis by simp
qed

lemma floor_rat_numeral: "\<lfloor>numeral a / numeral b :: rat\<rfloor> = numeral a div numeral b"
  by (metis floor_divide_of_int_eq of_int_numeral)

lemmas fl_at = fl_pos_eq [where e = "-5"] fl_pos_eq [where e = "-4"] fl_pos_eq [where e = "-3"]
  fl_pos_eq [where e = "-2"] fl_pos_eq [where e = "-1"] fl_pos_eq [where e = 0]
  fl_pos_eq [where e = 1] fl_pos_eq [where e = 2] fl_pos_eq [where e = 3]
  fl_pos_eq [where e = 4] fl_pos_eq [where e = 5] fl_pos_eq [where e = 6]

lemmas js_arith = jadd_def jmul_def jdiv_def Math_round_def Math_min_def lit_def to_number_def
  pow2_def round_half_even_frac round_half_even_int Let_def floor_rat_numeral


lemma binexp_bounds:
  assumes "1 \<le> x"
  shows "0 \<le> binexp x \<and> pow2 (binexp x) \<le> x \<and> x < pow2 (binexp x + 1)"
proof -
  define n where "n = nat \<lfloor>x\<rfloor>"
  define k where "k = floorlog 2 n"
  have fl1: "1 \<le> \<lfloor>x\<rfloor>" using assms by simp
  then have n0: "0 < n" and n: "int n = \<lfloor>x\<rfloor>" by (simp_all add: n_def)
  have b: "2 ^ (k - 1) \<le> n \<and> n < 2 ^ k"
    unfolding k_def using floorlog_bounds [of n 2] n0 by simp
  have k0: "0 < k" using b n0 by (cases k) auto
  have e: "binexp x = int k - 1" using assms by (simp add: binexp_def k_def n_def)
  have p1: "pow2 (binexp x) = 2 ^ (k - 1)" using k0 e by (simp add: pow2_def nat_diff_distrib')
  have p2: "pow2 (binexp x + 1) = 2 ^ k" using e by (simp add: pow2_def)
  have "(2::rat) ^ (k - 1) = of_nat (2 ^ (k - 1))" by simp
  also have "\<dots> \<le> of_nat n" using b by (simp only: of_nat_le_iff)
  also have "\<dots> = of_int \<lfloor>x\<rfloor>" using n by (metis of_int_of_nat_eq)
  also have "\<dots> \<le> x" by simp
  finally have lo: "(2::rat) ^ (k - 1) \<le> x" .
  have "n + 1 \<le> 2 ^ k" using b by simp
  then have "(of_nat (n + 1) :: rat) \<le> of_nat (2 ^ k)" by (simp only: of_nat_le_iff)
  then have "of_int \<lfloor>x\<rfloor> + 1 \<le> (2::rat) ^ k" using n by (metis of_int_of_nat_eq of_nat_add of_nat_1 of_nat_numeral of_nat_power)
  moreover have "x < of_int \<lfloor>x\<rfloor> + 1" by linarith
  ultimately have hi: "x < (2::rat) ^ k" by linarith
  show ?thesis using lo hi p1 p2 e k0 by simp
qed

lemma round_half_even_ge: "of_int m \<le> y \<Longrightarrow> m \<le> round_half_even y"
proof -
  assume "of_int m \<le> y"
  then have "m \<le> \<lfloor>y\<rfloor>" by (simp only: le_floor_iff)
  then show ?thesis by (simp add: round_half_even_def Let_def)
qed

lemma fl_ge_int:
  assumes "1 \<le> x" "of_int K \<le> x" "K \<le> 2 ^ 53"
  shows "of_int K \<le> fl x"
proof -
  define e where "e = binexp x"
  define u where "u = pow2 (e - 52)"
  have bnd: "0 \<le> e" "pow2 e \<le> x" using binexp_bounds [OF assms(1)] by (simp_all add: e_def)
  have xpos: "0 < x" using assms(1) by linarith
  have upos: "0 < u" by (simp add: u_def pow2_pos)
  have flx: "fl x = of_int (round_half_even (x / u)) * u"
    using xpos by (simp add: fl_def Let_def e_def u_def)
  show ?thesis
  proof (cases "e \<le> 52")
    case True
    define j where "j = nat (52 - e)"
    have uj: "u * 2 ^ j = 1"
    proof (cases "e = 52")
      case True then show ?thesis by (simp add: u_def j_def pow2_def)
    next
      case False
      then have "e - 52 < 0" using True by simp
      then show ?thesis by (simp add: u_def j_def pow2_def)
    qed
    then have ju: "2 ^ j = 1 / u" using upos by (simp add: field_simps)
    have "of_int (K * 2 ^ j) = of_int K / u" using ju by simp
    also have "\<dots> \<le> x / u" using assms(2) upos by (simp add: divide_right_mono)
    finally have "K * 2 ^ j \<le> round_half_even (x / u)" by (rule round_half_even_ge)
    then have "(of_int (K * 2 ^ j) :: rat) \<le> of_int (round_half_even (x / u))"
      by (simp only: of_int_le_iff)
    then have "of_int (K * 2 ^ j) * u \<le> of_int (round_half_even (x / u)) * u"
      using upos by (simp only: mult_le_cancel_right_pos)
    moreover have "of_int (K * 2 ^ j) * u = of_int K"
    proof -
      have "of_int (K * 2 ^ j) * u = of_int K * (u * 2 ^ j)" by simp
      then show ?thesis by (simp only: uj mult_1_right)
    qed
    ultimately show ?thesis by (simp only: flx)
  next
    case False
    define i where "i = nat (e - 52)"
    have i0: "0 < i" using False by (simp add: i_def)
    have ui: "u = 2 ^ i" using False by (simp add: u_def i_def pow2_def)
    have pe: "pow2 e = 2 ^ 52 * u"
    proof -
      have "nat e = 52 + i" using False by (simp add: i_def)
      then show ?thesis using bnd(1) ui by (simp add: pow2_def power_add)
    qed
    have "of_int (2 ^ 52) = pow2 e / u" using pe upos by simp
    also have "\<dots> \<le> x / u" using bnd(2) upos by (simp add: divide_right_mono)
    finally have "2 ^ 52 \<le> round_half_even (x / u)" by (rule round_half_even_ge)
    then have "(of_int (2 ^ 52) :: rat) \<le> of_int (round_half_even (x / u))"
      by (simp only: of_int_le_iff)
    then have "of_int (2 ^ 52) * u \<le> of_int (round_half_even (x / u)) * u"
      using upos by (simp only: mult_le_cancel_right_pos)
    then have a: "2 ^ 52 * u \<le> fl x" using flx by simp
    have "(2::rat) ^ 1 \<le> 2 ^ i" using i0 by (intro power_increasing) simp_all
    then have "(2::rat) \<le> u" using ui by simp
    then have "(2::rat) ^ 52 * 2 \<le> 2 ^ 52 * u" by simp
    then have "(2::rat) ^ 53 \<le> fl x" using a by simp
    moreover have "(of_int K :: rat) \<le> of_int (2 ^ 53)" using assms(3) by (simp only: of_int_le_iff)
    ultimately show ?thesis by simp
  qed
qed

subsection \<open>Priority score\<close>

text \<open>The binary64 values of the two parts of the sum, for every combination of weights
  and for one to ten days.\<close>

lemmas js_eval = jadd_def jmul_def lit_def to_number_def pow2_def round_half_even_frac
  round_half_even_int Let_def floor_rat_numeral jsnum.simps table_value.simps

lemma weighted_values_1:
  "weighted (Own 10) (Own 10) (Own 10) = Num (9)"
  "weighted (Own 10) (Own 10) (Own 5) = Num (8)"
  "weighted (Own 10) (Own 10) (Own 1) = Num (8106479329266893 / 1125899906842624)"
  "weighted (Own 10) (Own 7) (Own 10) = Num (4559894622712627 / 562949953421312)"
  "weighted (Own 10) (Own 7) (Own 5) = Num (3996944669291315 / 562949953421312)"
  "weighted (Own 10) (Own 7) (Own 1) = Num (7093169413108531 / 1125899906842624)"
  by (simp_all add: weighted_def js_eval fl_at)

lemma weighted_values_2:
  "weighted (Own 10) (Own 4) (Own 10) = Num (8106479329266893 / 1125899906842624)"
  "weighted (Own 10) (Own 4) (Own 5) = Num (6980579422424269 / 1125899906842624)"
  "weighted (Own 10) (Own 4) (Own 1) = Num (3039929748475085 / 562949953421312)"
  "weighted (Own 10) (Own 1) (Own 10) = Num (7093169413108531 / 1125899906842624)"
  "weighted (Own 10) (Own 1) (Own 5) = Num (5967269506265907 / 1125899906842624)"
  "weighted (Own 10) (Own 1) (Own 1) = Num (9 / 2)"
  by (simp_all add: weighted_def js_eval fl_at)

lemma weighted_values_3:
  "weighted (Own 5) (Own 10) (Own 10) = Num (7)"
  "weighted (Own 5) (Own 10) (Own 5) = Num (6)"
  "weighted (Own 5) (Own 10) (Own 1) = Num (5854679515581645 / 1125899906842624)"
  "weighted (Own 5) (Own 7) (Own 10) = Num (3433994715870003 / 562949953421312)"
  "weighted (Own 5) (Own 7) (Own 5) = Num (2871044762448691 / 562949953421312)"
  "weighted (Own 5) (Own 7) (Own 1) = Num (4841369599423283 / 1125899906842624)"
  by (simp_all add: weighted_def js_eval fl_at)

lemma weighted_values_4:
  "weighted (Own 5) (Own 4) (Own 10) = Num (5854679515581645 / 1125899906842624)"
  "weighted (Own 5) (Own 4) (Own 5) = Num (4728779608739021 / 1125899906842624)"
  "weighted (Own 5) (Own 4) (Own 1) = Num (1914029841632461 / 562949953421312)"
  "weighted (Own 5) (Own 1) (Own 10) = Num (4841369599423283 / 1125899906842624)"
  "weighted (Own 5) (Own 1) (Own 5) = Num (3715469692580659 / 1125899906842624)"
  "weighted (Own 5) (Own 1) (Own 1) = Num (5 / 2)"
  by (simp_all add: weighted_def js_eval fl_at)

lemma weighted_values_5:
  "weighted (Own 1) (Own 10) (Own 10) = Num (3039929748475085 / 562949953421312)"
  "weighted (Own 1) (Own 10) (Own 5) = Num (2476979795053773 / 562949953421312)"
  "weighted (Own 1) (Own 10) (Own 1) = Num (8106479329266893 / 2251799813685248)"
  "weighted (Own 1) (Own 7) (Own 10) = Num (9 / 2)"
  "weighted (Own 1) (Own 7) (Own 5) = Num (7 / 2)"
  "weighted (Own 1) (Own 7) (Own 1) = Num (3039929748475085 / 1125899906842624)"
  by (simp_all add: weighted_def js_eval fl_at)

lemma weighted_values_6:
  "weighted (Own 1) (Own 4) (Own 10) = Num (8106479329266893 / 2251799813685248)"
  "weighted (Own 1) (Own 4) (Own 5) = Num (5854679515581645 / 2251799813685248)"
  "weighted (Own 1) (Own 4) (Own 1) = Num (8106479329266893 / 4503599627370496)"
  "weighted (Own 1) (Own 1) (Own 10) = Num (3039929748475085 / 1125899906842624)"
  "weighted (Own 1) (Own 1) (Own 5) = Num (7656119366529843 / 4503599627370496)"
  "weighted (Own 1) (Own 1) (Own 1) = Num (2026619832316723 / 2251799813685248)"
  by (simp_all add: weighted_def js_eval fl_at)

lemmas weighted_values = weighted_values_1 weighted_values_2 weighted_values_3 weighted_values_4 weighted_values_5 weighted_values_6

lemma age_term_values:
  "age_term (Num 1) = Num (3602879701896397 / 72057594037927936)"
  "age_term (Num 2) = Num (3602879701896397 / 36028797018963968)"
  "age_term (Num 3) = Num (1351079888211149 / 9007199254740992)"
  "age_term (Num 4) = Num (3602879701896397 / 18014398509481984)"
  "age_term (Num 5) = Num (1 / 4)"
  "age_term (Num 6) = Num (1351079888211149 / 4503599627370496)"
  "age_term (Num 7) = Num (6305039478318695 / 18014398509481984)"
  "age_term (Num 8) = Num (3602879701896397 / 9007199254740992)"
  "age_term (Num 9) = Num (8106479329266893 / 18014398509481984)"
  "age_term (Num 10) = Num (1 / 2)"
  by (simp_all add: age_term_def age_weight_def Math_min_def js_eval fl_at)

lemma jdiv_ten: "jdiv (Num (numeral n)) (Num 10) = lit (numeral n / 10)"
  by (simp add: jdiv_def lit_def)

lemmas spec_eval = spec_priority_def round1_def binary64_low_def floor_rat_numeral

lemma priority_table_10_10:
  "\<forall>se\<in>set [10, 5, 1]. \<forall>d\<in>set [1, 2, 3, 4, 5, 6, 7, 8, 9, 10].
     priority_score (Own 10) (Own 10) (Own se) (Num (of_int d)) =
       lit (spec_priority 10 10 se d - (if (10, 10, se, d) \<in> set binary64_low then 1 / 10 else 0))"
  apply (simp only: list.set ball_simps)
  apply (simp add: priority_score_def weighted_values age_term_values jadd_def jmul_def
           Math_round_def jdiv_ten pow2_def round_half_even_frac round_half_even_int Let_def
           fl_at spec_eval)
  done

lemma priority_table_10_7:
  "\<forall>se\<in>set [10, 5, 1]. \<forall>d\<in>set [1, 2, 3, 4, 5, 6, 7, 8, 9, 10].
     priority_score (Own 10) (Own 7) (Own se) (Num (of_int d)) =
       lit (spec_priority 10 7 se d - (if (10, 7, se, d) \<in> set binary64_low then 1 / 10 else 0))"
  apply (simp only: list.set ball_simps)
  apply (simp add: priority_score_def weighted_values age_term_values jadd_def jmul_def
           Math_round_def jdiv_ten pow2_def round_half_even_frac round_half_even_int Let_def
           fl_at spec_eval)
  done

lemma priority_table_10_4:
  "\<forall>se\<in>set [10, 5, 1]. \<forall>d\<in>set [1, 2, 3, 4, 5, 6, 7, 8, 9, 10].
     priority_score (Own 10) (Own 4) (Own se) (Num (of_int d)) =
       lit (spec_priority 10 4 se d - (if (10, 4, se, d) \<in> set binary64_low then 1 / 10 else 0))"
  apply (simp only: list.set ball_simps)
  apply (simp add: priority_score_def weighted_values age_term_values jadd_def jmul_def
           Math_round_def jdiv_ten pow2_def round_half_even_frac round_half_even_int Let_def
           fl_at spec_eval)
  done

lemma priority_table_10_1:
  "\<forall>se\<in>set [10, 5, 1]. \<forall>d\<in>set [1, 2, 3, 4, 5, 6, 7, 8, 9, 10].
     priority_score (Own 10) (Own 1) (Own se) (Num (of_int d)) =
       lit (spec_priority 10 1 se d - (if (10, 1, se, d) \<in> set binary64_low then 1 / 10 else 0))"
  apply (simp only: list.set ball_simps)
  apply (simp add: priority_score_def weighted_values age_term_values jadd_def jmul_def
           Math_round_def jdiv_ten pow2_def round_half_even_frac round_half_even_int Let_def
           fl_at spec_eval)
  done

lemma priority_table_5_10:
  "\<forall>se\<in>set [10, 5, 1]. \<forall>d\<in>set [1, 2, 3, 4, 5, 6, 7, 8, 9, 10].
     priority_score (Own 5) (Own 10) (Own se) (Num (of_int d)) =
       lit (spec_priority 5 10 se d - (if (5, 10, se, d) \<in> set binary64_low then 1 / 10 else 0))"
  apply (simp only: list.set ball_simps)
  apply (simp add: priority_score_def weighted_values age_term_values jadd_def jmul_def
           Math_round_def jdiv_ten pow2_def round_half_even_frac round_half_even_int Let_def
           fl_at spec_eval)
  done

lemma priority_table_5_7:
  "\<forall>se\<in>set [10, 5, 1]. \<forall>d\<in>set [1, 2, 3, 4, 5, 6, 7, 8, 9, 10].
     priority_score (Own 5) (Own 7) (Own se) (Num (of_int d)) =
       lit (spec_priority 5 7 se d - (if (5, 7, se, d) \<in> set binary64_low then 1 / 10 else 0))"
  apply (simp only: list.set ball_simps)
  apply (simp add: priority_score_def weighted_values age_term_values jadd_def jmul_def
           Math_round_def jdiv_ten pow2_def round_half_even_frac round_half_even_int Let_def
           fl_at spec_eval)
  done

lemma priority_table_5_4:
  "\<forall>se\<in>set [10, 5, 1]. \<forall>d\<in>set [1, 2, 3, 4, 5, 6, 7, 8, 9, 10].
     priority_score (Own 5) (Own 4) (Own se) (Num (of_int d)) =
       lit (spec_priority 5 4 se d - (if (5, 4, se, d) \<in> set binary64_low then 1 / 10 else 0))"
  apply (simp only: list.set ball_simps)
  apply (simp add: priority_score_def weighted_values age_term_values jadd_def jmul_def
           Math_round_def jdiv_ten pow2_def round_half_even_frac round_half_even_int Let_def
           fl_at spec_eval)
  done

lemma priority_table_5_1:
  "\<forall>se\<in>set [10, 5, 1]. \<forall>d\<in>set [1, 2, 3, 4, 5, 6, 7, 8, 9, 10].
     priority_score (Own 5) (Own 1) (Own se) (Num (of_int d)) =
       lit (spec_priority 5 1 se d - (if (5, 1, se, d) \<in> set binary64_low then 1 / 10 else 0))"
  apply (simp only: list.set ball_simps)
  apply (simp add: priority_score_def weighted_values age_term_values jadd_def jmul_def
           Math_round_def jdiv_ten pow2_def round_half_even_frac round_half_even_int Let_def
           fl_at spec_eval)
  done

lemma priority_table_1_10:
  "\<forall>se\<in>set [10, 5, 1]. \<forall>d\<in>set [1, 2, 3, 4, 5, 6, 7, 8, 9, 10].
     priority_score (Own 1) (Own 10) (Own se) (Num (of_int d)) =
       lit (spec_priority 1 10 se d - (if (1, 10, se, d) \<in> set binary64_low then 1 / 10 else 0))"
  apply (simp only: list.set ball_simps)
  apply (simp add: priority_score_def weighted_values age_term_values jadd_def jmul_def
           Math_round_def jdiv_ten pow2_def round_half_even_frac round_half_even_int Let_def
           fl_at spec_eval)
  done

lemma priority_table_1_7:
  "\<forall>se\<in>set [10, 5, 1]. \<forall>d\<in>set [1, 2, 3, 4, 5, 6, 7, 8, 9, 10].
     priority_score (Own 1) (Own 7) (Own se) (Num (of_int d)) =
       lit (spec_priority 1 7 se d - (if (1, 7, se, d) \<in> set binary64_low then 1 / 10 else 0))"
  apply (simp only: list.set ball_simps)
  apply (simp add: priority_score_def weighted_values age_term_values jadd_def jmul_def
           Math_round_def jdiv_ten pow2_def round_half_even_frac round_half_even_int Let_def
           fl_at spec_eval)
  done

lemma priority_table_1_4:
  "\<forall>se\<in>set [10, 5, 1]. \<forall>d\<in>set [1, 2, 3, 4, 5, 6, 7, 8, 9, 10].
     priority_score (Own 1) (Own 4) (Own se) (Num (of_int d)) =
       lit (spec_priority 1 4 se d - (if (1, 4, se, d) \<in> set binary64_low then 1 / 10 else 0))"
  apply (simp only: list.set ball_simps)
  apply (simp add: priority_score_def weighted_values age_term_values jadd_def jmul_def
           Math_round_def jdiv_ten pow2_def round_half_even_frac round_half_even_int Let_def
           fl_at spec_eval)
  done

lemma priority_table_1_1:
  "\<forall>se\<in>set [10, 5, 1]. \<forall>d\<in>set [1, 2, 3, 4, 5, 6, 7, 8, 9, 10].
     priority_score (Own 1) (Own 1) (Own se) (Num (of_int d)) =
       lit (spec_priority 1 1 se d - (if (1, 1, se, d) \<in> set binary64_low then 1 / 10 else 0))"
  apply (simp only: list.set ball_simps)
  apply (simp add: priority_score_def weighted_values age_term_values jadd_def jmul_def
           Math_round_def jdiv_ten pow2_def round_half_even_frac round_half_even_int Let_def
           fl_at spec_eval)
  done

lemma lit_half: "lit (1 / 2) = Num (1 / 2)"
  by (simp add: lit_def fl_at pow2_def round_half_even_int)

lemma daysOld_of_whole: "daysOld_of now created = Num (of_int (whole_days now created))"
  by (simp add: daysOld_of_def whole_days_def Math_max_def Math_floor_def jdiv_def jsub_def)

lemma whole_days_ge1: "1 \<le> whole_days now created"
  by (simp add: whole_days_def)

lemma whole_days_ge10:
  assumes "864000000 \<le> now - created"
  shows "10 \<le> whole_days now created"
proof -
  define x :: rat where "x = fl (of_int (now - created)) / 86400000"
  have "(of_int 864000000 :: rat) \<le> of_int (now - created)" using assms by (simp only: of_int_le_iff)
  then have "(of_int 864000000 :: rat) \<le> fl (of_int (now - created))"
    by (intro fl_ge_int) simp_all
  then have x10: "10 \<le> x" by (simp add: x_def)
  then have "of_int 10 \<le> fl x" by (intro fl_ge_int) simp_all
  then have "10 \<le> \<lfloor>fl x\<rfloor>" by (simp only: le_floor_iff)
  then show ?thesis by (simp add: whole_days_def x_def)
qed

lemma age_weight_whole: "age_weight (Num (of_int d)) = Num (min (fl (of_int d * (1 / 2))) 5)"
  by (simp add: age_weight_def lit_half jmul_def Math_min_def)

lemma age_weight_cap:
  assumes "10 \<le> d"
  shows "age_weight (Num (of_int d)) = Num 5"
proof -
  have "(of_int 10 :: rat) \<le> of_int d" using assms by (simp only: of_int_le_iff)
  then have "5 \<le> (of_int d * (1 / 2) :: rat)" by simp
  then have "of_int 5 \<le> fl (of_int d * (1 / 2))" by (intro fl_ge_int) simp_all
  then show ?thesis by (simp add: age_weight_whole)
qed

text \<open>
  C9. The age weight of the priority score never exceeds 5, and any two items that are
  both at least ten days old (864000000 ms) get exactly the same age weight and the same
  age term of the sum, however much older one of them is.
\<close>

theorem age_weight_capped:
  "jle (age_weight (daysOld_of now created)) (Num 5)
   \<and> (864000000 \<le> now - created \<longrightarrow> 864000000 \<le> now' - created' \<longrightarrow>
        age_weight (daysOld_of now created) = age_weight (daysOld_of now' created')
        \<and> age_term (daysOld_of now created) = age_term (daysOld_of now' created'))"
proof -
  have a: "jle (age_weight (daysOld_of now created)) (Num 5)"
    by (simp add: daysOld_of_whole age_weight_whole jle_def)
  have b: "age_weight (daysOld_of n c) = Num 5" if "864000000 \<le> n - c" for n c
    using whole_days_ge10 [OF that] by (simp add: daysOld_of_whole age_weight_cap)
  show ?thesis using a b by (simp add: age_term_def)
qed

theorem age_weight_capped_witness:
  "age_weight (daysOld_of 8640000000 0) = age_weight (daysOld_of 864000000 0)
   \<and> age_term (daysOld_of 8640000000 0) = age_term (daysOld_of 864000000 0)"
  using age_weight_capped [of 8640000000 0 864000000 0] by simp

lemma tier_weight_lookup:
  "k \<notin> set inherited_names \<Longrightarrow> lookup_or TIER_WEIGHT k 1 = Own (spec_tier_weight k)"
  by (simp add: lookup_or_def TIER_WEIGHT_def spec_tier_weight_def)

lemma severity_weight_lookup:
  "k \<notin> set inherited_names \<Longrightarrow> lookup_or SEVERITY_WEIGHT k 4 = Own (spec_severity_weight k)"
  by (simp add: lookup_or_def SEVERITY_WEIGHT_def spec_severity_weight_def)

lemma sentiment_weight_lookup:
  "k \<notin> set inherited_names \<Longrightarrow> lookup_or SENTIMENT_WEIGHT k 5 = Own (spec_sentiment_weight k)"
  by (simp add: lookup_or_def SENTIMENT_WEIGHT_def spec_sentiment_weight_def)

lemma priority_score_cap:
  "10 \<le> d \<Longrightarrow> priority_score a b c (Num (of_int d)) = priority_score a b c (Num (of_int 10))"
  using age_weight_cap [of d] age_weight_cap [of 10]
  by (simp add: priority_score_def age_term_def)

lemma spec_priority_cap: "10 \<le> d \<Longrightarrow> spec_priority a b c d = spec_priority a b c 10"
proof -
  assume "10 \<le> d"
  then have "(of_int 10 :: rat) \<le> of_int d" by (simp only: of_int_le_iff)
  then have "min (of_int d * (5 / 10)) (5::rat) = 5" by simp
  then show ?thesis by (simp add: spec_priority_def)
qed

lemma priority_table:
  assumes "t \<in> set [10, 5, 1]" "s \<in> set [10, 7, 4, 1]" "se \<in> set [10, 5, 1]"
    and "d \<in> set [1, 2, 3, 4, 5, 6, 7, 8, 9, 10]"
  shows "priority_score (Own t) (Own s) (Own se) (Num (of_int d)) =
           lit (spec_priority t s se d - (if (t, s, se, d) \<in> set binary64_low then 1 / 10 else 0))"
proof -
  note rows = priority_table_10_10 [rule_format, OF assms(3,4)]
    priority_table_10_7 [rule_format, OF assms(3,4)]
    priority_table_10_4 [rule_format, OF assms(3,4)]
    priority_table_10_1 [rule_format, OF assms(3,4)]
    priority_table_5_10 [rule_format, OF assms(3,4)]
    priority_table_5_7 [rule_format, OF assms(3,4)]
    priority_table_5_4 [rule_format, OF assms(3,4)]
    priority_table_5_1 [rule_format, OF assms(3,4)]
    priority_table_1_10 [rule_format, OF assms(3,4)]
    priority_table_1_7 [rule_format, OF assms(3,4)]
    priority_table_1_4 [rule_format, OF assms(3,4)]
    priority_table_1_1 [rule_format, OF assms(3,4)]
  have ts: "(t = 10 \<or> t = 5 \<or> t = 1) \<and> (s = 10 \<or> s = 7 \<or> s = 4 \<or> s = 1)"
    using assms(1,2) by simp
  then show ?thesis
    by (elim conjE disjE) (simp_all only: rows)
qed

lemma priority_score_binary64:
  assumes "t \<in> set [10, 5, 1]" "s \<in> set [10, 7, 4, 1]" "se \<in> set [10, 5, 1]" "1 \<le> d"
  shows "priority_score (Own t) (Own s) (Own se) (Num (of_int d)) =
           lit (spec_priority t s se d
                - (if (t, s, se, min d 10) \<in> set binary64_low then 1 / 10 else 0))"
proof (cases "d \<le> 10")
  case True
  then have "d \<in> set [1, 2, 3, 4, 5, 6, 7, 8, 9, 10]" using assms(4) by (simp) presburger
  then show ?thesis using priority_table [OF assms(1,2,3)] True by (simp add: min_def)
next
  case False
  then have d: "10 \<le> d" "min d 10 = 10" by simp_all
  have "(10::int) \<in> set [1, 2, 3, 4, 5, 6, 7, 8, 9, 10]" by simp
  then show ?thesis
    using priority_table [OF assms(1,2,3), of 10] priority_score_cap [OF d(1)]
      spec_priority_cap [OF d(1)] d(2)
    by simp
qed

text \<open>
  C2. The claim: the step returns exactly the weighted sum rounded to one decimal place,
  with the stated weights, 9.1 for enterprise, critical, negative at one day, and the
  same score for the same inputs. The step evaluates the sum and the rounding in binary64
  arithmetic; for nine combinations of weights and days the exact sum ends in 5
  hundredths while the binary64 sum falls just below it, and the step returns one tenth
  less than the exact sum rounded half up. Amended: for a tier, urgency and sentiment
  that are not names every object inherits, the step returns the decimal
  \<open>spec_priority\<close> (the exact weighted sum with the stated weights and defaults,
  rounded to one decimal place, a half going up, with \<open>daysOld\<close> the whole days since
  creation, at least 1), except for the nine combinations of \<open>binary64_low\<close>, where it
  returns one tenth less; the result is the binary64 value of that decimal, and depends
  on nothing but the tier, urgency, sentiment and whole days. The example of the claim
  holds: 9.1.
\<close>

theorem calculate_priority_binary64:
  assumes "toLowerCase (fb_customer_tier feedback) \<notin> set inherited_names"
    and "urgency \<notin> set inherited_names" and "sentiment \<notin> set inherited_names"
  shows "fst (calculate_priority env feedback urgency sentiment w) =
           (let tierWeight = spec_tier_weight (toLowerCase (fb_customer_tier feedback));
                severityWeight = spec_severity_weight urgency;
                sentimentWeight = spec_sentiment_weight sentiment;
                daysOld = whole_days (clock env (clock_reads w)) (fb_created_at feedback)
            in lit (spec_priority tierWeight severityWeight sentimentWeight daysOld
                    - (if (tierWeight, severityWeight, sentimentWeight, min daysOld 10)
                          \<in> set binary64_low then 1 / 10 else 0)))"
proof -
  have t: "spec_tier_weight (toLowerCase (fb_customer_tier feedback)) \<in> set [10, 5, 1]"
    by (simp add: spec_tier_weight_def)
  have s: "spec_severity_weight urgency \<in> set [10, 7, 4, 1]"
    by (simp add: spec_severity_weight_def)
  have se: "spec_sentiment_weight sentiment \<in> set [10, 5, 1]"
    by (simp add: spec_sentiment_weight_def)
  have "fst (calculate_priority env feedback urgency sentiment w) =
          priority_score (Own (spec_tier_weight (toLowerCase (fb_customer_tier feedback))))
            (Own (spec_severity_weight urgency)) (Own (spec_sentiment_weight sentiment))
            (Num (of_int (whole_days (clock env (clock_reads w)) (fb_created_at feedback))))"
    using assms
    by (simp add: calculate_priority_def Date_now_def Let_def tier_weight_lookup
        severity_weight_lookup sentiment_weight_lookup daysOld_of_whole)
  then show ?thesis
    using priority_score_binary64 [OF t s se whole_days_ge1] by (simp add: Let_def)
qed

theorem calculate_priority_binary64_witness:
  "toLowerCase (fb_customer_tier (payload_of ''Production is down'' ''enterprise'' 0)) \<notin> set inherited_names
   \<and> fst (calculate_priority (env_of silent_ai (\<lambda>n. 86400000))
            (payload_of ''Production is down'' ''enterprise'' 0) ''critical'' ''negative''
            (world_with [])) = lit (91 / 10)"
proof -
  have t: "toLowerCase (fb_customer_tier (payload_of ''Production is down'' ''enterprise'' 0)) = ''enterprise''"
    by code_simp
  have a: "toLowerCase (fb_customer_tier (payload_of ''Production is down'' ''enterprise'' 0)) \<notin> set inherited_names"
    by code_simp
  have b: "''critical'' \<notin> set inherited_names" by (simp add: inherited_names_def)
  have c: "''negative'' \<notin> set inherited_names" by (simp add: inherited_names_def)
  have d: "whole_days (clock (env_of silent_ai (\<lambda>n. 86400000)) (clock_reads (world_with [])))
             (fb_created_at (payload_of ''Production is down'' ''enterprise'' 0)) = 1"
    by (simp add: env_of_def world_with_def payload_of_def whole_days_def fl_at
        fl_pos_eq [where e = 26] pow2_def round_half_even_int)
  have e: "spec_priority 10 10 10 1 = 91 / 10" by (simp add: spec_eval)
  show ?thesis
    using calculate_priority_binary64 [OF a b c, of "env_of silent_ai (\<lambda>n. 86400000)" "world_with []"]
      a t d e
    by (simp add: Let_def spec_tier_weight_def spec_severity_weight_def spec_sentiment_weight_def
        binary64_low_def)
qed

text \<open>Pro tier, high urgency, negative sentiment, one day old: the exact sum is 6.15,
  which rounds half up to 6.2; the step returns 6.1.\<close>

theorem priority_half_up_counterexample:
  "fst (calculate_priority (env_of silent_ai (\<lambda>n. 86400000))
          (payload_of ''checkout is broken'' ''pro'' 0) ''high'' ''negative'' (world_with []))
     = lit (61 / 10)
   \<and> spec_priority 5 7 10 1 = 62 / 10
   \<and> lit (61 / 10) \<noteq> lit (62 / 10)"
proof -
  have t: "toLowerCase (fb_customer_tier (payload_of ''checkout is broken'' ''pro'' 0)) = ''pro''"
    by code_simp
  have d: "daysOld_of (clock (env_of silent_ai (\<lambda>n. 86400000)) (clock_reads (world_with [])))
             (fb_created_at (payload_of ''checkout is broken'' ''pro'' 0)) = Num (of_int 1)"
    by (simp add: daysOld_of_whole env_of_def world_with_def payload_of_def whole_days_def fl_at
        fl_pos_eq [where e = 26] pow2_def round_half_even_int)
  have p: "priority_score (Own 5) (Own 7) (Own 10) (Num (of_int 1)) = lit (61 / 10)"
    using priority_table [of 5 7 10 1] by (simp add: spec_eval)
  have a: "fst (calculate_priority (env_of silent_ai (\<lambda>n. 86400000))
          (payload_of ''checkout is broken'' ''pro'' 0) ''high'' ''negative'' (world_with []))
     = lit (61 / 10)"
    using t d p
    by (simp add: calculate_priority_def Date_now_def Let_def lookup_or_def TIER_WEIGHT_def
        SEVERITY_WEIGHT_def SENTIMENT_WEIGHT_def)
  have b: "spec_priority 5 7 10 1 = 62 / 10" by (simp add: spec_eval)
  have c: "lit (61 / 10) \<noteq> lit (62 / 10)"
    by (simp add: lit_def fl_at pow2_def round_half_even_frac Let_def)
  show ?thesis using a b c by simp
qed

subsection \<open>The workflow run\<close>

subsection \<open>Invariants of a run\<close>

lemma and_then_Next [simp]: "and_then (Next v b c w) f = f v b c w"
  by (simp add: and_then_def)

lemma and_then_Stop [simp]: "and_then (Stop r c w) f = Stop r c w"
  by (simp add: and_then_def)

lemma outcome_Next [simp]: "outcome (Next v b c w) = (Inr v, c, w)"
  by (simp add: outcome_def)

lemma outcome_Stop [simp]: "outcome (Stop r c w) = (Inl r, c, w)"
  by (simp add: outcome_def)

lemma and_then_inv:
  assumes "ends_in Q m"
    and "\<And>v b c w. Q c w \<Longrightarrow> ends_in Q (f v b c w)"
  shows "ends_in Q (and_then m f)"
  using assms by (cases m) (simp_all add: ends_in_def)

lemma step_do_inv:
  assumes "Q c w"
    and "\<And>v w'. slot c = None \<Longrightarrow> body w = (Inr v, w') \<Longrightarrow> Q (put v c) w'"
    and "\<And>e w'. slot c = None \<Longrightarrow> body w = (Inl e, w') \<Longrightarrow> Q c w'"
  shows "ends_in Q (step_do slot put body b c w)"
proof (cases "slot c")
  case (Some v)
  then show ?thesis using assms(1) by (simp add: step_do_def ends_in_def)
next
  case None
  show ?thesis
  proof (cases b)
    case 0
    then show ?thesis using None assms(1) by (simp add: step_do_def ends_in_def)
  next
    case (Suc b')
    obtain r w' where bw: "body w = (r, w')" by (cases "body w")
    show ?thesis
      using None Suc bw assms(2) [OF None, of _ w'] assms(3) [OF None, of _ w']
      by (cases r) (simp_all add: step_do_def ends_in_def)
  qed
qed

lemma step_returns_inv:
  assumes "Q c w" and "Q c w \<Longrightarrow> slot c = None \<Longrightarrow> Q (put (fst (body w)) c) (snd (body w))"
  shows "ends_in Q (step_do slot put (returns body) b c w)"
proof (rule step_do_inv [where Q = Q], rule assms(1))
  fix v w' assume n: "slot c = None" and "returns body w = (Inr v, w')"
  then have "body w = (v, w')" by (cases "body w") (simp add: returns_def)
  then show "Q (put v c) w'" using assms n by simp
next
  fix e w' assume "returns body w = (Inl e, w')"
  then show "Q c w'" by (cases "body w") (simp add: returns_def)
qed

lemma step_store_inv:
  assumes "Q c w"
    and "Q c w \<Longrightarrow> slot c = None \<Longrightarrow>
         Q (case fst (body w) of Inl e \<Rightarrow> c | Inr v \<Rightarrow> put v c) (snd (body w))"
  shows "ends_in Q (step_do slot put body b c w)"
proof (rule step_do_inv [where Q = Q], rule assms(1))
  fix v w' assume "slot c = None" and "body w = (Inr v, w')"
  then show "Q (put v c) w'" using assms by simp
next
  fix e w' assume "slot c = None" and "body w = (Inl e, w')"
  then show "Q c w'" using assms by simp
qed

text \<open>A property of checkpoints and world that every step body and every recording of a
  result preserves holds when the run ends, however it ends.\<close>

lemma run_inv:
  assumes "Q c w"
    and "\<And>c w. Q c w \<Longrightarrow> ck_sentiment c = None \<Longrightarrow>
            Q (c\<lparr>ck_sentiment := Some (fst (analyze_sentiment env feedback w))\<rparr>)
                               (snd (analyze_sentiment env feedback w))"
    and "\<And>c w. Q c w \<Longrightarrow> ck_themes c = None \<Longrightarrow>
            Q (c\<lparr>ck_themes := Some (fst (extract_themes env feedback w))\<rparr>)
                               (snd (extract_themes env feedback w))"
    and "\<And>c w. Q c w \<Longrightarrow> ck_urgency c = None \<Longrightarrow>
            Q (c\<lparr>ck_urgency := Some (classify_urgency feedback)\<rparr>) w"
    and "\<And>c w. Q c w \<Longrightarrow> ck_summary c = None \<Longrightarrow>
            Q (c\<lparr>ck_summary := Some (fst (generate_summary env feedback w))\<rparr>)
                               (snd (generate_summary env feedback w))"
    and "\<And>c w u s. Q c w \<Longrightarrow> ck_priority c = None \<Longrightarrow>
            Q (c\<lparr>ck_priority := Some (fst (calculate_priority env feedback u s w))\<rparr>)
              (snd (calculate_priority env feedback u s w))"
    and "\<And>c w s t u m p. Q c w \<Longrightarrow> ck_store c = None \<Longrightarrow>
            Q (case fst (store_results env feedback s t u m p w) of
                 Inl e \<Rightarrow> c | Inr v \<Rightarrow> c\<lparr>ck_store := Some v\<rparr>)
              (snd (store_results env feedback s t u m p w))"
  shows "ends_in Q (run env feedback b c w)"
  unfolding run_def
  apply (rule and_then_inv [where Q = Q])
   apply (rule step_returns_inv [where Q = Q], rule assms(1))
   apply (erule assms(2), assumption)
  apply (rule and_then_inv [where Q = Q])
   apply (rule step_returns_inv [where Q = Q], assumption)
   apply (erule assms(3), assumption)
  apply (rule and_then_inv [where Q = Q])
   apply (rule step_returns_inv [where Q = Q], assumption)
   apply (simp, erule assms(4), assumption)
  apply (rule and_then_inv [where Q = Q])
   apply (rule step_returns_inv [where Q = Q], assumption)
   apply (erule assms(5), assumption)
  apply (rule and_then_inv [where Q = Q])
   apply (rule step_returns_inv [where Q = Q], assumption)
   apply (erule assms(6), assumption)
  apply (rule and_then_inv [where Q = Q])
   apply (rule step_store_inv [where Q = Q], assumption)
   apply (erule assms(7), assumption)
  apply (simp add: ends_in_def)
  done

subsection \<open>What the steps write\<close>

lemma db_AI_run [simp]: "db (snd (AI_run env model input w)) = db w"
  by (simp add: AI_run_def)

lemma db_analyze_sentiment [simp]: "db (snd (analyze_sentiment env feedback w)) = db w"
  by (simp add: analyze_sentiment_def AI_run_def Let_def split: sum.splits ai_output.splits list.splits)

lemma db_extract_themes_with [simp]:
  "db (snd (extract_themes_with table prompt env feedback w)) = db w"
  by (simp add: extract_themes_with_def AI_run_def Let_def split: sum.splits)

lemma db_extract_themes [simp]: "db (snd (extract_themes env feedback w)) = db w"
  by (simp add: extract_themes_def)

lemma db_generate_summary [simp]: "db (snd (generate_summary env feedback w)) = db w"
  by (simp add: generate_summary_def AI_run_def split: sum.splits option.splits)

lemma db_calculate_priority [simp]:
  "db (snd (calculate_priority env feedback urgency sentiment w)) = db w"
  by (simp add: calculate_priority_def Date_now_def Let_def)

lemma db_store_results:
  "db (snd (store_results env feedback sentiment themes urgency summaryResult priorityScore w)) =
     (case fst (store_results env feedback sentiment themes urgency summaryResult priorityScore w) of
        Inl e \<Rightarrow> db w
      | Inr v \<Rightarrow>
          (case lookup_or TIER_ARR (toLowerCase (fb_customer_tier feedback)) 0 of
             Inherited \<Rightarrow> db w
           | Own a \<Rightarrow> UPDATE_feedback (fb_id feedback) (fst sentiment) (snd sentiment) urgency
                        (JSON_stringify themes) summaryResult priorityScore a
                        (clock env (clock_reads w)) (db w)))"
  by (simp add: store_results_def Date_now_def Let_def split: table_value.splits)

lemma UPDATE_feedback_frame:
  "list_all2 (\<lambda>r r'. base_columns r' = base_columns r \<and> (r_id r \<noteq> ident \<longrightarrow> r' = r)) rows
     (UPDATE_feedback ident sent sent_score urg thms summ prio arr stamp rows)"
  by (simp add: UPDATE_feedback_def list_all2_map2 list_all2_same base_columns_def)

lemma frame_refl:
  "list_all2 (\<lambda>r r'. base_columns r' = base_columns r \<and> (r_id r \<noteq> ident \<longrightarrow> r' = r)) rows rows"
  by (simp add: list_all2_same)

lemma frame_trans:
  assumes "list_all2 (\<lambda>r r'. base_columns r' = base_columns r \<and> (r_id r \<noteq> ident \<longrightarrow> r' = r)) xs ys"
    and "list_all2 (\<lambda>r r'. base_columns r' = base_columns r \<and> (r_id r \<noteq> ident \<longrightarrow> r' = r)) ys zs"
  shows "list_all2 (\<lambda>r r'. base_columns r' = base_columns r \<and> (r_id r \<noteq> ident \<longrightarrow> r' = r)) xs zs"
proof (rule list_all2_trans [OF _ assms])
  fix a b c :: feedback_row
  assume "base_columns b = base_columns a \<and> (r_id a \<noteq> ident \<longrightarrow> b = a)"
    and "base_columns c = base_columns b \<and> (r_id b \<noteq> ident \<longrightarrow> c = b)"
  then show "base_columns c = base_columns a \<and> (r_id a \<noteq> ident \<longrightarrow> c = a)"
    by (auto simp add: base_columns_def)
qed

lemma store_results_frame_db:
  "list_all2 (\<lambda>r r'. base_columns r' = base_columns r \<and> (r_id r \<noteq> fb_id feedback \<longrightarrow> r' = r)) (db w)
     (db (snd (store_results env feedback sentiment themes urgency summaryResult priorityScore w)))"
  using UPDATE_feedback_frame frame_refl
  by (simp add: db_store_results split: sum.splits table_value.splits)

lemma ends_in_world_of: "ends_in (\<lambda>c. P) p \<Longrightarrow> P (world_of p)"
  by (cases p) (simp_all add: ends_in_def world_of_def)

lemma frame_base_columns:
  "list_all2 (\<lambda>r r'. base_columns r' = base_columns r \<and> (r_id r \<noteq> ident \<longrightarrow> r' = r)) xs ys \<Longrightarrow>
   map base_columns ys = map base_columns xs"
  by (induction rule: list_all2_induct) simp_all

lemma run_frame:
  "list_all2 (\<lambda>r r'. base_columns r' = base_columns r \<and> (r_id r \<noteq> fb_id feedback \<longrightarrow> r' = r)) (db w)
     (db (world_of (run env feedback b c w)))"
proof -
  let ?F = "list_all2 (\<lambda>r r'. base_columns r' = base_columns r \<and> (r_id r \<noteq> fb_id feedback \<longrightarrow> r' = r))"
  have "ends_in (\<lambda>c w'. ?F (db w) (db w')) (run env feedback b c w)"
  proof (rule run_inv)
    show "?F (db w) (db w)" by (rule frame_refl)
  next
    fix c' :: checkpoints and w' :: world and s t u m p
    assume "?F (db w) (db w')"
    then show "?F (db w) (db (snd (store_results env feedback s t u m p w')))"
      using store_results_frame_db frame_trans by blast
  qed simp_all
  then show ?thesis by (rule ends_in_world_of)
qed

text \<open>
  C10. The write of \<^verbatim>\<open>store-results\<close> changes only rows whose \<^verbatim>\<open>id\<close> is the payload's,
  and on those rows leaves the base columns (\<^verbatim>\<open>id\<close>, \<^verbatim>\<open>source\<close>, \<^verbatim>\<open>content\<close>,
  \<^verbatim>\<open>content_hash\<close>, \<^verbatim>\<open>author\<close>, \<^verbatim>\<open>customer_tier\<close>, \<^verbatim>\<open>created_at\<close>) as they were; every
  other row is unchanged, and no row is added or removed. The same holds for the whole
  run, whose other steps do not write to the table.
\<close>

theorem store_results_frame:
  "list_all2 (\<lambda>r r'. base_columns r' = base_columns r \<and> (r_id r \<noteq> fb_id feedback \<longrightarrow> r' = r)) (db w)
     (db (snd (store_results env feedback sentiment themes urgency summaryResult priorityScore w)))
   \<and> list_all2 (\<lambda>r r'. base_columns r' = base_columns r \<and> (r_id r \<noteq> fb_id feedback \<longrightarrow> r' = r)) (db w)
       (db (world_of (run env feedback b c w)))"
  using store_results_frame_db run_frame by blast

theorem store_results_frame_witness:
  "map base_columns
     (db (snd (store_results (env_of silent_ai (\<lambda>n. 1000)) (payload_of ''checkout is broken'' ''pro'' 0)
                 (''neutral'', Num 0) [''reliability''] ''medium'' ''checkout is broken...'' (Num 4)
                 (world_with (one_row ''checkout is broken'' ''pro'' 0
                    @ [new_row ''f2'' ''manual'' ''thanks'' ''01'' ''anonymous'' ''free'' 0 0])))))
   = map base_columns
       (one_row ''checkout is broken'' ''pro'' 0
          @ [new_row ''f2'' ''manual'' ''thanks'' ''01'' ''anonymous'' ''free'' 0 0])
   \<and> drop 1 (db (snd (store_results (env_of silent_ai (\<lambda>n. 1000))
                 (payload_of ''checkout is broken'' ''pro'' 0)
                 (''neutral'', Num 0) [''reliability''] ''medium'' ''checkout is broken...'' (Num 4)
                 (world_with (one_row ''checkout is broken'' ''pro'' 0
                    @ [new_row ''f2'' ''manual'' ''thanks'' ''01'' ''anonymous'' ''free'' 0 0])))))
     = [new_row ''f2'' ''manual'' ''thanks'' ''01'' ''anonymous'' ''free'' 0 0]"
proof -
  let ?E = "env_of silent_ai (\<lambda>n. 1000)"
  let ?P = "payload_of ''checkout is broken'' ''pro'' 0"
  let ?r2 = "new_row ''f2'' ''manual'' ''thanks'' ''01'' ''anonymous'' ''free'' 0 0"
  let ?W = "world_with (one_row ''checkout is broken'' ''pro'' 0 @ [?r2])"
  let ?db = "db (snd (store_results ?E ?P (''neutral'', Num 0) [''reliability''] ''medium''
                        ''checkout is broken...'' (Num 4) ?W))"
  have f: "list_all2 (\<lambda>r r'. base_columns r' = base_columns r \<and> (r_id r \<noteq> fb_id ?P \<longrightarrow> r' = r))
             (db ?W) ?db"
    using store_results_frame [of ?P ?W ?E "(''neutral'', Num 0)" "[''reliability'']" "''medium''"
        "''checkout is broken...''" "Num 4" 0 no_checkpoints]
    by (rule conjunct1)
  have w: "db ?W = one_row ''checkout is broken'' ''pro'' 0 @ [?r2]" by (simp add: world_with_def)
  have a: "map base_columns ?db = map base_columns (one_row ''checkout is broken'' ''pro'' 0 @ [?r2])"
    using frame_base_columns [OF f] w by simp
  have d: "r_id ?r2 \<noteq> fb_id ?P" by (simp add: new_row_def payload_of_def)
  have "list_all2 (\<lambda>r r'. base_columns r' = base_columns r \<and> (r_id r \<noteq> fb_id ?P \<longrightarrow> r' = r))
          [new_row ''f1'' ''manual'' ''checkout is broken'' ''00'' ''anonymous'' ''pro'' 0 0, ?r2] ?db"
    using f w by (simp add: one_row_def)
  then obtain y where "?db = [y, ?r2]"
    using d by (auto simp add: list_all2_Cons1)
  then have b: "drop 1 ?db = [?r2]" by simp
  show ?thesis using a b by simp
qed

subsection \<open>Completion\<close>

lemma reachable_rows:
  "reachable rows \<Longrightarrow> \<forall>r\<in>set rows. unprocessed r \<or> enriched r"
proof (induction rule: reachable.induct)
  case empty
  then show ?case by simp
next
  case (inserted rows ident src cnt h auth tier arr created rows')
  then have "rows' = rows @ [new_row ident src cnt h auth tier arr created]"
    by (simp add: INSERT_feedback_def split: if_splits)
  moreover have "unprocessed (new_row ident src cnt h auth tier arr created)"
    by (simp add: unprocessed_def new_row_def)
  ultimately show ?case using inserted.IH by auto
next
  case (stored rows ident sent sent_score urg thms summ prio arr stamp)
  show ?case
  proof
    fix r' assume "r' \<in> set (UPDATE_feedback ident sent sent_score urg thms summ prio arr stamp rows)"
    then obtain r where r: "r \<in> set rows"
      and r': "r' = (if r_id r = ident
              then r\<lparr>r_sentiment := Some sent, r_sentiment_score := D1_real sent_score,
                     r_urgency := Some urg, r_themes := Some thms, r_summary := Some summ,
                     r_priority_score := D1_real prio, r_arr_estimate := Some arr,
                     r_processed_at := Some stamp\<rparr>
              else r)"
      unfolding UPDATE_feedback_def by (simp only: set_map) blast
    show "unprocessed r' \<or> enriched r'"
    proof (cases "r_id r = ident")
      case True
      then show ?thesis using r' by (simp add: enriched_def)
    next
      case False
      then show ?thesis using r' r stored.IH by simp
    qed
  qed
next
  case (cleared rows)
  then show ?case by simp
qed

lemma UPDATE_feedback_enriched:
  "\<forall>r\<in>set (UPDATE_feedback ident sent sent_score urg thms summ prio arr stamp rows).
     r_id r = ident \<longrightarrow> enriched r"
proof
  fix r' assume "r' \<in> set (UPDATE_feedback ident sent sent_score urg thms summ prio arr stamp rows)"
  then obtain r where r': "r' = (if r_id r = ident
              then r\<lparr>r_sentiment := Some sent, r_sentiment_score := D1_real sent_score,
                     r_urgency := Some urg, r_themes := Some thms, r_summary := Some summ,
                     r_priority_score := D1_real prio, r_arr_estimate := Some arr,
                     r_processed_at := Some stamp\<rparr>
              else r)"
    unfolding UPDATE_feedback_def by (simp only: set_map) blast
  show "r_id r' = ident \<longrightarrow> enriched r'"
    using r' by (cases "r_id r = ident") (simp_all add: enriched_def)
qed

lemma store_results_Inr:
  "fst (store_results env feedback s t u m p w) = Inr v \<Longrightarrow>
   \<exists>a. db (snd (store_results env feedback s t u m p w)) =
         UPDATE_feedback (fb_id feedback) (fst s) (snd s) u (JSON_stringify t) m p a
           (clock env (clock_reads w)) (db w)"
  by (auto simp add: store_results_def Date_now_def Let_def split: table_value.splits)

lemma store_results_Inl:
  "fst (store_results env feedback s t u m p w) = Inl e \<Longrightarrow>
   db (snd (store_results env feedback s t u m p w)) = db w"
  by (auto simp add: store_results_def Date_now_def Let_def split: table_value.splits)

lemma run_reachable:
  assumes "reachable (db w)"
  shows "reachable (db (world_of (run env feedback b c w)))"
proof -
  have "ends_in (\<lambda>c w'. reachable (db w')) (run env feedback b c w)"
  proof (rule run_inv)
    show "reachable (db w)" by (rule assms)
  next
    fix c' :: checkpoints and w' :: world and s t u m p
    assume r: "reachable (db w')"
    show "reachable (db (snd (store_results env feedback s t u m p w')))"
    proof (cases "fst (store_results env feedback s t u m p w')")
      case (Inl e)
      then show ?thesis using r store_results_Inl by simp
    next
      case (Inr v)
      then show ?thesis using r store_results_Inr [OF Inr] reachable.stored by auto
    qed
  qed simp_all
  then show ?thesis by (rule ends_in_world_of)
qed

lemma run_stored_enriched:
  assumes "ck_store c = None"
  shows "ends_in (\<lambda>c' w'. ck_store c' \<noteq> None \<longrightarrow> (\<forall>r\<in>set (db w'). r_id r = fb_id feedback \<longrightarrow> enriched r))
           (run env feedback b c w)"
proof (rule run_inv)
  show "ck_store c \<noteq> None \<longrightarrow> (\<forall>r\<in>set (db w). r_id r = fb_id feedback \<longrightarrow> enriched r)"
    using assms by simp
next
  fix c' :: checkpoints and w' :: world and s t u m p
  assume q: "ck_store c' \<noteq> None \<longrightarrow> (\<forall>r\<in>set (db w'). r_id r = fb_id feedback \<longrightarrow> enriched r)"
  show "ck_store (case fst (store_results env feedback s t u m p w') of
                    Inl e \<Rightarrow> c' | Inr v \<Rightarrow> c'\<lparr>ck_store := Some v\<rparr>) \<noteq> None \<longrightarrow>
        (\<forall>r\<in>set (db (snd (store_results env feedback s t u m p w'))).
            r_id r = fb_id feedback \<longrightarrow> enriched r)"
  proof (cases "fst (store_results env feedback s t u m p w')")
    case (Inl e)
    then show ?thesis using q store_results_Inl by simp
  next
    case (Inr v)
    then show ?thesis using store_results_Inr [OF Inr] UPDATE_feedback_enriched by auto
  qed
qed simp_all

lemma and_then_when_completed:
  assumes "\<And>v b c w. completed (f v b c w) \<longrightarrow> ends_in Q (f v b c w)"
  shows "completed (and_then m f) \<longrightarrow> ends_in Q (and_then m f)"
  using assms by (cases m) (simp_all add: completed_def)

lemma step_do_recorded:
  assumes "step_do slot put body b c w = Next v b' c' w'" and "\<And>x. slot (put v x) = Some v"
  shows "slot c' = Some v"
proof (cases "slot c")
  case (Some x)
  then show ?thesis using assms(1) by (simp add: step_do_def)
next
  case None
  show ?thesis
  proof (cases b)
    case 0
    then show ?thesis using None assms(1) by (simp add: step_do_def)
  next
    case (Suc k)
    obtain r w1 where bw: "body w = (r, w1)" by (cases "body w")
    show ?thesis using None Suc bw assms by (cases r) (auto simp add: step_do_def)
  qed
qed

lemma store_step_completed:
  "completed (and_then (step_do ck_store (\<lambda>v c. c\<lparr>ck_store := Some v\<rparr>) body b c w)
                (\<lambda>stored b6 c6 w6. Next res b6 c6 w6)) \<longrightarrow>
   ends_in (\<lambda>c' w'. ck_store c' \<noteq> None)
     (and_then (step_do ck_store (\<lambda>v c. c\<lparr>ck_store := Some v\<rparr>) body b c w)
        (\<lambda>stored b6 c6 w6. Next res b6 c6 w6))"
proof (cases "step_do ck_store (\<lambda>v c. c\<lparr>ck_store := Some v\<rparr>) body b c w")
  case (Next v b' c' w')
  then have "ck_store c' = Some v" by (rule step_do_recorded) simp
  then show ?thesis using Next by (simp add: ends_in_def)
next
  case (Stop r c' w')
  then show ?thesis by (simp add: completed_def)
qed

lemma run_completed_stored:
  "completed (run env feedback b c w) \<longrightarrow>
   ends_in (\<lambda>c' w'. ck_store c' \<noteq> None) (run env feedback b c w)"
  unfolding run_def
  apply (rule and_then_when_completed)
  apply (rule and_then_when_completed)
  apply (rule and_then_when_completed)
  apply (rule and_then_when_completed)
  apply (rule and_then_when_completed)
  apply (rule store_step_completed)
  done

lemma ends_in_conj:
  "ends_in P p \<Longrightarrow> ends_in Q p \<Longrightarrow> ends_in (\<lambda>c w. P c w \<and> Q c w) p"
  by (cases p) (simp_all add: ends_in_def)

subsection \<open>Interruption and resumption\<close>

lemma step_do_cached: "slot c = Some v \<Longrightarrow> step_do slot put body b c w = Next v b c w"
  by (simp add: step_do_def)

lemma step_do_halt: "slot c = None \<Longrightarrow> step_do slot put body 0 c w = Stop Interrupted c w"
  by (simp add: step_do_def)

lemma step_do_returns:
  "slot c = None \<Longrightarrow>
   step_do slot put (returns body) (Suc b) c w =
     Next (fst (body w)) b (put (fst (body w)) c) (snd (body w))"
  by (cases "body w") (simp add: step_do_def returns_def)

lemma step_do_throws:
  "slot c = None \<Longrightarrow> fst (body w) = Inl e \<Longrightarrow>
   step_do slot put body (Suc b) c w = Stop (Errored e) c (snd (body w))"
  by (cases "body w") (simp add: step_do_def)

lemma step_do_stores:
  "slot c = None \<Longrightarrow> fst (body w) = Inr v \<Longrightarrow>
   step_do slot put body (Suc b) c w = Next v b (put v c) (snd (body w))"
  by (cases "body w") (simp add: step_do_def)

text \<open>The run reads the provider and the clock of its environment, nothing else.\<close>

lemma run_env_cong:
  assumes "AI env' = AI env" and "clock env' = clock env"
  shows "run env' feedback = run env feedback"
proof -
  have ai: "AI_run env' = AI_run env"
    using assms by (simp add: AI_run_def fun_eq_iff)
  have dn: "Date_now env' = Date_now env"
    using assms by (simp add: Date_now_def fun_eq_iff)
  have a: "analyze_sentiment env' feedback = analyze_sentiment env feedback"
    by (simp add: analyze_sentiment_def ai fun_eq_iff)
  have b: "extract_themes env' feedback = extract_themes env feedback"
    by (simp add: extract_themes_def extract_themes_with_def ai fun_eq_iff cong: if_cong)
  have c: "generate_summary env' feedback = generate_summary env feedback"
    by (simp add: generate_summary_def ai fun_eq_iff)
  have d: "calculate_priority env' feedback = calculate_priority env feedback"
    by (simp add: calculate_priority_def dn fun_eq_iff)
  have e: "store_results env' feedback = store_results env feedback"
    by (simp add: store_results_def dn fun_eq_iff)
  show ?thesis by (simp add: run_def a b c d e fun_eq_iff)
qed

text \<open>With no budget nothing is executed: the run returns from the checkpoints or is
  interrupted where it stands.\<close>

lemma run_no_budget:
  "run env feedback 0 c w = Stop Interrupted c1 w1 \<Longrightarrow> c1 = c \<and> w1 = w"
  by (simp add: run_def step_do_def split: option.splits)

text \<open>One unit of budget executes the first step that has no checkpoint; the rest of
  the run is the run from the state that step leaves.\<close>

lemma run_first_step:
  assumes "run env feedback (Suc k) c w = Stop Interrupted c1 w1"
  shows "\<exists>c' w'. run env feedback k c' w' = Stop Interrupted c1 w1
           \<and> ck_sentiment c' \<noteq> None
           \<and> (\<forall>m. run env feedback (Suc m) c w = run env feedback m c' w')"
proof (cases "ck_sentiment c")
  case None
  let ?c = "c\<lparr>ck_sentiment := Some (fst (analyze_sentiment env feedback w))\<rparr>"
  let ?w = "snd (analyze_sentiment env feedback w)"
  have "run env feedback (Suc m) c w = run env feedback m ?c ?w" for m
    using None by (simp add: run_def step_do_returns step_do_cached)
  then show ?thesis using assms by (intro exI [of _ ?c] exI [of _ ?w]) simp
next
  case s: (Some sentiment)
  show ?thesis
  proof (cases "ck_themes c")
    case None
    let ?c = "c\<lparr>ck_themes := Some (fst (extract_themes env feedback w))\<rparr>"
    let ?w = "snd (extract_themes env feedback w)"
    have "run env feedback (Suc m) c w = run env feedback m ?c ?w" for m
      using s None by (simp add: run_def step_do_returns step_do_cached)
    then show ?thesis using assms s by (intro exI [of _ ?c] exI [of _ ?w]) simp
  next
    case t: (Some themes)
    show ?thesis
    proof (cases "ck_urgency c")
      case None
      let ?c = "c\<lparr>ck_urgency := Some (classify_urgency feedback)\<rparr>"
      have "run env feedback (Suc m) c w = run env feedback m ?c w" for m
        using s t None by (simp add: run_def step_do_returns step_do_cached)
      then show ?thesis using assms s by (intro exI [of _ ?c] exI [of _ w]) simp
    next
      case u: (Some urgency)
      show ?thesis
      proof (cases "ck_summary c")
        case None
        let ?c = "c\<lparr>ck_summary := Some (fst (generate_summary env feedback w))\<rparr>"
        let ?w = "snd (generate_summary env feedback w)"
        have "run env feedback (Suc m) c w = run env feedback m ?c ?w" for m
          using s t u None by (simp add: run_def step_do_returns step_do_cached)
        then show ?thesis using assms s by (intro exI [of _ ?c] exI [of _ ?w]) simp
      next
        case m: (Some summaryResult)
        show ?thesis
        proof (cases "ck_priority c")
          case None
          let ?c = "c\<lparr>ck_priority :=
                       Some (fst (calculate_priority env feedback urgency (fst sentiment) w))\<rparr>"
          let ?w = "snd (calculate_priority env feedback urgency (fst sentiment) w)"
          have "run env feedback (Suc n) c w = run env feedback n ?c ?w" for n
            using s t u m None by (simp add: run_def step_do_returns step_do_cached)
          then show ?thesis using assms s by (intro exI [of _ ?c] exI [of _ ?w]) simp
        next
          case p: (Some priorityScore)
          show ?thesis
          proof (cases "ck_store c")
            case None
            let ?body = "store_results env feedback sentiment themes urgency summaryResult priorityScore"
            show ?thesis
            proof (cases "fst (?body w)")
              case (Inl e)
              then have "run env feedback (Suc k) c w = Stop (Errored e) c (snd (?body w))"
                using s t u m p None by (simp add: run_def step_do_cached step_do_throws)
              then show ?thesis using assms by simp
            next
              case (Inr v)
              let ?c = "c\<lparr>ck_store := Some v\<rparr>"
              have "run env feedback (Suc n) c w = run env feedback n ?c (snd (?body w))" for n
                using s t u m p None Inr by (simp add: run_def step_do_cached step_do_stores)
              then show ?thesis using assms s by (intro exI [of _ ?c] exI [of _ "snd (?body w)"]) simp
            qed
          next
            case (Some stored)
            then have "completed (run env feedback (Suc k) c w)"
              using s t u m p by (simp add: run_def step_do_cached completed_def)
            then show ?thesis using assms by (simp add: completed_def)
          qed
        qed
      qed
    qed
  qed
qed

lemma run_resume:
  "run env feedback k c w = Stop Interrupted c1 w1 \<Longrightarrow>
   run env feedback m c1 w1 = run env feedback (k + m) c w"
proof (induction k arbitrary: c w)
  case 0
  then show ?case using run_no_budget by fastforce
next
  case (Suc k)
  from run_first_step [OF Suc.prems] obtain c' w' where
    a: "run env feedback k c' w' = Stop Interrupted c1 w1"
    and b: "\<forall>m. run env feedback (Suc m) c w = run env feedback m c' w'" by blast
  show ?case using Suc.IH [OF a] b by simp
qed

lemma run_interrupted_sentiment:
  assumes "run env feedback k c w = Stop Interrupted c1 w1" and "0 < k \<or> ck_sentiment c \<noteq> None"
  shows "ck_sentiment c1 \<noteq> None"
proof -
  have keep: "ends_in (\<lambda>c' w'. ck_sentiment c' \<noteq> None) (run env feedback j c' w')"
    if "ck_sentiment c' \<noteq> None" for j c' w'
    by (rule run_inv) (simp_all add: that split: sum.splits)
  show ?thesis
  proof (cases k)
    case 0
    then show ?thesis using assms run_no_budget by fastforce
  next
    case (Suc j)
    from run_first_step [OF assms(1) [unfolded Suc]] obtain c' w' where
      a: "run env feedback j c' w' = Stop Interrupted c1 w1" and b: "ck_sentiment c' \<noteq> None"
      by blast
    show ?thesis using keep [OF b, of j w'] a by (simp add: ends_in_def)
  qed
qed

lemma step_returns_next:
  assumes "Suc n \<le> b"
  shows "\<exists>v b' c' w'. step_do slot put (returns body) b c w = Next v b' c' w' \<and> n \<le> b'"
proof (cases "slot c")
  case None
  obtain k where k: "b = Suc k" using assms by (cases b) simp_all
  show ?thesis using None k assms by (simp add: step_do_returns)
next
  case (Some v)
  then show ?thesis using assms by (simp add: step_do_cached)
qed

lemma step_store_next:
  assumes "Suc n \<le> b" and "\<exists>v. fst (body w) = Inr v"
  shows "\<exists>v b' c' w'. step_do slot put body b c w = Next v b' c' w' \<and> n \<le> b'"
proof (cases "slot c")
  case None
  obtain k where k: "b = Suc k" using assms by (cases b) simp_all
  from assms(2) obtain v where "fst (body w) = Inr v" by blast
  then show ?thesis using None k assms(1) by (simp add: step_do_stores)
next
  case (Some v)
  then show ?thesis using assms by (simp add: step_do_cached)
qed

lemma store_results_ok:
  "lookup_or TIER_ARR (toLowerCase (fb_customer_tier feedback)) 0 \<noteq> Inherited \<Longrightarrow>
   \<exists>v. fst (store_results env feedback s t u m p w) = Inr v"
  by (simp add: store_results_def Date_now_def Let_def split: table_value.splits)

text \<open>A budget of six steps is enough: the run returns, unless the tier is a name whose
  ARR lookup the database refuses.\<close>

lemma run_completes:
  assumes "lookup_or TIER_ARR (toLowerCase (fb_customer_tier feedback)) 0 \<noteq> Inherited"
    and "6 \<le> b"
  shows "completed (run env feedback b c w)"
proof -
  have b: "Suc 5 \<le> b" using assms(2) by simp
  from step_returns_next [OF b, where slot = ck_sentiment
      and put = "\<lambda>v c. c\<lparr>ck_sentiment := Some v\<rparr>" and body = "analyze_sentiment env feedback"
      and c = c and w = w] obtain sentiment b1 c1 w1 where
    s1: "step_do ck_sentiment (\<lambda>v c. c\<lparr>ck_sentiment := Some v\<rparr>)
           (returns (analyze_sentiment env feedback)) b c w = Next sentiment b1 c1 w1"
    and "5 \<le> b1" by blast
  then have "Suc 4 \<le> b1" by simp
  from step_returns_next [OF this, where slot = ck_themes
      and put = "\<lambda>v c. c\<lparr>ck_themes := Some v\<rparr>" and body = "extract_themes env feedback"
      and c = c1 and w = w1] obtain themes b2 c2 w2 where
    s2: "step_do ck_themes (\<lambda>v c. c\<lparr>ck_themes := Some v\<rparr>)
           (returns (extract_themes env feedback)) b1 c1 w1 = Next themes b2 c2 w2"
    and "4 \<le> b2" by blast
  then have "Suc 3 \<le> b2" by simp
  from step_returns_next [OF this, where slot = ck_urgency
      and put = "\<lambda>v c. c\<lparr>ck_urgency := Some v\<rparr>" and body = "\<lambda>w. (classify_urgency feedback, w)"
      and c = c2 and w = w2] obtain urgency b3 c3 w3 where
    s3: "step_do ck_urgency (\<lambda>v c. c\<lparr>ck_urgency := Some v\<rparr>)
           (returns (\<lambda>w. (classify_urgency feedback, w))) b2 c2 w2 = Next urgency b3 c3 w3"
    and "3 \<le> b3" by blast
  then have "Suc 2 \<le> b3" by simp
  from step_returns_next [OF this, where slot = ck_summary
      and put = "\<lambda>v c. c\<lparr>ck_summary := Some v\<rparr>" and body = "generate_summary env feedback"
      and c = c3 and w = w3] obtain summaryResult b4 c4 w4 where
    s4: "step_do ck_summary (\<lambda>v c. c\<lparr>ck_summary := Some v\<rparr>)
           (returns (generate_summary env feedback)) b3 c3 w3 = Next summaryResult b4 c4 w4"
    and "2 \<le> b4" by blast
  then have "Suc 1 \<le> b4" by simp
  from step_returns_next [OF this, where slot = ck_priority
      and put = "\<lambda>v c. c\<lparr>ck_priority := Some v\<rparr>"
      and body = "calculate_priority env feedback urgency (fst sentiment)"
      and c = c4 and w = w4] obtain priorityScore b5 c5 w5 where
    s5: "step_do ck_priority (\<lambda>v c. c\<lparr>ck_priority := Some v\<rparr>)
           (returns (calculate_priority env feedback urgency (fst sentiment))) b4 c4 w4
         = Next priorityScore b5 c5 w5"
    and "1 \<le> b5" by blast
  then have "Suc 0 \<le> b5" by simp
  have ok: "\<exists>v. fst (store_results env feedback sentiment themes urgency summaryResult
                       priorityScore w5) = Inr v"
    by (rule store_results_ok [OF assms(1)])
  from step_store_next [where slot = ck_store and put = "\<lambda>v c. c\<lparr>ck_store := Some v\<rparr>"
      and body = "store_results env feedback sentiment themes urgency summaryResult priorityScore"
      and c = c5 and w = w5 and n = 0 and b = b5, OF \<open>Suc 0 \<le> b5\<close> ok]
  obtain stored b6 c6 w6 where
    s6: "step_do ck_store (\<lambda>v c. c\<lparr>ck_store := Some v\<rparr>)
           (store_results env feedback sentiment themes urgency summaryResult priorityScore)
           b5 c5 w5 = Next stored b6 c6 w6" by blast
  show ?thesis
    unfolding run_def
    by (simp only: s1 s2 s3 s4 s5 s6 and_then_Next completed_def progress.case)
qed

subsection \<open>Provider calls\<close>

lemma ai_calls_extract_themes:
  "\<exists>calls. ai_calls (snd (extract_themes env feedback w)) = ai_calls w @ calls
           \<and> (\<forall>x\<in>set calls. fst x = TEXT_MODEL)"
proof (cases "detect_themes THEME_KEYWORDS (toLowerCase (fb_content feedback)) = []")
  case True
  then have "ai_calls (snd (extract_themes env feedback w)) =
               ai_calls w @ [(TEXT_MODEL, themes_prompt (fb_content feedback))]"
    by (simp add: extract_themes_def extract_themes_with_def AI_run_def Let_def split: sum.splits)
  then show ?thesis by simp
next
  case False
  then have "ai_calls (snd (extract_themes env feedback w)) = ai_calls w @ []"
    by (simp add: extract_themes_def extract_themes_with_def Let_def)
  then show ?thesis by (intro exI [of _ "[]"]) simp
qed

lemma ai_calls_generate_summary:
  "ai_calls (snd (generate_summary env feedback w)) =
     ai_calls w @ [(TEXT_MODEL, summary_prompt (fb_content feedback))]"
  by (simp add: generate_summary_def AI_run_def split: sum.splits option.splits)

lemma ai_calls_calculate_priority [simp]:
  "ai_calls (snd (calculate_priority env feedback u s w)) = ai_calls w"
  by (simp add: calculate_priority_def Date_now_def Let_def)

lemma ai_calls_store_results [simp]:
  "ai_calls (snd (store_results env feedback s t u m p w)) = ai_calls w"
  by (simp add: store_results_def Date_now_def Let_def split: table_value.splits)

lemma models_differ: "TEXT_MODEL \<noteq> SENTIMENT_MODEL"
  by (simp add: TEXT_MODEL_def SENTIMENT_MODEL_def)

lemma run_no_sentiment_call:
  assumes "ck_sentiment c \<noteq> None"
  shows "ends_in (\<lambda>c' w'. ck_sentiment c' \<noteq> None \<and>
            (\<exists>calls. ai_calls w' = ai_calls w @ calls \<and> (\<forall>x\<in>set calls. fst x \<noteq> SENTIMENT_MODEL)))
           (run env feedback b c w)"
proof (rule run_inv)
  show "ck_sentiment c \<noteq> None \<and>
        (\<exists>calls. ai_calls w = ai_calls w @ calls \<and> (\<forall>x\<in>set calls. fst x \<noteq> SENTIMENT_MODEL))"
    using assms by simp
next
  fix c' :: checkpoints and w' :: world
  assume q: "ck_sentiment c' \<noteq> None \<and>
        (\<exists>calls. ai_calls w' = ai_calls w @ calls \<and> (\<forall>x\<in>set calls. fst x \<noteq> SENTIMENT_MODEL))"
  then obtain calls where c: "ai_calls w' = ai_calls w @ calls"
    "\<forall>x\<in>set calls. fst x \<noteq> SENTIMENT_MODEL" by blast
  from ai_calls_extract_themes [of env feedback w'] obtain more where
    m: "ai_calls (snd (extract_themes env feedback w')) = ai_calls w' @ more"
    "\<forall>x\<in>set more. fst x = TEXT_MODEL" by blast
  have "ai_calls (snd (extract_themes env feedback w')) = ai_calls w @ (calls @ more)
        \<and> (\<forall>x\<in>set (calls @ more). fst x \<noteq> SENTIMENT_MODEL)"
    using c m models_differ by auto
  then have e: "\<exists>calls. ai_calls (snd (extract_themes env feedback w')) = ai_calls w @ calls
                 \<and> (\<forall>x\<in>set calls. fst x \<noteq> SENTIMENT_MODEL)" by blast
  have k: "ck_sentiment (c'\<lparr>ck_themes := Some (fst (extract_themes env feedback w'))\<rparr>) \<noteq> None"
    using q by simp
  show "ck_sentiment (c'\<lparr>ck_themes := Some (fst (extract_themes env feedback w'))\<rparr>) \<noteq> None \<and>
        (\<exists>calls. ai_calls (snd (extract_themes env feedback w')) = ai_calls w @ calls
                 \<and> (\<forall>x\<in>set calls. fst x \<noteq> SENTIMENT_MODEL))"
    using k e by (rule conjI)
next
  fix c' :: checkpoints and w' :: world
  assume q: "ck_sentiment c' \<noteq> None \<and>
        (\<exists>calls. ai_calls w' = ai_calls w @ calls \<and> (\<forall>x\<in>set calls. fst x \<noteq> SENTIMENT_MODEL))"
  then obtain calls where c: "ai_calls w' = ai_calls w @ calls"
    "\<forall>x\<in>set calls. fst x \<noteq> SENTIMENT_MODEL" by blast
  have "ai_calls (snd (generate_summary env feedback w')) =
          ai_calls w @ (calls @ [(TEXT_MODEL, summary_prompt (fb_content feedback))])
        \<and> (\<forall>x\<in>set (calls @ [(TEXT_MODEL, summary_prompt (fb_content feedback))]).
              fst x \<noteq> SENTIMENT_MODEL)"
    using c models_differ by (simp add: ai_calls_generate_summary)
  then have e: "\<exists>calls. ai_calls (snd (generate_summary env feedback w')) = ai_calls w @ calls
                 \<and> (\<forall>x\<in>set calls. fst x \<noteq> SENTIMENT_MODEL)" by blast
  have k: "ck_sentiment (c'\<lparr>ck_summary := Some (fst (generate_summary env feedback w'))\<rparr>) \<noteq> None"
    using q by simp
  show "ck_sentiment (c'\<lparr>ck_summary := Some (fst (generate_summary env feedback w'))\<rparr>) \<noteq> None \<and>
        (\<exists>calls. ai_calls (snd (generate_summary env feedback w')) = ai_calls w @ calls
                 \<and> (\<forall>x\<in>set calls. fst x \<noteq> SENTIMENT_MODEL))"
    using k e by (rule conjI)
qed (simp_all split: sum.splits)

lemma clock_reads_analyze_sentiment [simp]:
  "clock_reads (snd (analyze_sentiment env feedback w)) = clock_reads w"
  by (simp add: analyze_sentiment_def AI_run_def Let_def split: sum.splits ai_output.splits list.splits)

lemma clock_reads_extract_themes [simp]:
  "clock_reads (snd (extract_themes env feedback w)) = clock_reads w"
  by (simp add: extract_themes_def extract_themes_with_def AI_run_def Let_def split: sum.splits)

lemma clock_reads_generate_summary [simp]:
  "clock_reads (snd (generate_summary env feedback w)) = clock_reads w"
  by (simp add: generate_summary_def AI_run_def split: sum.splits option.splits)

lemma clock_reads_calculate_priority [simp]:
  "clock_reads (snd (calculate_priority env feedback u s w)) = Suc (clock_reads w)"
  by (simp add: calculate_priority_def Date_now_def Let_def)

lemma store_results_Own:
  assumes "lookup_or TIER_ARR (toLowerCase (fb_customer_tier feedback)) 0 = Own a"
  shows "fst (store_results env feedback s t u m p w) = Inr ()"
    and "db (snd (store_results env feedback s t u m p w)) =
           UPDATE_feedback (fb_id feedback) (fst s) (snd s) u (JSON_stringify t) m p a
             (clock env (clock_reads w)) (db w)"
  using assms by (simp_all add: store_results_def Date_now_def Let_def)

lemma step_do_stores_unit:
  "slot c = None \<Longrightarrow> fst (body w) = Inr () \<Longrightarrow>
   step_do slot put body (Suc b) c w = Next () b (put () c) (snd (body w))"
  by (rule step_do_stores)

lemma pro_tier_arr:
  "lookup_or TIER_ARR (toLowerCase (fb_customer_tier (payload_of text ''pro'' created))) 0 = Own 5000"
proof -
  have "toLowerCase ''pro'' = ''pro''" by code_simp
  then show ?thesis by (simp add: payload_of_def lookup_or_def TIER_ARR_def)
qed

lemma reachable_one_row: "reachable (db (world_with (one_row text tier created)))"
proof -
  have "INSERT_feedback (new_row ''f1'' ''manual'' text ''00'' ''anonymous'' tier 0 created) []
          = Inr (one_row text tier created)"
    by (simp add: INSERT_feedback_def one_row_def)
  then have "reachable (one_row text tier created)"
    using reachable.inserted [OF reachable.empty] by blast
  then show ?thesis by (simp add: world_with_def)
qed

text \<open>
  C5. When a run of an instance that has not yet stored its results reaches its
  \<^verbatim>\<open>return\<close>, every row with the payload's \<^verbatim>\<open>id\<close> has \<^verbatim>\<open>sentiment\<close>, \<^verbatim>\<open>urgency\<close>,
  \<^verbatim>\<open>themes\<close>, \<^verbatim>\<open>summary\<close> and \<^verbatim>\<open>processed_at\<close> all non-null: the one \<^verbatim>\<open>UPDATE\<close> sets them
  together. And in every table the Worker can produce, each row has either all five null
  or all five non-null, so \<^verbatim>\<open>processed_at\<close> is null exactly when no enrichment result has
  been written to the row.
\<close>

theorem processed_at_atomic:
  assumes "reachable (db w)" and "ck_store c = None" and "completed (run env feedback b c w)"
  shows "(\<forall>r\<in>set (db (world_of (run env feedback b c w))). r_id r = fb_id feedback \<longrightarrow> enriched r)
       \<and> (\<forall>r\<in>set (db (world_of (run env feedback b c w))). unprocessed r \<or> enriched r)"
proof -
  have "ends_in (\<lambda>c' w'. ck_store c' \<noteq> None \<and>
           (ck_store c' \<noteq> None \<longrightarrow> (\<forall>r\<in>set (db w'). r_id r = fb_id feedback \<longrightarrow> enriched r)))
         (run env feedback b c w)"
    using run_completed_stored [rule_format, OF assms(3)] run_stored_enriched [OF assms(2)]
    by (rule ends_in_conj)
  then have "\<forall>r\<in>set (db (world_of (run env feedback b c w))). r_id r = fb_id feedback \<longrightarrow> enriched r"
    by (cases "run env feedback b c w") (simp_all add: ends_in_def world_of_def)
  then show ?thesis using reachable_rows [OF run_reachable [OF assms(1)]] by simp
qed

theorem processed_at_atomic_witness:
  "reachable (db (world_with (one_row ''checkout is broken'' ''pro'' 0)))
   \<and> ck_store no_checkpoints = None
   \<and> completed (run (env_of silent_ai (\<lambda>n. 1000)) (payload_of ''checkout is broken'' ''pro'' 0) 6
                  no_checkpoints (world_with (one_row ''checkout is broken'' ''pro'' 0)))
   \<and> list_all enriched
        (db (world_of (run (env_of silent_ai (\<lambda>n. 1000)) (payload_of ''checkout is broken'' ''pro'' 0) 6
                         no_checkpoints (world_with (one_row ''checkout is broken'' ''pro'' 0)))))"
proof -
  let ?E = "env_of silent_ai (\<lambda>n. 1000)"
  let ?P = "payload_of ''checkout is broken'' ''pro'' 0"
  let ?W = "world_with (one_row ''checkout is broken'' ''pro'' 0)"
  have r: "reachable (db ?W)" by (rule reachable_one_row)
  have n: "ck_store no_checkpoints = None" by (simp add: no_checkpoints_def)
  have t: "lookup_or TIER_ARR (toLowerCase (fb_customer_tier ?P)) 0 \<noteq> Inherited"
    by (simp add: pro_tier_arr)
  have c: "completed (run ?E ?P 6 no_checkpoints ?W)" using t by (rule run_completes) simp
  have ids: "map r_id (db (world_of (run ?E ?P 6 no_checkpoints ?W))) = [fb_id ?P]"
  proof -
    have "map base_columns (db (world_of (run ?E ?P 6 no_checkpoints ?W))) = map base_columns (db ?W)"
      using run_frame by (rule frame_base_columns)
    then have "map (fst \<circ> base_columns) (db (world_of (run ?E ?P 6 no_checkpoints ?W)))
               = map (fst \<circ> base_columns) (db ?W)"
      by (simp only: map_map [symmetric])
    moreover have "fst \<circ> base_columns = r_id" by (simp add: fun_eq_iff base_columns_def)
    ultimately show ?thesis
      by (simp add: world_with_def one_row_def new_row_def payload_of_def)
  qed
  have "\<forall>r\<in>set (db (world_of (run ?E ?P 6 no_checkpoints ?W))). r_id r = fb_id ?P"
  proof
    fix r assume "r \<in> set (db (world_of (run ?E ?P 6 no_checkpoints ?W)))"
    then have "r_id r \<in> set (map r_id (db (world_of (run ?E ?P 6 no_checkpoints ?W))))" by simp
    then show "r_id r = fb_id ?P" by (simp only: ids) simp
  qed
  then have "list_all enriched (db (world_of (run ?E ?P 6 no_checkpoints ?W)))"
    using processed_at_atomic [OF r n c] by (simp add: list_all_iff)
  then show ?thesis using r n c by simp
qed

subsection \<open>Two runs compared\<close>

lemma alike_world_refl: "alike_world w w"
  by (simp add: alike_world_def)

lemma alike_checkpoints_refl: "alike_checkpoints c c"
  by (simp add: alike_checkpoints_def)

lemma and_then_alike:
  assumes "alike R p p'"
    and "\<And>v v' b c w c' w'. R v v' \<Longrightarrow> alike_checkpoints c c' \<Longrightarrow> alike_world w w' \<Longrightarrow>
           alike R2 (f v b c w) (f' v' b c' w')"
  shows "alike R2 (and_then p f) (and_then p' f')"
proof (cases p)
  case n: (Next v b c w)
  show ?thesis
  proof (cases p')
    case (Next v' b' c' w')
    then show ?thesis using n assms(1) assms(2) [of v v' c c' w w' b]
      by (simp add: alike_def)
  next
    case (Stop r' c' w')
    then show ?thesis using n assms(1) by (simp add: alike_def)
  qed
next
  case s: (Stop r c w)
  show ?thesis
  proof (cases p')
    case (Next v' b' c' w')
    then show ?thesis using s assms(1) by (simp add: alike_def)
  next
    case (Stop r' c' w')
    then show ?thesis using s assms(1) by (simp add: alike_def)
  qed
qed

lemma step_do_alike:
  assumes "alike_checkpoints c c'" and "alike_world w w'"
    and "(slot c = None \<and> slot c' = None) \<or> (\<exists>v v'. slot c = Some v \<and> slot c' = Some v' \<and> R v v')"
    and "(\<exists>e. fst (body w) = Inl e \<and> fst (body' w') = Inl e)
         \<or> (\<exists>v v'. fst (body w) = Inr v \<and> fst (body' w') = Inr v' \<and> R v v'
                \<and> alike_checkpoints (put v c) (put v' c'))"
    and "alike_world (snd (body w)) (snd (body' w'))"
  shows "alike R (step_do slot put body b c w) (step_do slot put body' b c' w')"
proof (cases "slot c")
  case (Some v)
  then obtain v' where "slot c' = Some v'" "R v v'" using assms(3) by auto
  then show ?thesis using Some assms(1,2) by (simp add: step_do_def alike_def)
next
  case None
  then have n': "slot c' = None" using assms(3) by auto
  show ?thesis
  proof (cases b)
    case 0
    then show ?thesis using None n' assms(1,2) by (simp add: step_do_def alike_def)
  next
    case (Suc k)
    obtain r w1 where bw: "body w = (r, w1)" by (cases "body w")
    obtain r' w1' where bw': "body' w' = (r', w1')" by (cases "body' w'")
    from assms(4) show ?thesis
    proof
      assume "\<exists>e. fst (body w) = Inl e \<and> fst (body' w') = Inl e"
      then obtain e where "r = Inl e" "r' = Inl e" using bw bw' by auto
      then show ?thesis using None n' Suc bw bw' assms(1,5)
        by (simp add: step_do_def alike_def)
    next
      assume "\<exists>v v'. fst (body w) = Inr v \<and> fst (body' w') = Inr v' \<and> R v v'
                \<and> alike_checkpoints (put v c) (put v' c')"
      then obtain v v' where "r = Inr v" "r' = Inr v'" "R v v'"
        "alike_checkpoints (put v c) (put v' c')" using bw bw' by auto
      then show ?thesis using None n' Suc bw bw' assms(5)
        by (simp add: step_do_def alike_def)
    qed
  qed
qed

lemma fst_returns [simp]: "fst (returns body w) = Inr (fst (body w))"
  by (cases "body w") (simp add: returns_def)

lemma snd_returns [simp]: "snd (returns body w) = snd (body w)"
  by (cases "body w") (simp add: returns_def)

text \<open>The steps that call the provider: the result depends on the provider alone.\<close>

lemma analyze_sentiment_alike:
  assumes "AI env' = AI env" and "alike_world w w'"
  shows "fst (analyze_sentiment env' feedback w') = fst (analyze_sentiment env feedback w)"
    and "alike_world (snd (analyze_sentiment env feedback w)) (snd (analyze_sentiment env' feedback w'))"
  using assms
  by (simp_all add: analyze_sentiment_def AI_run_def alike_world_def Let_def
      split: sum.splits ai_output.splits list.splits option.splits)

lemma extract_themes_alike:
  assumes "AI env' = AI env" and "alike_world w w'"
  shows "fst (extract_themes env' feedback w') = fst (extract_themes env feedback w)"
    and "alike_world (snd (extract_themes env feedback w)) (snd (extract_themes env' feedback w'))"
  using assms
  by (simp_all add: extract_themes_def extract_themes_with_def AI_run_def alike_world_def Let_def
      split: sum.splits)

lemma generate_summary_alike:
  assumes "AI env' = AI env" and "alike_world w w'"
  shows "fst (generate_summary env' feedback w') = fst (generate_summary env feedback w)"
    and "alike_world (snd (generate_summary env feedback w)) (snd (generate_summary env' feedback w'))"
  using assms
  by (simp_all add: generate_summary_def AI_run_def alike_world_def
      split: sum.splits option.splits)

lemma calculate_priority_alike:
  assumes "alike_world w w'"
  shows "alike_world (snd (calculate_priority env feedback u s w))
           (snd (calculate_priority env' feedback u s w'))"
  using assms by (simp add: calculate_priority_def Date_now_def Let_def alike_world_def)

lemma timeless_UPDATE_feedback:
  "map timeless_columns (UPDATE_feedback ident sent sent_score urg thms summ prio arr stamp rows) =
   map (\<lambda>r. if r_id r = ident
             then r\<lparr>r_sentiment := Some sent, r_sentiment_score := D1_real sent_score,
                    r_urgency := Some urg, r_themes := Some thms, r_summary := Some summ,
                    r_arr_estimate := Some arr\<rparr>
             else r) (map timeless_columns rows)"
  by (simp add: UPDATE_feedback_def timeless_columns_def)

lemma store_results_alike:
  assumes "alike_world w w'"
  shows "fst (store_results env' feedback s t u m p' w') = fst (store_results env feedback s t u m p w)"
    and "alike_world (snd (store_results env feedback s t u m p w))
           (snd (store_results env' feedback s t u m p' w'))"
  using assms
  by (simp_all add: store_results_def Date_now_def Let_def alike_world_def timeless_UPDATE_feedback
      split: table_value.splits)


lemma step_store_alike:
  assumes "alike_checkpoints c c'" and "alike_world w w'"
    and "slot c' = slot c"
    and "fst (body' w') = fst (body w)"
    and "alike_world (snd (body w)) (snd (body' w'))"
    and "\<And>v. alike_checkpoints (put v c) (put v c')"
  shows "alike (=) (step_do slot put body b c w) (step_do slot put body' b c' w')"
proof (rule step_do_alike [OF assms(1,2)])
  show "(slot c = None \<and> slot c' = None) \<or> (\<exists>v v'. slot c = Some v \<and> slot c' = Some v' \<and> v = v')"
    using assms(3) by (cases "slot c") simp_all
  show "(\<exists>e. fst (body w) = Inl e \<and> fst (body' w') = Inl e)
         \<or> (\<exists>v v'. fst (body w) = Inr v \<and> fst (body' w') = Inr v' \<and> v = v'
                \<and> alike_checkpoints (put v c) (put v' c'))"
    using assms(4,6) by (cases "fst (body w)") simp_all
  show "alike_world (snd (body w)) (snd (body' w'))" by (rule assms(5))
qed

lemma step_returns_alike:
  assumes "alike_checkpoints c c'" and "alike_world w w'"
    and "slot c' = slot c"
    and "fst (body' w') = fst (body w)"
    and "alike_world (snd (body w)) (snd (body' w'))"
    and "\<And>v. alike_checkpoints (put v c) (put v c')"
  shows "alike (=) (step_do slot put (returns body) b c w) (step_do slot put (returns body') b c' w')"
  using assms by (intro step_store_alike) simp_all

lemma step_priority_alike:
  assumes "alike_checkpoints c c'" and "alike_world w w'"
    and "(slot c' = None) = (slot c = None)"
    and "alike_world (snd (body w)) (snd (body' w'))"
    and "\<And>v v'. alike_checkpoints (put v c) (put v' c')"
  shows "alike (\<lambda>p p'. True) (step_do slot put (returns body) b c w)
           (step_do slot put (returns body') b c' w')"
proof (rule step_do_alike [OF assms(1,2)])
  show "(slot c = None \<and> slot c' = None) \<or> (\<exists>v v'. slot c = Some v \<and> slot c' = Some v' \<and> True)"
    using assms(3) by (cases "slot c"; cases "slot c'") simp_all
  show "(\<exists>e. fst (returns body w) = Inl e \<and> fst (returns body' w') = Inl e)
         \<or> (\<exists>v v'. fst (returns body w) = Inr v \<and> fst (returns body' w') = Inr v' \<and> True
                \<and> alike_checkpoints (put v c) (put v' c'))"
    using assms(5) by simp
  show "alike_world (snd (returns body w)) (snd (returns body' w'))" using assms(4) by simp
qed

text \<open>Two runs with the same provider, from checkpoints and worlds that are alike, with
  the same budget: they end alike, whatever the two clocks read.\<close>

lemma run_alike:
  assumes ai: "AI env' = AI env" and "alike_checkpoints c c'" and "alike_world w w'"
  shows "alike alike_result (run env feedback b c w) (run env' feedback b c' w')"
  unfolding run_def
proof (rule and_then_alike [where R = "(=)"], goal_cases)
  case 1
  show ?case
    using assms(2,3) analyze_sentiment_alike [OF ai assms(3), of feedback]
    by (intro step_returns_alike) (simp_all add: alike_checkpoints_def)
next
  case (2 sentiment sentiment' b1 c1 w1 c1' w1')
  then have e1: "sentiment' = sentiment" by simp
  show ?case unfolding e1
  proof (rule and_then_alike [where R = "(=)"], goal_cases)
    case 1
    show ?case
      using 2(2,3) extract_themes_alike [OF ai 2(3), of feedback]
      by (intro step_returns_alike) (simp_all add: alike_checkpoints_def)
  next
    case (2 themes themes' b2 c2 w2 c2' w2')
    then have e2: "themes' = themes" by simp
    show ?case unfolding e2
    proof (rule and_then_alike [where R = "(=)"], goal_cases)
      case 1
      show ?case
        using 2(2,3)
        by (intro step_returns_alike) (simp_all add: alike_checkpoints_def)
    next
      case (2 urgency urgency' b3 c3 w3 c3' w3')
      then have e3: "urgency' = urgency" by simp
      show ?case unfolding e3
      proof (rule and_then_alike [where R = "(=)"], goal_cases)
        case 1
        show ?case
          using 2(2,3) generate_summary_alike [OF ai 2(3), of feedback]
          by (intro step_returns_alike) (simp_all add: alike_checkpoints_def)
      next
        case (2 summaryResult summaryResult' b4 c4 w4 c4' w4')
        then have e4: "summaryResult' = summaryResult" by simp
        show ?case unfolding e4
        proof (rule and_then_alike [where R = "\<lambda>p p'. True"], goal_cases)
          case 1
          show ?case
            using 2(2,3) calculate_priority_alike [OF 2(3), where env = env and env' = env'
                and feedback = feedback and u = urgency and s = "fst sentiment"]
            by (intro step_priority_alike) (simp_all add: alike_checkpoints_def)
        next
          case (2 priorityScore priorityScore' b5 c5 w5 c5' w5')
          show ?case
          proof (rule and_then_alike [where R = "(=)"], goal_cases)
            case 1
            show ?case
              using 2(2,3)
                store_results_alike [OF 2(3), where env = env and env' = env'
                  and feedback = feedback and s = sentiment and t = themes and u = urgency
                  and m = summaryResult and p = priorityScore and p' = priorityScore']
              by (intro step_store_alike) (simp_all add: alike_checkpoints_def)
          next
            case (2 stored stored' b6 c6 w6 c6' w6')
            then show ?case by (simp add: alike_def alike_result_def)
          qed
        qed
      qed
    qed
  qed
qed

lemma alike_ends:
  assumes "alike R p p'"
  shows "alike_world (world_of p) (world_of p')" and "completed p' = completed p"
  using assms
  by (cases p; cases p'; simp add: alike_def world_of_def outcome_def completed_def)+

text \<open>
  C1. The claim: a run interrupted after the sentiment step and then resumed does not
  call the sentiment provider again and, given deterministic provider responses, stores
  the same record as an uninterrupted run. The first half holds, whatever the provider
  and the clock of the resumed run. The record, though, holds the reading of the clock
  taken by \<^verbatim>\<open>store-results\<close> (\<^verbatim>\<open>processed_at\<close>) and a score computed from the reading
  taken by \<^verbatim>\<open>calculate-priority\<close>, and a resumed run reads the clock when it resumes.
  Amended, for every payload and every number \<open>k\<close> of steps completed before the
  interruption: when \<open>k > 0\<close>, or the sentiment result was checkpointed before the run
  began, the resumed run adds no call to the sentiment model; with the same provider
  responses it ends as one run with the budget of both does (both return or neither),
  with the same provider calls and the same stored table in every column but
  \<^verbatim>\<open>priority_score\<close> and \<^verbatim>\<open>processed_at\<close>; and if the clock readings are the same as
  well, the two runs are equal: the same result, checkpoints and table.
\<close>

theorem run_resumes:
  assumes "run env feedback k c w = Stop Interrupted c1 w1"
  shows "(0 < k \<or> ck_sentiment c \<noteq> None \<longrightarrow>
            ends_in (\<lambda>c' w'. \<exists>calls. ai_calls w' = ai_calls w1 @ calls
                               \<and> (\<forall>x\<in>set calls. fst x \<noteq> SENTIMENT_MODEL))
              (run env' feedback m c1 w1))
       \<and> (AI env' = AI env \<longrightarrow>
            map timeless_columns (db (world_of (run env' feedback m c1 w1)))
              = map timeless_columns (db (world_of (run env feedback (k + m) c w)))
            \<and> ai_calls (world_of (run env' feedback m c1 w1))
                = ai_calls (world_of (run env feedback (k + m) c w))
            \<and> completed (run env' feedback m c1 w1) = completed (run env feedback (k + m) c w))
       \<and> (AI env' = AI env \<and> clock env' = clock env \<longrightarrow>
            run env' feedback m c1 w1 = run env feedback (k + m) c w)"
proof -
  have r: "run env feedback m c1 w1 = run env feedback (k + m) c w"
    using assms by (rule run_resume)
  have a: "ends_in (\<lambda>c' w'. \<exists>calls. ai_calls w' = ai_calls w1 @ calls
                               \<and> (\<forall>x\<in>set calls. fst x \<noteq> SENTIMENT_MODEL))
              (run env' feedback m c1 w1)" if "0 < k \<or> ck_sentiment c \<noteq> None"
  proof -
    have "ck_sentiment c1 \<noteq> None" using assms that by (rule run_interrupted_sentiment)
    from run_no_sentiment_call [OF this, of w1 env' feedback m]
    show ?thesis by (cases "run env' feedback m c1 w1") (simp_all add: ends_in_def)
  qed
  have b: "map timeless_columns (db (world_of (run env' feedback m c1 w1)))
              = map timeless_columns (db (world_of (run env feedback (k + m) c w)))
            \<and> ai_calls (world_of (run env' feedback m c1 w1))
                = ai_calls (world_of (run env feedback (k + m) c w))
            \<and> completed (run env' feedback m c1 w1) = completed (run env feedback (k + m) c w)"
    if ai: "AI env' = AI env"
  proof -
    have "alike alike_result (run env feedback m c1 w1) (run env' feedback m c1 w1)"
      using ai alike_checkpoints_refl alike_world_refl by (rule run_alike)
    from alike_ends [OF this] show ?thesis by (simp add: alike_world_def r)
  qed
  have c: "run env' feedback m c1 w1 = run env feedback (k + m) c w"
    if "AI env' = AI env \<and> clock env' = clock env"
    using run_env_cong [of env' env feedback] that r by simp
  show ?thesis using a b c by blast
qed

lemma run_one_step:
  "run env feedback (Suc 0) no_checkpoints w =
     Stop Interrupted (no_checkpoints\<lparr>ck_sentiment := Some (fst (analyze_sentiment env feedback w))\<rparr>)
       (snd (analyze_sentiment env feedback w))"
  by (simp add: run_def step_do_returns step_do_halt no_checkpoints_def)

theorem run_resumes_witness:
  "run (env_of silent_ai (\<lambda>n. 86400000)) (payload_of ''checkout is broken'' ''pro'' 0) (Suc 0)
     no_checkpoints (world_with (one_row ''checkout is broken'' ''pro'' 0))
   = Stop Interrupted
       (no_checkpoints\<lparr>ck_sentiment := Some (fst (analyze_sentiment (env_of silent_ai (\<lambda>n. 86400000))
          (payload_of ''checkout is broken'' ''pro'' 0)
          (world_with (one_row ''checkout is broken'' ''pro'' 0))))\<rparr>)
       (snd (analyze_sentiment (env_of silent_ai (\<lambda>n. 86400000))
          (payload_of ''checkout is broken'' ''pro'' 0)
          (world_with (one_row ''checkout is broken'' ''pro'' 0))))
   \<and> AI (env_of silent_ai (\<lambda>n. 864000000)) = AI (env_of silent_ai (\<lambda>n. 86400000))
   \<and> ends_in (\<lambda>c' w'. \<exists>calls.
         ai_calls w' = ai_calls (snd (analyze_sentiment (env_of silent_ai (\<lambda>n. 86400000))
             (payload_of ''checkout is broken'' ''pro'' 0)
             (world_with (one_row ''checkout is broken'' ''pro'' 0)))) @ calls
         \<and> (\<forall>x\<in>set calls. fst x \<noteq> SENTIMENT_MODEL))
       (run (env_of silent_ai (\<lambda>n. 864000000))
          (payload_of ''checkout is broken'' ''pro'' 0) 6
          (no_checkpoints\<lparr>ck_sentiment := Some (fst (analyze_sentiment (env_of silent_ai (\<lambda>n. 86400000))
             (payload_of ''checkout is broken'' ''pro'' 0)
             (world_with (one_row ''checkout is broken'' ''pro'' 0))))\<rparr>)
          (snd (analyze_sentiment (env_of silent_ai (\<lambda>n. 86400000))
             (payload_of ''checkout is broken'' ''pro'' 0)
             (world_with (one_row ''checkout is broken'' ''pro'' 0)))))
   \<and> map timeless_columns
       (db (world_of (run (env_of silent_ai (\<lambda>n. 864000000))
          (payload_of ''checkout is broken'' ''pro'' 0) 6
          (no_checkpoints\<lparr>ck_sentiment := Some (fst (analyze_sentiment (env_of silent_ai (\<lambda>n. 86400000))
             (payload_of ''checkout is broken'' ''pro'' 0)
             (world_with (one_row ''checkout is broken'' ''pro'' 0))))\<rparr>)
          (snd (analyze_sentiment (env_of silent_ai (\<lambda>n. 86400000))
             (payload_of ''checkout is broken'' ''pro'' 0)
             (world_with (one_row ''checkout is broken'' ''pro'' 0)))))))
     = map timeless_columns
         (db (world_of (run (env_of silent_ai (\<lambda>n. 86400000))
            (payload_of ''checkout is broken'' ''pro'' 0) 7
            no_checkpoints (world_with (one_row ''checkout is broken'' ''pro'' 0)))))
   \<and> run (env_of silent_ai (\<lambda>n. 86400000)) (payload_of ''checkout is broken'' ''pro'' 0) 6
          (no_checkpoints\<lparr>ck_sentiment := Some (fst (analyze_sentiment (env_of silent_ai (\<lambda>n. 86400000))
             (payload_of ''checkout is broken'' ''pro'' 0)
             (world_with (one_row ''checkout is broken'' ''pro'' 0))))\<rparr>)
          (snd (analyze_sentiment (env_of silent_ai (\<lambda>n. 86400000))
             (payload_of ''checkout is broken'' ''pro'' 0)
             (world_with (one_row ''checkout is broken'' ''pro'' 0))))
     = run (env_of silent_ai (\<lambda>n. 86400000)) (payload_of ''checkout is broken'' ''pro'' 0) 7
         no_checkpoints (world_with (one_row ''checkout is broken'' ''pro'' 0))"
proof -
  let ?E = "env_of silent_ai (\<lambda>n. 86400000)"
  let ?E' = "env_of silent_ai (\<lambda>n. 864000000)"
  let ?P = "payload_of ''checkout is broken'' ''pro'' 0"
  let ?W = "world_with (one_row ''checkout is broken'' ''pro'' 0)"
  let ?C1 = "no_checkpoints\<lparr>ck_sentiment := Some (fst (analyze_sentiment ?E ?P ?W))\<rparr>"
  let ?W1 = "snd (analyze_sentiment ?E ?P ?W)"
  have s: "run ?E ?P (Suc 0) no_checkpoints ?W = Stop Interrupted ?C1 ?W1"
    by (rule run_one_step)
  have ai: "AI ?E' = AI ?E" by (simp add: env_of_def)
  have k: "0 < Suc 0 \<or> ck_sentiment no_checkpoints \<noteq> None" by simp
  have seven: "Suc 0 + 6 = 7" by simp
  note t = run_resumes [OF s, where env' = ?E' and m = 6]
  note t' = run_resumes [OF s, where env' = ?E and m = 6]
  note a = mp [OF conjunct1 [OF t] k]
  note b = conjunct1 [OF mp [OF conjunct1 [OF conjunct2 [OF t]] ai]]
  note c = mp [OF conjunct2 [OF conjunct2 [OF t']] conjI [OF refl refl]]
  show ?thesis
    by (intro conjI s ai a b [unfolded seven] c [unfolded seven])
qed

lemma fst_calculate_priority:
  "fst (calculate_priority env feedback u s w) =
     priority_score (lookup_or TIER_WEIGHT (toLowerCase (fb_customer_tier feedback)) 1)
       (lookup_or SEVERITY_WEIGHT u 4) (lookup_or SENTIMENT_WEIGHT s 5)
       (daysOld_of (clock env (clock_reads w)) (fb_created_at feedback))"
  by (simp add: calculate_priority_def Date_now_def Let_def)

lemma clocked_UPDATE_feedback:
  "map (\<lambda>r. (r_priority_score r, r_processed_at r))
     (UPDATE_feedback ident sent sent_score urg thms summ prio arr stamp rows) =
   map (\<lambda>r. if r_id r = ident then (D1_real prio, Some stamp)
             else (r_priority_score r, r_processed_at r)) rows"
  by (simp add: UPDATE_feedback_def)

text \<open>What a run that finds the sentiment checkpoint stores in the two columns: the score
  for the age at the first reading of the clock, and the second reading.\<close>

lemma stored_after_sentiment:
  "map (\<lambda>r. (r_priority_score r, r_processed_at r))
     (db (world_of (run (env_of ai clk) (payload_of text ''pro'' created) 6
        (no_checkpoints\<lparr>ck_sentiment := Some s\<rparr>)
        (snd (analyze_sentiment env0 (payload_of text ''pro'' created)
                (world_with (one_row text ''pro'' created)))))))
   = [(D1_real (priority_score (Own 5)
                  (lookup_or SEVERITY_WEIGHT (classify_urgency (payload_of text ''pro'' created)) 4)
                  (lookup_or SENTIMENT_WEIGHT (fst s) 5) (daysOld_of (clk 0) created)),
       Some (clk 1))]"
proof -
  have six: "(6::nat) = Suc (Suc (Suc (Suc (Suc (Suc 0)))))" by simp
  have low: "toLowerCase ''pro'' = ''pro''" by code_simp
  have tier: "lookup_or TIER_WEIGHT (toLowerCase (fb_customer_tier (payload_of text ''pro'' created))) 1
                = Own 5"
    by (simp add: payload_of_def low lookup_or_def TIER_WEIGHT_def)
  have "map (\<lambda>r. (r_priority_score r, r_processed_at r))
     (db (world_of (run (env_of ai clk) (payload_of text ''pro'' created) 6
        (no_checkpoints\<lparr>ck_sentiment := Some s\<rparr>)
        (snd (analyze_sentiment env0 (payload_of text ''pro'' created)
                (world_with (one_row text ''pro'' created)))))))
   = map (\<lambda>r. if r_id r = fb_id (payload_of text ''pro'' created)
                 then (D1_real (priority_score (Own 5)
                         (lookup_or SEVERITY_WEIGHT (classify_urgency (payload_of text ''pro'' created)) 4)
                         (lookup_or SENTIMENT_WEIGHT (fst s) 5)
                         (daysOld_of (clock (env_of ai clk)
                                        (clock_reads (world_with (one_row text ''pro'' created))))
                            (fb_created_at (payload_of text ''pro'' created)))),
                       Some (clock (env_of ai clk)
                               (Suc (clock_reads (world_with (one_row text ''pro'' created))))))
                 else (r_priority_score r, r_processed_at r))
       (db (world_with (one_row text ''pro'' created)))"
    unfolding six
    by (simp add: run_def step_do_cached step_do_returns step_do_stores_unit
        no_checkpoints_def store_results_Own [OF pro_tier_arr] world_of_def
        clocked_UPDATE_feedback fst_calculate_priority tier)
  then show ?thesis
    by (simp add: world_with_def one_row_def new_row_def payload_of_def env_of_def)
qed

text \<open>Same provider, a later clock on resumption: the stored \<^verbatim>\<open>priority_score\<close> and
  \<^verbatim>\<open>processed_at\<close> of the resumed run are not those of the uninterrupted run.\<close>

theorem resumed_record_differs:
  "fst (outcome (run (env_of silent_ai (\<lambda>n. 86400000)) (payload_of ''checkout is broken'' ''pro'' 0) 1
                   no_checkpoints (world_with (one_row ''checkout is broken'' ''pro'' 0))))
     = Inl Interrupted
   \<and> AI (env_of silent_ai (\<lambda>n. 864000000)) = AI (env_of silent_ai (\<lambda>n. 86400000))
   \<and> map (\<lambda>r. (r_priority_score r, r_processed_at r))
       (db (world_of (run (env_of silent_ai (\<lambda>n. 864000000)) (payload_of ''checkout is broken'' ''pro'' 0) 6
          (fst (snd (outcome (run (env_of silent_ai (\<lambda>n. 86400000))
                                (payload_of ''checkout is broken'' ''pro'' 0) 1 no_checkpoints
                                (world_with (one_row ''checkout is broken'' ''pro'' 0))))))
          (snd (snd (outcome (run (env_of silent_ai (\<lambda>n. 86400000))
                                (payload_of ''checkout is broken'' ''pro'' 0) 1 no_checkpoints
                                (world_with (one_row ''checkout is broken'' ''pro'' 0)))))))))
     = [(Some (fl (47 / 10)), Some 864000000)]
   \<and> map (\<lambda>r. (r_priority_score r, r_processed_at r))
       (db (world_of (run (env_of silent_ai (\<lambda>n. 86400000)) (payload_of ''checkout is broken'' ''pro'' 0) 7
          no_checkpoints (world_with (one_row ''checkout is broken'' ''pro'' 0)))))
     = [(Some (fl (43 / 10)), Some 86400000)]
   \<and> fl (47 / 10) \<noteq> fl (43 / 10)"
proof -
  let ?E = "env_of silent_ai (\<lambda>n. 86400000)"
  let ?E' = "env_of silent_ai (\<lambda>n. 864000000)"
  let ?P = "payload_of ''checkout is broken'' ''pro'' 0"
  let ?W = "world_with (one_row ''checkout is broken'' ''pro'' 0)"
  have a: "run ?E ?P 7 no_checkpoints ?W
           = run ?E ?P 6 (no_checkpoints\<lparr>ck_sentiment := Some (fst (analyze_sentiment ?E ?P ?W))\<rparr>)
               (snd (analyze_sentiment ?E ?P ?W))"
    using run_resume [OF run_one_step [of ?E ?P ?W], of 6] by simp
  have s: "fst (analyze_sentiment ?E ?P ?W) = (''neutral'', Num 0)"
    by (simp add: analyze_sentiment_def AI_run_def env_of_def silent_ai_def)
  have u: "classify_urgency ?P = ''medium''" by code_simp
  have sev: "lookup_or SEVERITY_WEIGHT ''medium'' 4 = Own 4"
    by (simp add: lookup_or_def SEVERITY_WEIGHT_def)
  have sen: "lookup_or SENTIMENT_WEIGHT ''neutral'' 5 = Own 5"
    by (simp add: lookup_or_def SENTIMENT_WEIGHT_def)
  have d1: "daysOld_of 86400000 0 = Num 1"
    by (simp add: daysOld_of_whole whole_days_def fl_at fl_pos_eq [where e = 26] pow2_def
        round_half_even_int)
  have d10: "daysOld_of 864000000 0 = Num 10"
    by (simp add: daysOld_of_whole whole_days_def fl_at fl_pos_eq [where e = 29] pow2_def
        round_half_even_int)
  have p1: "priority_score (Own 5) (Own 4) (Own 5) (Num 1) = lit (43 / 10)"
    using priority_table [of 5 4 5 1] by (simp add: spec_eval)
  have p10: "priority_score (Own 5) (Own 4) (Own 5) (Num 10) = lit (47 / 10)"
    using priority_table [of 5 4 5 10] by (simp add: spec_eval)
  have ne: "fl (47 / 10) \<noteq> fl (43 / 10)"
    by (simp add: fl_at pow2_def round_half_even_frac Let_def)
  have i: "fst (outcome (run ?E ?P 1 no_checkpoints ?W)) = Inl Interrupted"
    by (simp add: run_one_step)
  have ai: "AI ?E' = AI ?E" by (simp add: env_of_def)
  have r': "map (\<lambda>r. (r_priority_score r, r_processed_at r))
       (db (world_of (run ?E' ?P 6
          (fst (snd (outcome (run ?E ?P 1 no_checkpoints ?W))))
          (snd (snd (outcome (run ?E ?P 1 no_checkpoints ?W)))))))
     = [(Some (fl (47 / 10)), Some 864000000)]"
    by (simp add: run_one_step stored_after_sentiment s u sev sen d10 p10 lit_def D1_real_def)
  have r: "map (\<lambda>r. (r_priority_score r, r_processed_at r))
       (db (world_of (run ?E ?P 7 no_checkpoints ?W)))
     = [(Some (fl (43 / 10)), Some 86400000)]"
    by (simp add: a stored_after_sentiment s u sev sen d1 p1 lit_def D1_real_def)
  show ?thesis by (intro conjI i ai r' r ne)
qed

subsection \<open>Fingerprint and import\<close>

lemma SELECT_by_hash_None:
  "SELECT_by_hash h rows = None \<longleftrightarrow> \<not> list_ex (\<lambda>r. r_content_hash r = h) rows"
  by (auto simp add: SELECT_by_hash_def find_None_iff list_ex_iff)

lemma SELECT_by_hash_Some:
  "SELECT_by_hash h rows = Some y \<Longrightarrow> list_ex (\<lambda>r. r_content_hash r = h) rows"
  using SELECT_by_hash_None [of h rows] by simp

lemma import_row_skips:
  assumes "list_ex (\<lambda>r. r_content_hash r = hashContent env content) (db w)"
  shows "import_row env sourceName (content # cells) w = (Inr False, w)"
proof -
  have "SELECT_by_hash (hashContent env content) (db w) \<noteq> None"
    using assms by (simp add: SELECT_by_hash_None)
  then show ?thesis
    by (simp add: import_row_def Let_def split: list.splits)
qed

lemma import_row_insufficient: "insufficient row \<Longrightarrow> import_row env sourceName row w = (Inr False, w)"
  by (auto simp add: insufficient_def import_row_def split: list.splits)

lemma records_with_absent:
  "\<not> list_ex (\<lambda>r. r_content_hash r = h) rows \<Longrightarrow> records_with h rows = 0"
  by (simp add: records_with_def list_ex_iff filter_empty_conv)

lemma records_with_distinct:
  "distinct (map r_content_hash rows) \<Longrightarrow> list_ex (\<lambda>r. r_content_hash r = h) rows \<Longrightarrow>
   records_with h rows = 1"
proof (induction rows)
  case Nil
  then show ?case by simp
next
  case (Cons r rows)
  show ?case
  proof (cases "r_content_hash r = h")
    case True
    then have "\<not> list_ex (\<lambda>r. r_content_hash r = h) rows"
      using Cons.prems(1) by (force simp add: list_ex_iff image_iff)
    then have "records_with h rows = 0" by (rule records_with_absent)
    then show ?thesis using True by (simp add: records_with_def)
  next
    case False
    then show ?thesis using Cons by (simp add: records_with_def)
  qed
qed

lemma importable_cells:
  assumes "importable env row"
  obtains content author customer_tier rest where "row = content # author # customer_tier # rest"
    and "trim content \<noteq> []"
    and "lookup_or TIER_ARR (trim (toLowerCase (or_else (Some customer_tier) ''free''))) 0 \<noteq> Inherited"
    and "rest = [] \<or> hd rest = [] \<or> parse_date env (hd rest) \<noteq> None"
  using assms by (auto simp add: importable_def split: list.splits)

text \<open>An importable row whose fingerprint is new, with an unused identifier: stored.\<close>

lemma import_row_stores:
  assumes "importable env row"
    and "\<not> list_ex (\<lambda>r. r_content_hash r = hashContent env (hd row)) (db w)"
    and "\<not> list_ex (\<lambda>r. r_id r = uuid env (uuids_drawn w)) (db w)"
  shows "\<exists>r p w'. import_row env sourceName row w = (Inr True, w')
            \<and> db w' = db w @ [r] \<and> r_content_hash r = hashContent env (hd row)
            \<and> r_id r = uuid env (uuids_drawn w) \<and> r_content r = trim (hd row) \<and> unprocessed r
            \<and> uuids_drawn w' = Suc (uuids_drawn w)
            \<and> instances w' = instances w @ [p] \<and> fb_id p = r_id r \<and> fb_content p = trim (hd row)"
proof -
  from assms(1) obtain content author customer_tier rest where
    row: "row = content # author # customer_tier # rest" and c: "trim content \<noteq> []"
    and t: "lookup_or TIER_ARR (trim (toLowerCase (or_else (Some customer_tier) ''free''))) 0 \<noteq> Inherited"
    and d: "rest = [] \<or> hd rest = [] \<or> parse_date env (hd rest) \<noteq> None"
    by (rule importable_cells)
  have s: "SELECT_by_hash (hashContent env content) (db w) = None"
    using assms(2) row by (simp add: SELECT_by_hash_None)
  obtain a where a: "lookup_or TIER_ARR (trim (toLowerCase (or_else (Some customer_tier) ''free''))) 0 = Own a"
    using t by (cases "lookup_or TIER_ARR (trim (toLowerCase (or_else (Some customer_tier) ''free''))) 0") simp_all
  show ?thesis
    using row c s a d assms(2,3)
    by (auto simp add: import_row_def Let_def INSERT_feedback_def Date_now_def new_row_def
        unprocessed_def or_else_def list_ex_iff
        split: list.splits option.splits)
qed

lemma import_row_not_importable:
  assumes "\<not> importable env row"
  shows "fst (import_row env sourceName row w) \<noteq> Inr True
       \<and> db (snd (import_row env sourceName row w)) = db w
       \<and> instances (snd (import_row env sourceName row w)) = instances w"
  using assms
  by (auto simp add: importable_def import_row_def Let_def Date_now_def or_else_def
      split: list.splits option.splits table_value.splits if_splits)


text \<open>Whatever the row, the loop body either leaves the table as it is or appends one
  record, with the row's fingerprint and the identifier just drawn.\<close>

lemma import_row_cases:
  assumes "import_row env sourceName row w = (res, w')"
  shows "(res \<noteq> Inr True \<and> db w' = db w \<and> instances w' = instances w
            \<and> uuids_drawn w \<le> uuids_drawn w')
       \<or> (res = Inr True \<and> uuids_drawn w' = Suc (uuids_drawn w)
            \<and> \<not> list_ex (\<lambda>r. r_content_hash r = hashContent env (hd row)) (db w)
            \<and> (\<exists>r. db w' = db w @ [r] \<and> r_content_hash r = hashContent env (hd row)
                    \<and> r_id r = uuid env (uuids_drawn w)))"
  using assms
  by (auto simp add: import_row_def Let_def INSERT_feedback_def Date_now_def new_row_def
      list_ex_iff
      split: list.splits if_splits option.splits sum.splits table_value.splits prod.splits)

lemma import_row_distinct:
  assumes "import_row env sourceName row w = (res, w')"
    and "distinct (map r_content_hash (db w))"
  shows "distinct (map r_content_hash (db w'))"
proof -
  from import_row_cases [OF assms(1)]
  consider "db w' = db w"
    | r where "db w' = db w @ [r]" "\<not> list_ex (\<lambda>x. r_content_hash x = r_content_hash r) (db w)"
    by metis
  then show ?thesis
  proof cases
    case 1
    then show ?thesis using assms(2) by simp
  next
    case 2
    have "r_content_hash r \<notin> set (map r_content_hash (db w))"
      using 2(2) by (auto simp add: list_ex_iff image_iff)
    then show ?thesis using 2(1) assms(2) by simp
  qed
qed

lemma import_row_ids_drawn:
  assumes "import_row env sourceName row w = (res, w')" and "ids_drawn env w"
  shows "ids_drawn env w'"
proof -
  from import_row_cases [OF assms(1)]
  consider (same) "db w' = db w" "uuids_drawn w \<le> uuids_drawn w'"
    | (more) r where "db w' = db w @ [r]" "r_id r = uuid env (uuids_drawn w)"
        "uuids_drawn w' = Suc (uuids_drawn w)"
    by blast
  then show ?thesis
  proof cases
    case same
    show ?thesis unfolding ids_drawn_def
    proof
      fix r assume "r \<in> set (db w')"
      then obtain n where "n < uuids_drawn w" "r_id r = uuid env n"
        using assms(2) same(1) by (auto simp add: ids_drawn_def)
      then show "\<exists>n<uuids_drawn w'. r_id r = uuid env n" using same(2) by (intro exI [of _ n]) simp
    qed
  next
    case more
    show ?thesis unfolding ids_drawn_def
    proof
      fix x assume "x \<in> set (db w')"
      then consider "x \<in> set (db w)" | "x = r" using more(1) by auto
      then show "\<exists>n<uuids_drawn w'. r_id x = uuid env n"
      proof cases
        case 1
        then obtain n where "n < uuids_drawn w" "r_id x = uuid env n"
          using assms(2) by (auto simp add: ids_drawn_def)
        then show ?thesis using more(3) by (intro exI [of _ n]) simp
      next
        case 2
        then show ?thesis using more(2,3) by (intro exI [of _ "uuids_drawn w"]) simp
      qed
    qed
  qed
qed

lemma import_row_grows:
  assumes "import_row env sourceName row w = (res, w')"
  shows "set (map r_content_hash (db w)) \<subseteq> set (map r_content_hash (db w'))"
  using import_row_cases [OF assms] by auto

text \<open>An identifier not yet given out is not a key of the table.\<close>

lemma ids_drawn_fresh:
  assumes "inj (uuid env)" and "ids_drawn env w"
  shows "\<not> list_ex (\<lambda>r. r_id r = uuid env (uuids_drawn w)) (db w)"
proof
  assume "list_ex (\<lambda>r. r_id r = uuid env (uuids_drawn w)) (db w)"
  then obtain r where r: "r \<in> set (db w)" "r_id r = uuid env (uuids_drawn w)"
    by (auto simp add: list_ex_iff)
  then obtain n where n: "n < uuids_drawn w" "r_id r = uuid env n"
    using assms(2) by (auto simp add: ids_drawn_def)
  then have "uuid env n = uuid env (uuids_drawn w)" using r(2) by simp
  then have "n = uuids_drawn w" using assms(1) by (simp add: inj_eq)
  then show False using n(1) by simp
qed

text \<open>Progress: a row that is importable or insufficient goes through the loop body
  without an exception, and an importable row leaves its fingerprint in the table.\<close>

lemma import_row_succeeds:
  assumes "inj (uuid env)" and "ids_drawn env w"
    and "importable env row \<or> insufficient row"
  shows "\<exists>b w'. import_row env sourceName row w = (Inr b, w')
           \<and> (importable env row \<longrightarrow> list_ex (\<lambda>r. r_content_hash r = hashContent env (hd row)) (db w'))
           \<and> (b \<longleftrightarrow> importable env row
                    \<and> \<not> list_ex (\<lambda>r. r_content_hash r = hashContent env (hd row)) (db w))"
proof (cases "importable env row")
  case False
  then have i: "insufficient row" using assms(3) by simp
  show ?thesis using False import_row_insufficient [OF i, of env sourceName w]
    by (intro exI [of _ False] exI [of _ w]) simp
next
  case True
  then obtain content cells where row: "row = content # cells" by (rule importable_cells)
  show ?thesis
  proof (cases "list_ex (\<lambda>r. r_content_hash r = hashContent env (hd row)) (db w)")
    case present: True
    then have "import_row env sourceName row w = (Inr False, w)"
      using row import_row_skips [of env content w sourceName cells] by simp
    then show ?thesis using present by (intro exI [of _ False] exI [of _ w]) simp
  next
    case False
    from import_row_stores [OF True False ids_drawn_fresh [OF assms(1,2)], of sourceName]
    obtain r w' where "import_row env sourceName row w = (Inr True, w')"
      "db w' = db w @ [r]" "r_content_hash r = hashContent env (hd row)" by blast
    then show ?thesis using True False
      by (intro exI [of _ True] exI [of _ w']) (simp add: list_ex_iff)
  qed
qed

lemma import_rows_succeeds:
  assumes "inj (uuid env)"
  shows "ids_drawn env w \<Longrightarrow> distinct (map r_content_hash (db w)) \<Longrightarrow>
         \<forall>row\<in>set rows. importable env row \<or> insufficient row \<Longrightarrow>
         \<exists>k w'. import_rows env sourceName rows n t w = (Inr (n + k), t + k, w')
           \<and> ids_drawn env w' \<and> distinct (map r_content_hash (db w'))
           \<and> set (map r_content_hash (db w)) \<subseteq> set (map r_content_hash (db w'))
           \<and> (\<forall>row\<in>set rows. importable env row \<longrightarrow>
                 list_ex (\<lambda>r. r_content_hash r = hashContent env (hd row)) (db w'))"
proof (induction rows arbitrary: n t w)
  case Nil
  then show ?case by simp
next
  case (Cons row rows)
  have ok: "importable env row \<or> insufficient row" using Cons.prems(3) by simp
  from import_row_succeeds [OF assms Cons.prems(1) ok, of sourceName] obtain b w1 where
    r: "import_row env sourceName row w = (Inr b, w1)"
    and h: "importable env row \<longrightarrow> list_ex (\<lambda>r. r_content_hash r = hashContent env (hd row)) (db w1)"
    by blast
  have i1: "ids_drawn env w1" using r Cons.prems(1) by (rule import_row_ids_drawn)
  have d1: "distinct (map r_content_hash (db w1))" using r Cons.prems(2) by (rule import_row_distinct)
  have g1: "set (map r_content_hash (db w)) \<subseteq> set (map r_content_hash (db w1))"
    using r by (rule import_row_grows)
  have rest: "\<forall>row\<in>set rows. importable env row \<or> insufficient row" using Cons.prems(3) by simp
  from Cons.IH [OF i1 d1 rest, of "if b then Suc n else n" "if b then Suc t else t"]
  obtain k w' where
    k: "import_rows env sourceName rows (if b then Suc n else n) (if b then Suc t else t) w1
          = (Inr ((if b then Suc n else n) + k), (if b then Suc t else t) + k, w')"
    and i: "ids_drawn env w'" and d: "distinct (map r_content_hash (db w'))"
    and g: "set (map r_content_hash (db w1)) \<subseteq> set (map r_content_hash (db w'))"
    and a: "\<forall>row\<in>set rows. importable env row \<longrightarrow>
                 list_ex (\<lambda>r. r_content_hash r = hashContent env (hd row)) (db w')"
    by blast
  have run: "import_rows env sourceName (row # rows) n t w
               = (Inr (n + (if b then Suc k else k)), t + (if b then Suc k else k), w')"
    using r k by (cases b) simp_all
  have here: "importable env row \<longrightarrow>
                list_ex (\<lambda>r. r_content_hash r = hashContent env (hd row)) (db w')"
  proof
    assume "importable env row"
    then obtain r where "r \<in> set (db w1)" "r_content_hash r = hashContent env (hd row)"
      using h by (auto simp add: list_ex_iff)
    then have "hashContent env (hd row) \<in> set (map r_content_hash (db w1))" by force
    then have "hashContent env (hd row) \<in> set (map r_content_hash (db w'))" using g by blast
    then show "list_ex (\<lambda>r. r_content_hash r = hashContent env (hd row)) (db w')"
      by (auto simp add: list_ex_iff)
  qed
  have all: "\<forall>x\<in>set (row # rows). importable env x \<longrightarrow>
                list_ex (\<lambda>r. r_content_hash r = hashContent env (hd x)) (db w')"
    using here a by simp
  have grow: "set (map r_content_hash (db w)) \<subseteq> set (map r_content_hash (db w'))"
    using g1 g by blast
  show ?case
    using run i d grow all
    by (intro exI [of _ "if b then Suc k else k"] exI [of _ w']) (simp only: simp_thms)
qed

lemma import_row_imported:
  assumes "import_row env sourceName (content # cells) w = (Inr True, w1)"
  shows "\<not> list_ex (\<lambda>r. r_content_hash r = hashContent env content) (db w)
       \<and> (\<exists>r. db w1 = db w @ [r] \<and> r_content_hash r = hashContent env content
                \<and> r_content r = trim content \<and> unprocessed r)
       \<and> (\<exists>p. instances w1 = instances w @ [p] \<and> fb_content p = trim content)"
  using assms
  by (auto simp add: import_row_def Let_def SELECT_by_hash_None INSERT_feedback_def Date_now_def
      new_row_def unprocessed_def
      split: list.splits if_splits option.splits sum.splits table_value.splits prod.splits)

lemma import_row_settled:
  assumes "import_row env sourceName row w = (Inr b, w')"
    and "set (map r_content_hash (db w')) \<subseteq> set (map r_content_hash (db w2))"
  shows "import_row env sourceName row w2 = (Inr False, w2)"
proof (cases row)
  case Nil
  then show ?thesis by (simp add: import_row_def)
next
  case (Cons content cells)
  show ?thesis
  proof (cases "length cells < 2 \<or> trim content = []")
    case True
    then show ?thesis using Cons
      by (auto simp add: import_row_def Let_def split: list.splits)
  next
    case False
    have "hashContent env content \<in> set (map r_content_hash (db w'))"
    proof (cases b)
      case True
      then show ?thesis
        using import_row_imported [of env sourceName content cells w w'] assms(1) Cons by auto
    next
      case False
      have "list_ex (\<lambda>r. r_content_hash r = hashContent env content) (db w) \<and> w' = w"
        using assms(1) Cons \<open>\<not> (length cells < 2 \<or> trim content = [])\<close> False
        by (auto simp add: import_row_def Let_def INSERT_feedback_def Date_now_def
            dest: SELECT_by_hash_Some
            split: list.splits if_splits option.splits sum.splits table_value.splits prod.splits)
      then show ?thesis by (force simp add: list_ex_iff)
    qed
    then have "hashContent env content \<in> set (map r_content_hash (db w2))" using assms(2) by blast
    then have "list_ex (\<lambda>r. r_content_hash r = hashContent env content) (db w2)"
      by (auto simp add: list_ex_iff)
    then show ?thesis using Cons by (simp add: import_row_skips)
  qed
qed

lemma import_rows_grows:
  "import_rows env sourceName rows n t w = (res, t', w') \<Longrightarrow>
   set (map r_content_hash (db w)) \<subseteq> set (map r_content_hash (db w'))"
proof (induction rows arbitrary: n t w)
  case Nil
  then show ?case by simp
next
  case (Cons row rows)
  obtain r w1 where rw: "import_row env sourceName row w = (r, w1)"
    by (cases "import_row env sourceName row w")
  have g: "set (map r_content_hash (db w)) \<subseteq> set (map r_content_hash (db w1))"
    using rw by (rule import_row_grows)
  show ?case
  proof (cases r)
    case (Inl e)
    then show ?thesis using Cons.prems rw g by simp
  next
    case (Inr imported)
    then have "set (map r_content_hash (db w1)) \<subseteq> set (map r_content_hash (db w'))"
      using Cons.prems rw Cons.IH [of "Suc n" "Suc t" w1] Cons.IH [of n t w1]
      by (cases imported) simp_all
    then show ?thesis using g by blast
  qed
qed

lemma import_rows_settled:
  "import_rows env sourceName rows n t w = (Inr n', t', w1) \<Longrightarrow>
   set (map r_content_hash (db w1)) \<subseteq> set (map r_content_hash (db w2)) \<Longrightarrow>
   import_rows env sourceName rows m t2 w2 = (Inr m, t2, w2)"
proof (induction rows arbitrary: n t w)
  case Nil
  then show ?case by simp
next
  case (Cons row rows)
  obtain r w' where rw: "import_row env sourceName row w = (r, w')"
    by (cases "import_row env sourceName row w")
  show ?case
  proof (cases r)
    case (Inl e)
    then show ?thesis using Cons.prems(1) rw by simp
  next
    case (Inr imported)
    have rest: "\<exists>k j. import_rows env sourceName rows k j w' = (Inr n', t', w1)"
      using Cons.prems(1) rw Inr by (cases imported) auto
    then obtain k j where kj: "import_rows env sourceName rows k j w' = (Inr n', t', w1)" by blast
    have "set (map r_content_hash (db w')) \<subseteq> set (map r_content_hash (db w1))"
      using kj by (rule import_rows_grows)
    then have "set (map r_content_hash (db w')) \<subseteq> set (map r_content_hash (db w2))"
      using Cons.prems(2) by blast
    then have skip: "import_row env sourceName row w2 = (Inr False, w2)"
      using rw [unfolded Inr] by (rule import_row_settled [rotated])
    have "import_rows env sourceName rows m t2 w2 = (Inr m, t2, w2)"
      using Cons.IH [OF kj Cons.prems(2)] .
    then show ?thesis using skip by simp
  qed
qed

text \<open>
  C3. The claim: the fingerprint is deterministic, and importing the same row twice
  yields exactly one stored record, the second import finding the record and skipping.
  The fingerprint is a function of the string and the digest alone. Importing twice does
  not always leave one record: the loop passes over a row with fewer than three cells or
  a blank content, and the body throws before the insert on a date that does not parse
  or a tier that names an inherited member; such a row leaves no record, however often
  it is imported. Amended, for a table with unique fingerprints whose keys come from an
  identifier generator that never repeats: the first import of an importable row stores
  it exactly when its fingerprint (that of its first cell) is new, the table then holds
  exactly one record with that fingerprint, and a second import returns without insert,
  enqueue or identifier drawn, leaving the world as it is; a row that is not importable
  is never stored; and a pass of the row loop over rows that are each importable or
  insufficient ends without an exception, counts the rows it stored, leaves exactly one
  record for every importable row, and a second pass imports nothing and leaves the
  world as it is.
\<close>

theorem import_twice:
  "(inj (uuid env) \<and> ids_drawn env w \<and> distinct (map r_content_hash (db w)) \<longrightarrow>
      (importable env row \<longrightarrow>
         (fst (import_row env sourceName row w) = Inr True
            \<longleftrightarrow> \<not> list_ex (\<lambda>r. r_content_hash r = hashContent env (hd row)) (db w))
         \<and> records_with (hashContent env (hd row)) (db (snd (import_row env sourceName row w))) = 1
         \<and> import_row env sourceName row (snd (import_row env sourceName row w))
             = (Inr False, snd (import_row env sourceName row w)))
      \<and> ((\<forall>x\<in>set rows. importable env x \<or> insufficient x) \<longrightarrow>
           (\<exists>k. fst (import_rows env sourceName rows n t w) = Inr (n + k)
                \<and> fst (snd (import_rows env sourceName rows n t w)) = t + k)
           \<and> (\<forall>x\<in>set rows. importable env x \<longrightarrow>
                 records_with (hashContent env (hd x))
                   (db (snd (snd (import_rows env sourceName rows n t w)))) = 1)
           \<and> import_rows env sourceName rows 0 t' (snd (snd (import_rows env sourceName rows n t w)))
               = (Inr 0, t', snd (snd (import_rows env sourceName rows n t w)))))
   \<and> (\<not> importable env row \<longrightarrow>
        fst (import_row env sourceName row w) \<noteq> Inr True
        \<and> db (snd (import_row env sourceName row w)) = db w
        \<and> db (snd (import_row env sourceName row (snd (import_row env sourceName row w)))) = db w
        \<and> instances (snd (import_row env sourceName row (snd (import_row env sourceName row w))))
            = instances w)
   \<and> (sha256 env' = sha256 env \<longrightarrow> hashContent env' content = hashContent env content)"
proof -
  let ?h = "hashContent env (hd row)"
  let ?w1 = "snd (import_row env sourceName row w)"
  have a: "(fst (import_row env sourceName row w) = Inr True
               \<longleftrightarrow> \<not> list_ex (\<lambda>r. r_content_hash r = ?h) (db w))
            \<and> records_with ?h (db ?w1) = 1
            \<and> import_row env sourceName row ?w1 = (Inr False, ?w1)"
    if h: "inj (uuid env)" "ids_drawn env w" "distinct (map r_content_hash (db w))"
      and i: "importable env row"
  proof -
    from import_row_succeeds [OF h(1,2), of row sourceName] i obtain b w' where
      r: "import_row env sourceName row w = (Inr b, w')"
      and p: "list_ex (\<lambda>r. r_content_hash r = ?h) (db w')"
      and b: "b \<longleftrightarrow> \<not> list_ex (\<lambda>r. r_content_hash r = ?h) (db w)" by blast
    have d: "distinct (map r_content_hash (db w'))" using r h(3) by (rule import_row_distinct)
    have one: "records_with ?h (db w') = 1" using d p by (rule records_with_distinct)
    obtain content cells where row: "row = content # cells" using i by (rule importable_cells)
    have again: "import_row env sourceName row w' = (Inr False, w')"
      using p row import_row_skips [of env content w' sourceName cells] by simp
    show ?thesis using r b one again by simp
  qed
  have b: "fst (import_row env sourceName row w) \<noteq> Inr True \<and> db ?w1 = db w
           \<and> db (snd (import_row env sourceName row ?w1)) = db w
           \<and> instances (snd (import_row env sourceName row ?w1)) = instances w"
    if "\<not> importable env row"
    using import_row_not_importable [OF that, of sourceName w]
      import_row_not_importable [OF that, of sourceName ?w1] by simp
  let ?p = "import_rows env sourceName rows n t w"
  have c: "(\<exists>k. fst ?p = Inr (n + k) \<and> fst (snd ?p) = t + k)
            \<and> (\<forall>x\<in>set rows. importable env x \<longrightarrow>
                  records_with (hashContent env (hd x)) (db (snd (snd ?p))) = 1)
            \<and> import_rows env sourceName rows 0 t' (snd (snd ?p)) = (Inr 0, t', snd (snd ?p))"
    if h: "inj (uuid env)" "ids_drawn env w" "distinct (map r_content_hash (db w))"
      and ok: "\<forall>x\<in>set rows. importable env x \<or> insufficient x"
  proof -
    from import_rows_succeeds [OF h ok, of sourceName n t] obtain k w' where
      r: "?p = (Inr (n + k), t + k, w')"
      and d: "distinct (map r_content_hash (db w'))"
      and p: "\<forall>x\<in>set rows. importable env x \<longrightarrow>
                list_ex (\<lambda>r. r_content_hash r = hashContent env (hd x)) (db w')" by blast
    have one: "\<forall>x\<in>set rows. importable env x \<longrightarrow>
                 records_with (hashContent env (hd x)) (db w') = 1"
      using p records_with_distinct [OF d] by blast
    have again: "import_rows env sourceName rows 0 t' w' = (Inr 0, t', w')"
      using r by (rule import_rows_settled) simp
    have k: "\<exists>j. fst ?p = Inr (n + j) \<and> fst (snd ?p) = t + j"
      using r by (intro exI [of _ k]) simp
    show ?thesis using k one again r by simp
  qed
  have d: "hashContent env' content = hashContent env content" if "sha256 env' = sha256 env"
    using that by (simp add: hashContent_def)
  show ?thesis using a b c d by blast
qed

theorem import_twice_witness:
  "inj (uuid sheet_env) \<and> ids_drawn sheet_env (world_with [])
   \<and> distinct (map r_content_hash (db (world_with [])))
   \<and> importable sheet_env login_row
   \<and> fst (import_row sheet_env ''support'' login_row (world_with [])) = Inr True
   \<and> records_with (hashContent sheet_env ''App crashes on login'')
        (db (snd (import_row sheet_env ''support'' login_row (world_with [])))) = 1
   \<and> import_row sheet_env ''support'' login_row
        (snd (import_row sheet_env ''support'' login_row (world_with [])))
       = (Inr False, snd (import_row sheet_env ''support'' login_row (world_with [])))
   \<and> list_all (\<lambda>x. importable sheet_env x \<or> insufficient x) support_sheet
   \<and> records_with (hashContent sheet_env ''Billing page is slow'')
        (db (snd (snd (import_rows sheet_env ''support'' support_sheet 0 0 (world_with []))))) = 1
   \<and> import_rows sheet_env ''support'' support_sheet 0 7
        (snd (snd (import_rows sheet_env ''support'' support_sheet 0 0 (world_with []))))
       = (Inr 0, 7, snd (snd (import_rows sheet_env ''support'' support_sheet 0 0 (world_with []))))
   \<and> \<not> importable sheet_env misdated_row
   \<and> db (snd (import_row sheet_env ''support'' misdated_row
                 (snd (import_row sheet_env ''support'' misdated_row (world_with [])))))
       = db (world_with [])
   \<and> sha256 (env_of silent_ai (\<lambda>n. 1000)) = sha256 sheet_env
   \<and> hashContent (env_of silent_ai (\<lambda>n. 1000)) ''App crashes on login''
       = hashContent sheet_env ''App crashes on login''"
proof -
  have i: "inj (uuid sheet_env)" by (simp add: sheet_env_def inj_def)
  have d: "ids_drawn sheet_env (world_with [])" by (simp add: ids_drawn_def world_with_def)
  have u: "distinct (map r_content_hash (db (world_with [])))" by (simp add: world_with_def)
  have r: "importable sheet_env login_row" by code_simp
  have s1: "insufficient blank_row" by code_simp
  have s2: "importable sheet_env billing_row" by code_simp
  have s: "\<forall>x\<in>set support_sheet. importable sheet_env x \<or> insufficient x"
    using r s1 s2 by (simp add: support_sheet_def)
  have s': "list_all (\<lambda>x. importable sheet_env x \<or> insufficient x) support_sheet"
    using s by (simp only: list_all_iff)
  have n: "\<not> importable sheet_env misdated_row" by code_simp
  have h: "sha256 (env_of silent_ai (\<lambda>n. 1000)) = sha256 sheet_env"
    by (simp add: env_of_def sheet_env_def)
  have e: "\<not> list_ex (\<lambda>r. r_content_hash r = hashContent sheet_env (hd login_row)) (db (world_with []))"
    by (simp add: world_with_def)
  note t = import_twice [where env = sheet_env and w = "world_with []" and row = login_row
      and sourceName = "''support''" and rows = support_sheet and n = 0 and t = 0 and t' = 7
      and env' = "env_of silent_ai (\<lambda>n. 1000)" and content = "''App crashes on login''"]
  note t2 = import_twice [where env = sheet_env and w = "world_with []" and row = misdated_row
      and sourceName = "''support''"]
  note ac = mp [OF conjunct1 [OF t] conjI [OF i conjI [OF d u]]]
  note a = mp [OF conjunct1 [OF ac] r]
  note c = mp [OF conjunct2 [OF ac] s]
  have a1: "fst (import_row sheet_env ''support'' login_row (world_with [])) = Inr True"
    using conjunct1 [OF a] e by (simp only: simp_thms)
  have a2: "records_with (hashContent sheet_env ''App crashes on login'')
              (db (snd (import_row sheet_env ''support'' login_row (world_with [])))) = 1"
    using conjunct1 [OF conjunct2 [OF a]] by (simp only: login_row_def list.sel)
  note a3 = conjunct2 [OF conjunct2 [OF a]]
  have m: "billing_row \<in> set support_sheet" by (simp add: support_sheet_def)
  have c2: "records_with (hashContent sheet_env ''Billing page is slow'')
        (db (snd (snd (import_rows sheet_env ''support'' support_sheet 0 0 (world_with []))))) = 1"
    using mp [OF bspec [OF conjunct1 [OF conjunct2 [OF c]] m] s2]
    by (simp only: billing_row_def list.sel)
  note c3 = conjunct2 [OF conjunct2 [OF c]]
  note b = conjunct1 [OF conjunct2 [OF conjunct2 [OF mp [OF conjunct1 [OF conjunct2 [OF t2]] n]]]]
  note f = mp [OF conjunct2 [OF conjunct2 [OF t]] h]
  show ?thesis
    by (intro conjI i d u r a1 a2 a3 s' c2 c3 n b h f)
qed

text \<open>A blank row, and a row whose date does not parse: imported twice, no record.\<close>

theorem import_twice_counterexample:
  "import_row sheet_env ''support'' blank_row (world_with []) = (Inr False, world_with [])
   \<and> fst (import_row sheet_env ''support'' misdated_row (world_with [])) = Inl (Thrown ''RangeError'')
   \<and> fst (import_row sheet_env ''support'' misdated_row
             (snd (import_row sheet_env ''support'' misdated_row (world_with []))))
       = Inl (Thrown ''RangeError'')
   \<and> records_with (hashContent sheet_env ''App crashes on login'')
        (db (snd (import_row sheet_env ''support'' misdated_row
                   (snd (import_row sheet_env ''support'' misdated_row (world_with [])))))) = 0"
proof -
  have a: "insufficient blank_row" by code_simp
  have b: "fst (import_row sheet_env ''support'' misdated_row (world_with []))
             = Inl (Thrown ''RangeError'')"
    by code_simp
  have c: "fst (import_row sheet_env ''support'' misdated_row
             (snd (import_row sheet_env ''support'' misdated_row (world_with []))))
       = Inl (Thrown ''RangeError'')"
    by code_simp
  have n: "\<not> importable sheet_env misdated_row" by code_simp
  have d: "db (snd (import_row sheet_env ''support'' misdated_row
                 (snd (import_row sheet_env ''support'' misdated_row (world_with []))))) = []"
    using import_row_not_importable [OF n, of "''support''" "world_with []"]
      import_row_not_importable [OF n, of "''support''"
        "snd (import_row sheet_env ''support'' misdated_row (world_with []))"]
    by (simp add: world_with_def)
  show ?thesis using import_row_insufficient [OF a] b c d by (simp add: records_with_def)
qed

end
